(* ===== verification/Prelude.thy ===== *)
theory Prelude
  imports Main "HOL-Library.Word"
begin

text \<open>
  Shared vocabulary of the development: the machine types of the Go code, the outcome type of a
  Go call, calls to external services as state transformers, byte strings with their big- and
  little-endian codecs, and the generic lemmas on them that the component theories use.

  \<^item> \<open>res\<close>: a Go function that returns \<open>(x, err)\<close> either returns a value, returns an error, panics,
    or never returns (a loop without a bound). The four outcomes are kept apart because callers
    that log an error and carry on do not survive a panic.
  \<^item> \<open>rpc\<close>: a call to a service outside the repository (an execution engine, an L1 node) reads and
    changes the world \<open>'w\<close> of that service; the model threads it through every call in source order.
\<close>

named_theorems bytes_simps \<open>lengths and round trips of byte encodings\<close>
named_theorems res_simps \<open>unfolding of the result combinators\<close>

section \<open>Machine types\<close>

type_synonym byte = "8 word"
type_synonym bytes = "byte list"
type_synonym u32 = "32 word"
type_synonym u64 = "64 word"
type_synonym hash = "256 word"      \<comment> \<open>\<open>common.Hash\<close>, a \<open>[32]byte\<close> array, and \<open>l2.Bytes32\<close>\<close>
type_synonym address = "160 word"   \<comment> \<open>\<open>common.Address\<close>, a \<open>[20]byte\<close> array\<close>

section \<open>Outcomes of Go calls\<close>

datatype error =
    NotFound                \<comment> \<open>\<open>ethereum.NotFound\<close>\<close>
  | WrongChainErr
  | TooDeepReorgErr
  | TooManyRetries
  | ContextCanceled
  | ErrMsg string           \<comment> \<open>\<open>errors.New\<close>, and \<open>fmt.Errorf\<close> without \<open>%w\<close>\<close>
  | Wrap string error       \<comment> \<open>\<open>fmt.Errorf\<close> with \<open>%w\<close>\<close>

text \<open>\<open>errors.Is(err, target)\<close> looks through the errors that \<open>%w\<close> wraps.\<close>

fun errors_Is :: "error \<Rightarrow> error \<Rightarrow> bool" where
  "errors_Is (Wrap m e) target \<longleftrightarrow> Wrap m e = target \<or> errors_Is e target"
| "errors_Is e target \<longleftrightarrow> e = target"

datatype 'a res = Ok 'a | Err error | Panic string | Diverge

fun bind_res :: "'a res \<Rightarrow> ('a \<Rightarrow> 'b res) \<Rightarrow> 'b res" where
  "bind_res (Ok x) f = f x"
| "bind_res (Err e) f = Err e"
| "bind_res (Panic p) f = Panic p"
| "bind_res Diverge f = Diverge"

text \<open>\<open>if err != nil { return ..., g(err) }\<close>\<close>

fun map_err :: "(error \<Rightarrow> error) \<Rightarrow> 'a res \<Rightarrow> 'a res" where
  "map_err g (Ok x) = Ok x"
| "map_err g (Err e) = Err (g e)"
| "map_err g (Panic p) = Panic p"
| "map_err g Diverge = Diverge"

definition guard :: "bool \<Rightarrow> error \<Rightarrow> unit res" where
  "guard b e = (if b then Ok () else Err e)"

lemma bind_res_Ok_iff [res_simps]: "bind_res m f = Ok y \<longleftrightarrow> (\<exists>x. m = Ok x \<and> f x = Ok y)"
  by (cases m) auto

lemma map_err_Ok_iff [simp]: "map_err g m = Ok x \<longleftrightarrow> m = Ok x"
  by (cases m) auto

lemma guard_Ok_iff [simp]: "guard b e = Ok u \<longleftrightarrow> b"
  by (simp add: guard_def)

lemma guard_True [simp]: "guard True e = Ok ()"
  by (simp add: guard_def)

lemma guard_False [simp]: "guard False e = Err e"
  by (simp add: guard_def)

lemma bind_res_assoc: "bind_res (bind_res m f) g = bind_res m (\<lambda>x. bind_res (f x) g)"
  by (cases m) auto

definition is_ok :: "'a res \<Rightarrow> bool" where
  "is_ok r \<longleftrightarrow> (case r of Ok _ \<Rightarrow> True | _ \<Rightarrow> False)"

lemma is_ok_simps [simp]:
  "is_ok (Ok x)" "\<not> is_ok (Err e)" "\<not> is_ok (Panic p)" "\<not> is_ok Diverge"
  by (simp_all add: is_ok_def)

section \<open>Calls to external services\<close>

type_synonym ('w, 'a) rpc = "'w \<Rightarrow> 'a res \<times> 'w"

definition ret :: "'a \<Rightarrow> ('w, 'a) rpc" where
  "ret x = (\<lambda>w. (Ok x, w))"

definition lift_res :: "'a res \<Rightarrow> ('w, 'a) rpc" where
  "lift_res r = (\<lambda>w. (r, w))"

definition rbind :: "('w, 'a) rpc \<Rightarrow> ('a \<Rightarrow> ('w, 'b) rpc) \<Rightarrow> ('w, 'b) rpc" where
  "rbind m f = (\<lambda>w. case m w of
      (Ok x, w') \<Rightarrow> f x w'
    | (Err e, w') \<Rightarrow> (Err e, w')
    | (Panic p, w') \<Rightarrow> (Panic p, w')
    | (Diverge, w') \<Rightarrow> (Diverge, w'))"

definition rmap_err :: "(error \<Rightarrow> error) \<Rightarrow> ('w, 'a) rpc \<Rightarrow> ('w, 'a) rpc" where
  "rmap_err g m = (\<lambda>w. case m w of (r, w') \<Rightarrow> (map_err g r, w'))"

text \<open>\<open>if err != nil { h } else { f }\<close> where the error branch does not return the error: \<open>h\<close> handles
  it. A panic is not handled.\<close>

definition rcatch :: "('w, 'a) rpc \<Rightarrow> (error \<Rightarrow> ('w, 'b) rpc) \<Rightarrow> ('a \<Rightarrow> ('w, 'b) rpc) \<Rightarrow> ('w, 'b) rpc" where
  "rcatch m h f = (\<lambda>w. case m w of
      (Ok x, w') \<Rightarrow> f x w'
    | (Err e, w') \<Rightarrow> h e w'
    | (Panic p, w') \<Rightarrow> (Panic p, w')
    | (Diverge, w') \<Rightarrow> (Diverge, w'))"

lemma rcatch_Ok [simp]: "m w = (Ok x, w') \<Longrightarrow> rcatch m h f w = f x w'"
  by (simp add: rcatch_def)

lemma rcatch_Err [simp]: "m w = (Err e, w') \<Longrightarrow> rcatch m h f w = h e w'"
  by (simp add: rcatch_def)

lemma rcatch_Ok_iff [res_simps]:
  "rcatch m h f w = (Ok y, w'') \<longleftrightarrow>
     (\<exists>x w'. m w = (Ok x, w') \<and> f x w' = (Ok y, w'')) \<or> (\<exists>e w'. m w = (Err e, w') \<and> h e w' = (Ok y, w''))"
  by (auto simp: rcatch_def split: prod.splits res.splits)

lemma ret_apply [simp]: "ret x w = (Ok x, w)"
  by (simp add: ret_def)

lemma lift_res_apply [simp]: "lift_res r w = (r, w)"
  by (simp add: lift_res_def)

lemma rbind_Ok [simp]: "m w = (Ok x, w') \<Longrightarrow> rbind m f w = f x w'"
  by (simp add: rbind_def)

lemma rbind_Err [simp]: "m w = (Err e, w') \<Longrightarrow> rbind m f w = (Err e, w')"
  by (simp add: rbind_def)

lemma rbind_Panic [simp]: "m w = (Panic p, w') \<Longrightarrow> rbind m f w = (Panic p, w')"
  by (simp add: rbind_def)

lemma rbind_Ok_iff [res_simps]:
  "rbind m f w = (Ok y, w'') \<longleftrightarrow> (\<exists>x w'. m w = (Ok x, w') \<and> f x w' = (Ok y, w''))"
  by (auto simp: rbind_def split: prod.splits res.splits)

lemma rmap_err_Ok_iff [simp]: "rmap_err g m w = (Ok x, w') \<longleftrightarrow> m w = (Ok x, w')"
  by (auto simp: rmap_err_def split: prod.splits)

lemma lift_res_Ok_iff [simp]: "lift_res r w = (Ok x, w') \<longleftrightarrow> r = Ok x \<and> w' = w"
  by auto

section \<open>Byte encodings\<close>

text \<open>\<open>encoding/binary\<close>: the low \<open>n\<close> bytes of a number, least significant byte first, and back.\<close>

fun le_bytes :: "nat \<Rightarrow> nat \<Rightarrow> bytes" where
  "le_bytes 0 x = []"
| "le_bytes (Suc n) x = of_nat (x mod 256) # le_bytes n (x div 256)"

fun le_nat :: "bytes \<Rightarrow> nat" where
  "le_nat [] = 0"
| "le_nat (b # bs) = unat b + 256 * le_nat bs"

definition be_bytes :: "nat \<Rightarrow> nat \<Rightarrow> bytes" where
  "be_bytes n x = rev (le_bytes n x)"

definition be_nat :: "bytes \<Rightarrow> nat" where
  "be_nat bs = le_nat (rev bs)"

lemma length_le_bytes [simp]: "length (le_bytes n x) = n"
  by (induction n arbitrary: x) auto

lemma length_be_bytes [simp]: "length (be_bytes n x) = n"
  by (simp add: be_bytes_def)

lemma unat_of_nat_byte [simp]: "unat (of_nat (x mod 256) :: byte) = x mod 256"
  by (simp add: unat_of_nat)

lemma le_nat_le_bytes [bytes_simps]: "le_nat (le_bytes n x) = x mod 256 ^ n"
proof (induction n arbitrary: x)
  case (Suc n)
  have "x mod (256 * 256 ^ n) = 256 * (x div 256 mod 256 ^ n) + x mod 256"
    by (rule mod_mult2_eq)
  with Suc show ?case by simp
qed simp

lemma le_bytes_le_nat [bytes_simps]: "length bs = n \<Longrightarrow> le_bytes n (le_nat bs) = bs"
proof (induction bs arbitrary: n)
  case (Cons b bs)
  have "unat b < 256" using unsigned_less [of b] by simp
  then have "(unat b + 256 * le_nat bs) mod 256 = unat b"
    and "(unat b + 256 * le_nat bs) div 256 = le_nat bs"
    by simp_all
  with Cons show ?case by auto
qed simp

lemma le_nat_less: "le_nat bs < 256 ^ length bs"
proof (induction bs)
  case (Cons b bs)
  have "unat b < 256" using unsigned_less [of b] by simp
  with Cons show ?case by simp
qed simp

lemma be_nat_be_bytes [bytes_simps]: "be_nat (be_bytes n x) = x mod 256 ^ n"
  by (simp add: be_nat_def be_bytes_def bytes_simps)

lemma be_bytes_be_nat [bytes_simps]: "length bs = n \<Longrightarrow> be_bytes n (be_nat bs) = bs"
  by (simp add: be_nat_def be_bytes_def bytes_simps)

lemma be_nat_less: "be_nat bs < 256 ^ length bs"
  using le_nat_less [of "rev bs"] by (simp add: be_nat_def)

lemma le_bytes_eq_iff: "le_bytes n x = le_bytes n y \<longleftrightarrow> x mod 256 ^ n = y mod 256 ^ n"
proof
  assume "le_bytes n x = le_bytes n y"
  then have "le_nat (le_bytes n x) = le_nat (le_bytes n y)" by simp
  then show "x mod 256 ^ n = y mod 256 ^ n" by (simp add: bytes_simps)
next
  assume "x mod 256 ^ n = y mod 256 ^ n"
  then have "le_nat (le_bytes n x) = le_nat (le_bytes n y)" by (simp add: bytes_simps)
  then have "le_bytes n (le_nat (le_bytes n x)) = le_bytes n (le_nat (le_bytes n y))" by simp
  then show "le_bytes n x = le_bytes n y" by (simp only: le_bytes_le_nat length_le_bytes)
qed

lemma be_bytes_eq_iff: "be_bytes n x = be_bytes n y \<longleftrightarrow> x mod 256 ^ n = y mod 256 ^ n"
  by (simp add: be_bytes_def le_bytes_eq_iff)

text \<open>Words of a whole number of bytes: \<open>PutUint64\<close>, \<open>Uint64\<close>, \<open>Hash.Bytes\<close>, \<open>BytesToHash\<close> and kin.\<close>

definition word_be :: "nat \<Rightarrow> 'a::len word \<Rightarrow> bytes" where
  "word_be n w = be_bytes n (unat w)"

definition word_le :: "nat \<Rightarrow> 'a::len word \<Rightarrow> bytes" where
  "word_le n w = le_bytes n (unat w)"

definition of_be :: "bytes \<Rightarrow> 'a::len word" where
  "of_be bs = of_nat (be_nat bs)"

definition of_le :: "bytes \<Rightarrow> 'a::len word" where
  "of_le bs = of_nat (le_nat bs)"

lemma length_word_be [simp]: "length (word_be n w) = n"
  by (simp add: word_be_def)

lemma length_word_le [simp]: "length (word_le n w) = n"
  by (simp add: word_le_def)

lemma unat_mod_256_power:
  fixes w :: "'a::len word"
  assumes "LENGTH('a) \<le> 8 * n"
  shows "unat w mod 256 ^ n = unat w"
proof -
  have "unat w < 2 ^ LENGTH('a)" by (rule unsigned_less)
  also have "\<dots> \<le> 2 ^ (8 * n)" using assms by simp
  also have "\<dots> = 256 ^ n" by (simp add: power_mult)
  finally show ?thesis by simp
qed

lemma of_be_word_be:
  fixes w :: "'a::len word"
  shows "LENGTH('a) \<le> 8 * n \<Longrightarrow> of_be (word_be n w) = w"
  by (simp add: of_be_def word_be_def bytes_simps unat_mod_256_power)

lemma of_le_word_le:
  fixes w :: "'a::len word"
  shows "LENGTH('a) \<le> 8 * n \<Longrightarrow> of_le (word_le n w) = w"
  by (simp add: of_le_def word_le_def bytes_simps unat_mod_256_power)

lemma unat_of_nat_bytes:
  assumes "length bs = n" and "8 * n \<le> LENGTH('a::len)" and "m < 256 ^ n"
  shows "unat (of_nat m :: 'a word) = m"
proof -
  have "(256::nat) ^ n = 2 ^ (8 * n)" by (simp add: power_mult)
  also have "\<dots> \<le> 2 ^ LENGTH('a)" using assms(2) by simp
  finally have "m < 2 ^ LENGTH('a)" using assms(3) by simp
  then show ?thesis by (simp add: unat_of_nat)
qed

lemma word_be_of_be:
  assumes "length bs = n" and "8 * n \<le> LENGTH('a::len)"
  shows "word_be n (of_be bs :: 'a word) = bs"
  using assms be_nat_less [of bs]
  by (simp add: word_be_def of_be_def unat_of_nat_bytes [OF assms] bytes_simps)

lemma word_le_of_le:
  assumes "length bs = n" and "8 * n \<le> LENGTH('a::len)"
  shows "word_le n (of_le bs :: 'a word) = bs"
  using assms le_nat_less [of bs]
  by (simp add: word_le_def of_le_def unat_of_nat_bytes [OF assms] bytes_simps)

lemma of_be_word_be_instances [simp, bytes_simps]:
  "of_be (word_be 8 (x::u64)) = x"
  "of_be (word_be 32 (h::hash)) = h"
  "of_be (word_be 20 (a::address)) = a"
  by (simp_all add: of_be_word_be)

lemma of_le_word_le_instances [simp, bytes_simps]:
  "of_le (word_le 4 (y::u32)) = y"
  "of_le (word_le 8 (x::u64)) = x"
  by (simp_all add: of_le_word_le)

lemma word_be_inj:
  fixes v w :: "'a::len word"
  assumes "LENGTH('a) \<le> 8 * n"
  shows "word_be n v = word_be n w \<longleftrightarrow> v = w"
  using of_be_word_be [OF assms] by metis

section \<open>Slices\<close>

text \<open>The slice expression \<open>s[a:b]\<close> read as a value; it panics out of bounds.\<close>

definition slice :: "'a list \<Rightarrow> nat \<Rightarrow> nat \<Rightarrow> 'a list res" where
  "slice s a b = (if a \<le> b \<and> b \<le> length s then Ok (take (b - a) (drop a s))
                  else Panic ''slice bounds out of range'')"

text \<open>\<open>copy(s[a:b], src)\<close>: it panics out of bounds and copies the shorter of both lengths.\<close>

definition slice_copy :: "'a list \<Rightarrow> nat \<Rightarrow> nat \<Rightarrow> 'a list \<Rightarrow> 'a list res" where
  "slice_copy s a b src =
     (if a \<le> b \<and> b \<le> length s
      then Ok (take a s @ take (b - a) src @ drop (a + min (b - a) (length src)) s)
      else Panic ''slice bounds out of range'')"

definition index :: "'a list \<Rightarrow> nat \<Rightarrow> 'a res" where
  "index s i = (if i < length s then Ok (s ! i) else Panic ''index out of range'')"

lemma slice_append [simp]:
  "length p = a \<Longrightarrow> b = a + length m \<Longrightarrow> slice (p @ m @ s) a b = Ok m"
  by (simp add: slice_def)

lemma slice_copy_append:
  assumes "length p = a" and "b = a + length src" and "length q = length src"
  shows "slice_copy (p @ q @ s) a b src = Ok (p @ src @ s)"
  using assms by (simp add: slice_copy_def)

lemma index_Ok_iff [simp]: "index s i = Ok x \<longleftrightarrow> i < length s \<and> s ! i = x"
  by (auto simp: index_def)

section \<open>Generic lemmas on lists\<close>

lemma take_drop_split: "a \<le> b \<Longrightarrow> b \<le> length xs \<Longrightarrow>
    xs = take a xs @ take (b - a) (drop a xs) @ drop b xs"
  by (metis append_take_drop_id drop_drop le_add_diff_inverse2 add.commute)

lemma split_at: "n \<le> length xs \<Longrightarrow> \<exists>p s. xs = p @ s \<and> length p = n"
  by (metis append_take_drop_id length_take min.absorb2)

section \<open>Invariants of step relations\<close>

text \<open>The interface of a state machine with an invariant: the components that run as loops or receive
  a sequence of events interpret it with their own step relations.\<close>

locale step_invariant =
  fixes init :: "'s \<Rightarrow> bool" and step :: "'s \<Rightarrow> 's \<Rightarrow> bool" and inv :: "'s \<Rightarrow> bool"
  assumes init_inv: "init s \<Longrightarrow> inv s"
    and step_inv: "inv s \<Longrightarrow> step s t \<Longrightarrow> inv t"
begin

lemma steps_inv: "step\<^sup>*\<^sup>* s t \<Longrightarrow> inv s \<Longrightarrow> inv t"
  by (induction rule: rtranclp_induct) (auto intro: step_inv)

lemma reachable_inv: "init s \<Longrightarrow> step\<^sup>*\<^sup>* s t \<Longrightarrow> inv t"
  by (rule steps_inv) (auto intro: init_inv)

end

end
