(* ===== verification/Types.thy ===== *)
theory Types
  imports Prelude
begin

text \<open>
  The identifiers that every component passes around (\<open>op-node/eth/id.go\<close>) and the rollup
  configuration with its sanity check (\<open>op-node/rollup/types.go\<close>). Go structs are records; the
  field names carry a prefix because Go reuses \<open>Hash\<close> and \<open>Number\<close> in several structs.
\<close>

section \<open>Block identifiers (op-node/eth/id.go)\<close>

record BlockID =
  id_Hash :: hash
  id_Number :: u64

record L2BlockRef =
  l2_Hash :: hash
  l2_Number :: u64
  l2_ParentHash :: hash
  l2_Time :: u64
  l2_L1Origin :: BlockID
  l2_SequenceNumber :: u64

record L1BlockRef =
  l1_Hash :: hash
  l1_Number :: u64
  l1_ParentHash :: hash
  l1_Time :: u64

definition L1BlockRef_ID :: "L1BlockRef \<Rightarrow> BlockID" where
  "L1BlockRef_ID r = \<lparr>id_Hash = l1_Hash r, id_Number = l1_Number r\<rparr>"

definition L1BlockRef_ParentID :: "L1BlockRef \<Rightarrow> BlockID" where
  "L1BlockRef_ParentID r =
     (let n = id_Number (L1BlockRef_ID r);
          n' = (if n > 0 then n - 1 else n)
      in \<lparr>id_Hash = l1_ParentHash r, id_Number = n'\<rparr>)"

definition L2BlockRef_ID :: "L2BlockRef \<Rightarrow> BlockID" where
  "L2BlockRef_ID r = \<lparr>id_Hash = l2_Hash r, id_Number = l2_Number r\<rparr>"

definition L2BlockRef_ParentID :: "L2BlockRef \<Rightarrow> BlockID" where
  "L2BlockRef_ParentID r =
     (let n = id_Number (L2BlockRef_ID r);
          n' = (if n > 0 then n - 1 else n)
      in \<lparr>id_Hash = l2_ParentHash r, id_Number = n'\<rparr>)"

text \<open>The zero values \<open>eth.BlockID{}\<close>, \<open>eth.L2BlockRef{}\<close>, which the code uses as "none".\<close>

definition BlockID_zero :: BlockID where
  "BlockID_zero = \<lparr>id_Hash = 0, id_Number = 0\<rparr>"

definition L2BlockRef_zero :: L2BlockRef where
  "L2BlockRef_zero = \<lparr>l2_Hash = 0, l2_Number = 0, l2_ParentHash = 0, l2_Time = 0,
     l2_L1Origin = BlockID_zero, l2_SequenceNumber = 0\<rparr>"

definition L1BlockRef_zero :: L1BlockRef where
  "L1BlockRef_zero = \<lparr>l1_Hash = 0, l1_Number = 0, l1_ParentHash = 0, l1_Time = 0\<rparr>"

lemma L1BlockRef_ID_simps [simp]:
  "id_Hash (L1BlockRef_ID r) = l1_Hash r" "id_Number (L1BlockRef_ID r) = l1_Number r"
  by (simp_all add: L1BlockRef_ID_def)

lemma L2BlockRef_ID_simps [simp]:
  "id_Hash (L2BlockRef_ID r) = l2_Hash r" "id_Number (L2BlockRef_ID r) = l2_Number r"
  by (simp_all add: L2BlockRef_ID_def)

lemma L2BlockRef_ParentID_number:
  "unat (id_Number (L2BlockRef_ParentID r)) = unat (l2_Number r) - 1"
proof (cases "l2_Number r = 0")
  case True
  then show ?thesis by (simp add: L2BlockRef_ParentID_def)
next
  case False
  then have "unat (l2_Number r - 1) = unat (l2_Number r) - 1"
    by (simp add: unat_minus_one)
  with False show ?thesis
    by (simp add: L2BlockRef_ParentID_def word_gt_0)
qed

section \<open>Rollup configuration (op-node/rollup/types.go)\<close>

record Genesis =
  gen_L1 :: BlockID
  gen_L2 :: BlockID
  gen_L2Time :: u64

record Config =
  cfg_Genesis :: Genesis
  cfg_BlockTime :: u64
  cfg_MaxSequencerDrift :: u64
  cfg_SeqWindowSize :: u64
  cfg_L1ChainID :: int
  cfg_L2ChainID :: int
  cfg_P2PSequencerAddress :: address
  cfg_FeeRecipientAddress :: address
  cfg_BatchInboxAddress :: address
  cfg_BatchSenderAddress :: address
  cfg_DepositContractAddress :: address

definition Config_Check :: "Config \<Rightarrow> unit res" where
  "Config_Check cfg =
     (if cfg_BlockTime cfg = 0 then Err (ErrMsg ''block time cannot be 0'')
      else if cfg_SeqWindowSize cfg < 2 then Err (ErrMsg ''sequencing window size must at least be 2'')
      else if id_Hash (gen_L1 (cfg_Genesis cfg)) = 0 then Err (ErrMsg ''genesis l1 hash cannot be empty'')
      else if id_Hash (gen_L2 (cfg_Genesis cfg)) = 0 then Err (ErrMsg ''genesis l2 hash cannot be empty'')
      else if id_Hash (gen_L2 (cfg_Genesis cfg)) = id_Hash (gen_L1 (cfg_Genesis cfg))
        then Err (ErrMsg ''achievement get! rollup inception: L1 and L2 genesis cannot be the same'')
      else if cfg_DepositContractAddress cfg = 0
        then Err (ErrMsg ''did not provide deposit contract address '')
      else Ok ())"

lemma Config_Check_Ok_iff:
  "Config_Check cfg = Ok () \<longleftrightarrow>
     cfg_BlockTime cfg > 0 \<and> cfg_SeqWindowSize cfg \<ge> 2 \<and>
     id_Hash (gen_L1 (cfg_Genesis cfg)) \<noteq> 0 \<and> id_Hash (gen_L2 (cfg_Genesis cfg)) \<noteq> 0 \<and>
     id_Hash (gen_L1 (cfg_Genesis cfg)) \<noteq> id_Hash (gen_L2 (cfg_Genesis cfg)) \<and>
     cfg_DepositContractAddress cfg \<noteq> 0"
  by (auto simp: Config_Check_def not_less word_gt_0)

text \<open>The reference of the L2 genesis block, as \<open>state.Start\<close> and \<open>sync.FindL2Heads\<close> build it.\<close>

definition genesis_L2BlockRef :: "Genesis \<Rightarrow> L2BlockRef" where
  "genesis_L2BlockRef g = \<lparr>l2_Hash = id_Hash (gen_L2 g), l2_Number = id_Number (gen_L2 g),
     l2_ParentHash = 0, l2_Time = gen_L2Time g, l2_L1Origin = gen_L1 g, l2_SequenceNumber = 0\<rparr>"

end
