(* ===== verification/Geth.thy ===== *)
theory Geth
  imports Types
begin

text \<open>
  The parts of go-ethereum and of the Go standard library that the code calls. What is not under
  \<open>src/\<close> is never defined here: hashing, transaction coding, signature recovery and RLP are fields
  of the records \<open>geth\<close> and \<open>rlp_lib\<close>, which every definition that needs them takes as an argument.
  The structs of go-ethereum that the code reads are records with the fields (or accessor results)
  it reads. What the code relies on is stated as named predicates (\<open>deposit_codec_ok\<close>,
  \<open>rlp_batch_ok\<close>) that appear as hypotheses where a property needs them.
\<close>

section \<open>Data of go-ethereum that the code reads\<close>

record Log =
  log_Address :: address
  log_Topics :: "hash list"
  log_Data :: bytes
  log_BlockNumber :: u64
  log_TxHash :: hash
  log_TxIndex :: u64
  log_BlockHash :: hash
  log_Index :: u64
  log_Removed :: bool

record Receipt =
  rcp_Status :: u64
  rcp_Logs :: "Log list"
  rcp_TxHash :: hash
  rcp_BlockHash :: hash
  rcp_BlockNumber :: int
  rcp_TransactionIndex :: u64

definition ReceiptStatusSuccessful :: u64 where
  "ReceiptStatusSuccessful = 1"

text \<open>\<open>types.DepositTx\<close>; the nil pointers \<open>Mint\<close> and \<open>To\<close> are \<open>None\<close>.\<close>

record DepositTx =
  dep_SourceHash :: hash
  dep_From :: address
  dep_To :: "address option"
  dep_Mint :: "int option"
  dep_Value :: int
  dep_Gas :: u64
  dep_Data :: bytes

definition DepositTxType :: byte where
  "DepositTxType = 0x7E"

text \<open>\<open>types.Transaction\<close> through the accessors the code calls.\<close>

record Transaction =
  tx_Type :: byte
  tx_To :: "address option"
  tx_Data :: bytes
  tx_Nonce :: u64
  tx_Gas :: u64
  tx_Hash :: hash

section \<open>Functions of go-ethereum, as parameters\<close>

record geth =
  Keccak256 :: "bytes \<Rightarrow> hash"
  DepositTx_Marshal :: "DepositTx \<Rightarrow> error + bytes"      \<comment> \<open>\<open>types.NewTx(dep).MarshalBinary()\<close>\<close>
  Tx_Marshal :: "Transaction \<Rightarrow> error + bytes"           \<comment> \<open>\<open>tx.MarshalBinary()\<close>\<close>
  Tx_Unmarshal :: "bytes \<Rightarrow> error + Transaction"         \<comment> \<open>\<open>tx.UnmarshalBinary(data)\<close>\<close>
  Signer_Sender :: "int \<Rightarrow> Transaction \<Rightarrow> error + address"
    \<comment> \<open>\<open>types.NewLondonSigner(chainID).Sender(tx)\<close>\<close>

text \<open>
  EIP-2718: the encoding of a typed transaction starts with its type byte, and decoding gives the
  transaction back, with the data the deposit carries.
\<close>

definition deposit_codec_ok :: "geth \<Rightarrow> bool" where
  "deposit_codec_ok G \<longleftrightarrow>
     (\<forall>d. \<exists>b. DepositTx_Marshal G d = Inr (DepositTxType # b) \<and>
        (\<exists>tx. Tx_Unmarshal G (DepositTxType # b) = Inr tx \<and>
              tx_Type tx = DepositTxType \<and> tx_Data tx = dep_Data d))"

section \<open>Standard library\<close>

text \<open>\<open>[]byte(s)\<close> for an ASCII string literal.\<close>

definition string_bytes :: "string \<Rightarrow> bytes" where
  "string_bytes s = map of_char s"

text \<open>\<open>big.Int.FillBytes(buf)\<close> with \<open>len(buf) = n\<close>: the absolute value, big-endian; it panics on a
  nil receiver and when the value does not fit.\<close>

definition FillBytes :: "nat \<Rightarrow> int option \<Rightarrow> bytes res" where
  "FillBytes n x =
     (case x of None \<Rightarrow> Panic ''nil pointer dereference''
      | Some v \<Rightarrow> if nat \<bar>v\<bar> < 256 ^ n then Ok (be_bytes n (nat \<bar>v\<bar>))
                   else Panic ''math/big: buffer too small to fit value'')"

lemma FillBytes_Ok_iff:
  "FillBytes n x = Ok bs \<longleftrightarrow>
     (\<exists>v. x = Some v \<and> nat \<bar>v\<bar> < 256 ^ n \<and> bs = be_bytes n (nat \<bar>v\<bar>))"
  by (auto simp: FillBytes_def split: option.splits if_splits)

definition of_sum :: "error + 'a \<Rightarrow> 'a res" where
  "of_sum s = (case s of Inl e \<Rightarrow> Err e | Inr x \<Rightarrow> Ok x)"

lemma of_sum_simps [simp]: "of_sum (Inl e) = Err e" "of_sum (Inr x) = Ok x"
  by (simp_all add: of_sum_def)

lemma of_sum_Ok_iff [simp]: "of_sum s = Ok x \<longleftrightarrow> s = Inr x"
  by (cases s) auto

text \<open>A concrete instance of the parameters, for the closed examples that show the hypotheses can
  hold: hashing is the length of the input, coding a deposit keeps its data.\<close>

definition demo_geth :: geth where
  "demo_geth = \<lparr>
     Keccak256 = (\<lambda>bs. of_nat (length bs + 1)),
     DepositTx_Marshal = (\<lambda>d. Inr (DepositTxType # dep_Data d)),
     Tx_Marshal = (\<lambda>tx. Inr (tx_Type tx # tx_Data tx)),
     Tx_Unmarshal = (\<lambda>bs. case bs of [] \<Rightarrow> Inl (ErrMsg ''empty'')
        | t # d \<Rightarrow> Inr \<lparr>tx_Type = t, tx_To = None, tx_Data = d, tx_Nonce = 0, tx_Gas = 0, tx_Hash = 0\<rparr>),
     Signer_Sender = (\<lambda>_ tx. if tx_Nonce tx = 0 then Inr 7 else Inl (ErrMsg ''bad signature''))\<rparr>"

lemma demo_geth_deposit_codec_ok: "deposit_codec_ok demo_geth"
  by (simp add: deposit_codec_ok_def demo_geth_def)

end
