(* ===== verification/Deposits.thy ===== *)
theory Deposits
  imports L1Info
begin

text \<open>
  Deposits (\<open>op-node/rollup/derive/payload_attributes.go\<close>): the source hashes that identify them,
  the decoding of a \<open>TransactionDeposited\<close> log into a deposit transaction, the L1-info deposit that
  opens every L2 block, and the collection of user deposits from the receipts of an L1 block.
\<close>

section \<open>Source hashes\<close>

definition DepositEventABI :: string where
  "DepositEventABI = ''TransactionDeposited(address,address,uint256,uint256,uint64,bool,bytes)''"

definition DepositEventABIHash :: "geth \<Rightarrow> hash" where
  "DepositEventABIHash G = Keccak256 G (string_bytes DepositEventABI)"

definition L1InfoPredeployAddr :: address where
  "L1InfoPredeployAddr = 0x4200000000000000000000000000000000000015"

definition L1InfoDepositerAddress :: address where
  "L1InfoDepositerAddress = 0xdeaddeaddeaddeaddeaddeaddeaddeaddead0001"

definition UserDepositSourceDomain :: u64 where
  "UserDepositSourceDomain = 0"

definition L1InfoDepositSourceDomain :: u64 where
  "L1InfoDepositSourceDomain = 1"

record UserDepositSource =
  uds_L1BlockHash :: hash
  uds_LogIndex :: u64

record L1InfoDepositSource =
  lds_L1BlockHash :: hash
  lds_SeqNumber :: u64

text \<open>The two 64-byte buffers \<open>input\<close> and \<open>domainInput\<close> of the \<open>SourceHash\<close> methods: 32 bytes of hash
  and a right-aligned number, a right-aligned domain and 32 bytes of hash.\<close>

definition id_input :: "hash \<Rightarrow> u64 \<Rightarrow> bytes" where
  "id_input h n = word_be 32 h @ replicate 24 0 @ word_be 8 n"

definition domain_input :: "u64 \<Rightarrow> hash \<Rightarrow> bytes" where
  "domain_input d h = (replicate 24 0 @ word_be 8 d) @ word_be 32 h"

definition UserDepositSource_SourceHash :: "geth \<Rightarrow> UserDepositSource \<Rightarrow> hash" where
  "UserDepositSource_SourceHash G dep =
     (let depositIDHash = Keccak256 G (id_input (uds_L1BlockHash dep) (uds_LogIndex dep))
      in Keccak256 G (domain_input UserDepositSourceDomain depositIDHash))"

definition L1InfoDepositSource_SourceHash :: "geth \<Rightarrow> L1InfoDepositSource \<Rightarrow> hash" where
  "L1InfoDepositSource_SourceHash G dep =
     (let depositIDHash = Keccak256 G (id_input (lds_L1BlockHash dep) (lds_SeqNumber dep))
      in Keccak256 G (domain_input L1InfoDepositSourceDomain depositIDHash))"

lemma id_input_inj: "id_input h n = id_input h' n' \<longleftrightarrow> h = h' \<and> n = n'"
  by (auto simp: id_input_def append_eq_append_conv word_be_inj)

lemma domain_input_inj: "domain_input d h = domain_input d' h' \<longleftrightarrow> d = d' \<and> h = h'"
  by (auto simp: domain_input_def append_eq_append_conv word_be_inj)

lemma length_id_input [simp]: "length (id_input h n) = 64"
  and length_domain_input [simp]: "length (domain_input d h) = 64"
  by (simp_all add: id_input_def domain_input_def)

section \<open>Deposit logs\<close>

text \<open>\<open>common.BytesToAddress(topic[12:])\<close>\<close>

definition topic_address :: "hash \<Rightarrow> address" where
  "topic_address t = of_be (drop 12 (word_be 32 t))"

definition UnmarshalLogEvent :: "geth \<Rightarrow> Log \<Rightarrow> error + DepositTx" where
  "UnmarshalLogEvent G ev =
     (let word = (\<lambda>offset. take 32 (drop offset (log_Data ev))) in
      if length (log_Topics ev) \<noteq> 3
        then Inl (ErrMsg ''expected 3 event topics (event identity, indexed from, indexed to)'')
      else if log_Topics ev ! 0 \<noteq> DepositEventABIHash G
        then Inl (ErrMsg ''invalid deposit event selector'')
      else if length (log_Data ev) < 6 * 32
        then Inl (ErrMsg ''deposit event data too small'')
      else
        let source = \<lparr>uds_L1BlockHash = log_BlockHash ev, uds_LogIndex = log_Index ev\<rparr>;
            from = topic_address (log_Topics ev ! 1);
            to = topic_address (log_Topics ev ! 2);
            mint = be_nat (word 0);
            value = be_nat (word 32);
            gas = be_nat (word 64) in
        if \<not> gas < 2 ^ 64 then Inl (ErrMsg ''bad gas value'')
        else
          let dataOffset = be_nat (word 128); dataLen = be_nat (word 160) in
          if dataOffset \<noteq> 160 then Inl (ErrMsg ''incorrect data offset'')
          else if \<not> dataLen < 2 ^ 64 then Inl (ErrMsg ''data too large'')
          else if dataLen > length (log_Data ev) - 192 then Inl (ErrMsg ''data length too long'')
          else Inr \<lparr>dep_SourceHash = UserDepositSource_SourceHash G source,
                    dep_From = from,
                    dep_To = (if log_Data ev ! (96 + 31) = 0 then Some to else None),
                    dep_Mint = (if mint = 0 then None else Some (int mint)),
                    dep_Value = int value,
                    dep_Gas = of_nat gas,
                    dep_Data = take dataLen (drop 192 (log_Data ev))\<rparr>)"

text \<open>\<open>UserDeposits\<close>: the logs of one receipt, then the receipts. The indices in the error
  messages are dropped.\<close>

fun UserDeposits_logs :: "geth \<Rightarrow> address \<Rightarrow> Log list \<Rightarrow> DepositTx list \<times> error list" where
  "UserDeposits_logs G addr [] = ([], [])"
| "UserDeposits_logs G addr (log # logs) =
     (let (out, errs) = UserDeposits_logs G addr logs in
      if log_Address log = addr \<and> log_Topics log \<noteq> [] \<and> log_Topics log ! 0 = DepositEventABIHash G
      then (case UnmarshalLogEvent G log of
              Inl e \<Rightarrow> (out, Wrap ''malformatted L1 deposit log in receipt'' e # errs)
            | Inr dep \<Rightarrow> (dep # out, errs))
      else (out, errs))"

fun UserDeposits :: "geth \<Rightarrow> Receipt list \<Rightarrow> address \<Rightarrow> DepositTx list \<times> error list" where
  "UserDeposits G [] addr = ([], [])"
| "UserDeposits G (rec # receipts) addr =
     (let (out, errs) = UserDeposits G receipts addr in
      if rcp_Status rec \<noteq> ReceiptStatusSuccessful then (out, errs)
      else let (out1, errs1) = UserDeposits_logs G addr (rcp_Logs rec) in (out1 @ out, errs1 @ errs))"

fun encodeDeposits :: "geth \<Rightarrow> DepositTx list \<Rightarrow> bytes list \<times> error list" where
  "encodeDeposits G [] = ([], [])"
| "encodeDeposits G (tx # txs) =
     (let (enc, errs) = encodeDeposits G txs in
      case DepositTx_Marshal G tx of
        Inl e \<Rightarrow> (enc, ErrMsg ''failed to encode user tx'' # errs)
      | Inr opaqueTx \<Rightarrow> (opaqueTx # enc, errs))"

definition DeriveDeposits :: "geth \<Rightarrow> Receipt list \<Rightarrow> address \<Rightarrow> bytes list \<times> error list" where
  "DeriveDeposits G receipts addr =
     (let (userDeposits, errs) = UserDeposits G receipts addr;
          (encodedTxs, errs') = encodeDeposits G userDeposits
      in (encodedTxs, errs @ errs'))"

section \<open>The L1-info deposit\<close>

definition L1InfoDeposit :: "geth \<Rightarrow> u64 \<Rightarrow> HeaderInfo \<Rightarrow> DepositTx res" where
  "L1InfoDeposit G seqNumber block =
     (let infoDat = \<lparr>li_Number = hi_number block, li_Time = hi_time block,
            li_BaseFee = hi_baseFee block, li_BlockHash = hi_hash block,
            li_SequenceNumber = seqNumber\<rparr> in
      bind_res (L1BlockInfo_MarshalBinary G infoDat) (\<lambda>data.
      Ok \<lparr>dep_SourceHash = L1InfoDepositSource_SourceHash G
            \<lparr>lds_L1BlockHash = hi_hash block, lds_SeqNumber = seqNumber\<rparr>,
          dep_From = L1InfoDepositerAddress,
          dep_To = Some L1InfoPredeployAddr,
          dep_Mint = None,
          dep_Value = 0,
          dep_Gas = 99999999,
          dep_Data = data\<rparr>))"

definition L1InfoDepositBytes :: "geth \<Rightarrow> u64 \<Rightarrow> HeaderInfo \<Rightarrow> bytes res" where
  "L1InfoDepositBytes G seqNumber l1Info =
     bind_res (map_err (\<lambda>e. ErrMsg ''failed to create L1 info tx'') (L1InfoDeposit G seqNumber l1Info)) (\<lambda>dep.
     map_err (\<lambda>e. ErrMsg ''failed to encode L1 info tx'') (of_sum (DepositTx_Marshal G dep)))"

section \<open>Lemmas\<close>

text \<open>A base fee that the L1-info calldata can carry: present and a 256-bit number.\<close>

definition basefee_ok :: "int option \<Rightarrow> bool" where
  "basefee_ok f \<longleftrightarrow> (\<exists>v. f = Some v \<and> 0 \<le> v \<and> v < 256 ^ 32)"

lemma basefee_ok_FillBytes:
  assumes "basefee_ok f"
  obtains bs where "FillBytes 32 f = Ok bs" "f = Some (int (be_nat bs))" "length bs = 32"
proof -
  from assms obtain v where v: "f = Some v" "0 \<le> v" "v < 256 ^ 32"
    by (auto simp: basefee_ok_def)
  have lt: "nat v < 256 ^ 32" using v(2,3) by (simp add: nat_less_iff)
  then have "nat v mod 256 ^ 32 = nat v" by (rule mod_less)
  then have "be_nat (be_bytes 32 (nat v)) = nat v" by (simp only: be_nat_be_bytes)
  with v lt show thesis
    by (intro that [of "be_bytes 32 (nat v)"]) (auto simp: FillBytes_def)
qed

lemma basefee_not_ok_Panic:
  assumes "f = None \<or> (\<exists>v. f = Some v \<and> 256 ^ 32 \<le> v)"
  shows "\<exists>m. FillBytes 32 f = Panic m"
proof -
  have "256 ^ 32 \<le> v \<Longrightarrow> \<not> nat \<bar>v\<bar> < 256 ^ 32" for v :: int
    by (simp add: nat_less_iff)
  with assms show ?thesis by (auto simp: FillBytes_def)
qed

lemma L1InfoDeposit_data:
  assumes "basefee_ok (hi_baseFee block)"
  obtains dep where "L1InfoDeposit G seq block = Ok dep"
    and "L1InfoDepositTxData (dep_Data dep) =
      Inr \<lparr>li_Number = hi_number block, li_Time = hi_time block, li_BaseFee = hi_baseFee block,
           li_BlockHash = hi_hash block, li_SequenceNumber = seq\<rparr>"
proof -
  obtain bs where bs: "FillBytes 32 (hi_baseFee block) = Ok bs"
    "hi_baseFee block = Some (int (be_nat bs))" "length bs = 32"
    using assms by (rule basefee_ok_FillBytes)
  let ?info = "\<lparr>li_Number = hi_number block, li_Time = hi_time block,
    li_BaseFee = hi_baseFee block, li_BlockHash = hi_hash block, li_SequenceNumber = seq\<rparr>"
  have m: "L1BlockInfo_MarshalBinary G ?info = Ok (l1info_layout (L1InfoFuncBytes4 G)
      (hi_number block) (hi_time block) bs (hi_hash block) seq)"
    by (subst L1BlockInfo_MarshalBinary_layout [of _ bs]) (simp_all add: bs(1))
  have "\<exists>dep. L1InfoDeposit G seq block = Ok dep \<and> dep_Data dep =
      l1info_layout (L1InfoFuncBytes4 G) (hi_number block) (hi_time block) bs (hi_hash block) seq"
    by (simp add: L1InfoDeposit_def m)
  then obtain dep where dep: "L1InfoDeposit G seq block = Ok dep" "dep_Data dep =
      l1info_layout (L1InfoFuncBytes4 G) (hi_number block) (hi_time block) bs (hi_hash block) seq"
    by blast
  show thesis
    by (rule that [OF dep(1)]) (simp add: dep(2) L1InfoDepositTxData_def
      L1BlockInfo_UnmarshalBinary_layout bs(3) bs(2) [symmetric])
qed

lemma L1InfoDepositBytes_Ok:
  assumes "deposit_codec_ok G" and "basefee_ok (hi_baseFee block)"
  obtains b tx where "L1InfoDepositBytes G seq block = Ok (DepositTxType # b)"
    and "Tx_Unmarshal G (DepositTxType # b) = Inr tx" and "tx_Type tx = DepositTxType"
    and "L1InfoDepositTxData (tx_Data tx) =
      Inr \<lparr>li_Number = hi_number block, li_Time = hi_time block, li_BaseFee = hi_baseFee block,
           li_BlockHash = hi_hash block, li_SequenceNumber = seq\<rparr>"
proof -
  obtain dep where dep: "L1InfoDeposit G seq block = Ok dep"
    and dat: "L1InfoDepositTxData (dep_Data dep) =
      Inr \<lparr>li_Number = hi_number block, li_Time = hi_time block, li_BaseFee = hi_baseFee block,
           li_BlockHash = hi_hash block, li_SequenceNumber = seq\<rparr>"
    using assms(2) by (rule L1InfoDeposit_data)
  from assms(1) obtain b tx where b: "DepositTx_Marshal G dep = Inr (DepositTxType # b)"
      "Tx_Unmarshal G (DepositTxType # b) = Inr tx" "tx_Type tx = DepositTxType"
      "tx_Data tx = dep_Data dep"
    unfolding deposit_codec_ok_def by meson
  show thesis
    by (rule that [OF _ b(2,3)]) (simp_all add: L1InfoDepositBytes_def dep b(1,4) dat)
qed

section \<open>Properties\<close>

text \<open>The ABI encoding of the event that the deposit contract emits: the indexed addresses as topics,
  five words, and the data as a length and bytes with padding behind them.\<close>

definition abi_word :: "nat \<Rightarrow> bytes" where
  "abi_word n = be_bytes 32 n"

definition deposit_event_data :: "nat \<Rightarrow> nat \<Rightarrow> u64 \<Rightarrow> bool \<Rightarrow> bytes \<Rightarrow> bytes \<Rightarrow> bytes" where
  "deposit_event_data mint value gas isCreation data pad =
     abi_word mint @ abi_word value @ abi_word (unat gas) @ abi_word (if isCreation then 1 else 0) @
     abi_word 160 @ abi_word (length data) @ data @ pad"

lemma be_nat_abi_word: "n < 2 ^ 256 \<Longrightarrow> be_nat (abi_word n) = n"
  by (simp add: abi_word_def be_nat_be_bytes)

lemma length_abi_word [simp]: "length (abi_word n) = 32"
  by (simp add: abi_word_def)

lemma le_bytes_append: "le_bytes (m + n) x = le_bytes m x @ le_bytes n (x div 256 ^ m)"
proof (induction m arbitrary: x)
  case (Suc m)
  have "x div 256 div 256 ^ m = x div (256 * 256 ^ m)" by (rule div_mult2_eq [symmetric])
  with Suc show ?case by simp
qed simp

lemma topic_address_ucast [simp]: "topic_address (ucast (a :: address)) = a"
proof -
  have "unat a < 2 ^ 160" using unsigned_less [of a] by simp
  then have "unat a < 2 ^ 256" by (rule less_trans) simp
  then have "unat (ucast a :: hash) = unat a" by (simp add: unsigned_ucast_eq take_bit_nat_eq_self)
  moreover have "be_bytes 32 (unat a) = be_bytes 12 (unat a div 256 ^ 20) @ be_bytes 20 (unat a)"
    using le_bytes_append [of 20 12 "unat a"] by (simp add: be_bytes_def)
  ultimately have "drop 12 (word_be 32 (ucast a :: hash)) = word_be 20 a"
    by (simp add: word_be_def)
  then show ?thesis by (simp add: topic_address_def)
qed

lemma last_byte_abi_word: "abi_word n ! 31 = of_nat (n mod 256)"
proof -
  have "le_bytes (Suc 31) n = of_nat (n mod 256) # le_bytes 31 (n div 256)" by (rule le_bytes.simps)
  then have "le_bytes 32 n = of_nat (n mod 256) # le_bytes 31 (n div 256)" by simp
  then show ?thesis by (simp add: abi_word_def be_bytes_def nth_append)
qed

text \<open>The words of an event at their offsets.\<close>

lemma word_at:
  assumes "length p = k" and "length m = 32"
  shows "take 32 (drop k (p @ m @ s)) = m"
  using assms by simp

text \<open>A deposit event round trip. A log with the contract's ABI encoding of a deposit (value and
  mint below \<open>2^256\<close>, less than \<open>2^64\<close> bytes of data, any padding) is decoded to exactly that deposit:
  sender and target from the topics, no target for a contract creation, no mint for a zero mint, and
  the source hash of the log's block and index.\<close>

theorem UnmarshalLogEvent_abi:
  assumes "log_Topics ev = [DepositEventABIHash G, ucast from, ucast to]"
    and "log_Data ev = deposit_event_data mint value gas isCreation data pad"
    and "mint < 2 ^ 256" and "value < 2 ^ 256" and "length data < 2 ^ 64"
  shows "UnmarshalLogEvent G ev = Inr
    \<lparr>dep_SourceHash = UserDepositSource_SourceHash G \<lparr>uds_L1BlockHash = log_BlockHash ev, uds_LogIndex = log_Index ev\<rparr>,
     dep_From = from, dep_To = (if isCreation then None else Some to),
     dep_Mint = (if mint = 0 then None else Some (int mint)), dep_Value = int value,
     dep_Gas = gas, dep_Data = data\<rparr>"
proof -
  let ?c = "abi_word (if isCreation then 1 else 0)" and ?l = "abi_word (length data)"
  define A B C D where "A = abi_word mint" and "B = abi_word value" and "C = abi_word (unat gas)" and "D = abi_word 160"
  have dat: "log_Data ev = A @ B @ C @ ?c @ D @ ?l @ data @ pad"
    by (simp add: assms(2) deposit_event_data_def A_def B_def C_def D_def)
  have len: "length A = 32" "length B = 32" "length C = 32" "length D = 32"
    by (simp_all add: A_def B_def C_def D_def)
  have g: "unat gas < 2 ^ 64" using unsigned_less [of gas] by simp
  then have g': "unat gas < 2 ^ 256" by (rule less_trans) simp
  have l': "length data < 2 ^ 256" using assms(5) by (rule less_trans) simp
  have words: "take 32 (log_Data ev) = A" "take 32 (drop 32 (log_Data ev)) = B"
      "take 32 (drop 64 (log_Data ev)) = C" "take 32 (drop 128 (log_Data ev)) = D"
      "take 32 (drop 160 (log_Data ev)) = ?l" "drop 192 (log_Data ev) = data @ pad"
      "log_Data ev ! 127 = ?c ! 31" "length (log_Data ev) = 192 + length data + length pad"
    by (simp_all add: dat len nth_append)
  have vals: "be_nat A = mint" "be_nat B = value" "be_nat C = unat gas" "be_nat D = 160" "be_nat ?l = length data"
    using assms(3,4) g' l' by (simp_all add: A_def B_def C_def D_def be_nat_abi_word)
  have "?c ! 31 = 0 \<longleftrightarrow> \<not> isCreation" by (simp add: last_byte_abi_word)
  then show ?thesis
    using g assms(1,5) by (simp add: UnmarshalLogEvent_def Let_def words vals)
qed

definition demo_deposit_log :: Log where
  "demo_deposit_log = \<lparr>log_Address = 9, log_Topics = [DepositEventABIHash demo_geth, ucast (5 :: address), ucast (6 :: address)],
     log_Data = deposit_event_data 0 3 21000 True [1, 2] [0, 0], log_BlockNumber = 7, log_TxHash = 0, log_TxIndex = 0,
     log_BlockHash = 100, log_Index = 4, log_Removed = False\<rparr>"

theorem UnmarshalLogEvent_abi_witness:
  "UnmarshalLogEvent demo_geth demo_deposit_log = Inr
    \<lparr>dep_SourceHash = UserDepositSource_SourceHash demo_geth \<lparr>uds_L1BlockHash = 100, uds_LogIndex = 4\<rparr>,
     dep_From = 5, dep_To = None, dep_Mint = None, dep_Value = 3, dep_Gas = 21000, dep_Data = [1, 2]\<rparr>"
proof -
  have fields: "log_Topics demo_deposit_log = [DepositEventABIHash demo_geth, ucast (5 :: address), ucast (6 :: address)]"
    "log_Data demo_deposit_log = deposit_event_data 0 3 21000 True [1, 2] [0, 0]"
    "log_BlockHash demo_deposit_log = 100" "log_Index demo_deposit_log = 4"
    by (simp_all only: demo_deposit_log_def Log.select_convs)
  show ?thesis using UnmarshalLogEvent_abi [OF fields(1,2)] fields(3,4) by simp
qed

text \<open>Two different inputs with the same hash.\<close>

definition collide :: "geth \<Rightarrow> bytes \<Rightarrow> bytes \<Rightarrow> bool" where
  "collide G x y \<longleftrightarrow> x \<noteq> y \<and> Keccak256 G x = Keccak256 G y"

lemma Keccak256_eq: "Keccak256 G x = Keccak256 G y \<Longrightarrow> x = y \<or> collide G x y"
  by (auto simp: collide_def)

text \<open>The two inputs that a source hash is computed from.\<close>

definition user_inputs :: "geth \<Rightarrow> UserDepositSource \<Rightarrow> bytes \<times> bytes" where
  "user_inputs G d = (let i = id_input (uds_L1BlockHash d) (uds_LogIndex d) in
     (i, domain_input UserDepositSourceDomain (Keccak256 G i)))"

definition info_inputs :: "geth \<Rightarrow> L1InfoDepositSource \<Rightarrow> bytes \<times> bytes" where
  "info_inputs G d = (let i = id_input (lds_L1BlockHash d) (lds_SeqNumber d) in
     (i, domain_input L1InfoDepositSourceDomain (Keccak256 G i)))"

text \<open>Source hashes identify deposits, by reduction to a hash collision. Equal source hashes of
  two user deposits mean the same log, or the inputs computed for them collide under Keccak; the same
  for two L1-info deposits; and a user deposit never shares its source hash with an L1-info deposit
  unless their (always different) domain inputs collide.\<close>

theorem source_hashes_separate:
  "(UserDepositSource_SourceHash G u = UserDepositSource_SourceHash G u' \<longrightarrow>
      u = u' \<or> collide G (fst (user_inputs G u)) (fst (user_inputs G u')) \<or>
      collide G (snd (user_inputs G u)) (snd (user_inputs G u'))) \<and>
   (L1InfoDepositSource_SourceHash G i = L1InfoDepositSource_SourceHash G i' \<longrightarrow>
      i = i' \<or> collide G (fst (info_inputs G i)) (fst (info_inputs G i')) \<or>
      collide G (snd (info_inputs G i)) (snd (info_inputs G i'))) \<and>
   (UserDepositSource_SourceHash G u = L1InfoDepositSource_SourceHash G i \<longrightarrow>
      collide G (snd (user_inputs G u)) (snd (info_inputs G i)))"
proof (intro conjI impI)
  assume "UserDepositSource_SourceHash G u = UserDepositSource_SourceHash G u'"
  then show "u = u' \<or> collide G (fst (user_inputs G u)) (fst (user_inputs G u')) \<or>
      collide G (snd (user_inputs G u)) (snd (user_inputs G u'))"
    by (auto simp: UserDepositSource_SourceHash_def user_inputs_def Let_def domain_input_inj id_input_inj
        dest!: Keccak256_eq)
next
  assume "L1InfoDepositSource_SourceHash G i = L1InfoDepositSource_SourceHash G i'"
  then show "i = i' \<or> collide G (fst (info_inputs G i)) (fst (info_inputs G i')) \<or>
      collide G (snd (info_inputs G i)) (snd (info_inputs G i'))"
    by (auto simp: L1InfoDepositSource_SourceHash_def info_inputs_def Let_def domain_input_inj id_input_inj
        dest!: Keccak256_eq)
next
  assume "UserDepositSource_SourceHash G u = L1InfoDepositSource_SourceHash G i"
  then show "collide G (snd (user_inputs G u)) (snd (info_inputs G i))"
    by (auto simp: UserDepositSource_SourceHash_def L1InfoDepositSource_SourceHash_def user_inputs_def info_inputs_def
        Let_def domain_input_inj UserDepositSourceDomain_def L1InfoDepositSourceDomain_def dest!: Keccak256_eq)
qed

theorem source_hashes_separate_witness:
  "UserDepositSource_SourceHash demo_geth \<lparr>uds_L1BlockHash = 1, uds_LogIndex = 2\<rparr> =
     L1InfoDepositSource_SourceHash demo_geth \<lparr>lds_L1BlockHash = 1, lds_SeqNumber = 2\<rparr> \<and>
   collide demo_geth (snd (user_inputs demo_geth \<lparr>uds_L1BlockHash = 1, uds_LogIndex = 2\<rparr>))
     (snd (info_inputs demo_geth \<lparr>lds_L1BlockHash = 1, lds_SeqNumber = 2\<rparr>))"
proof -
  have "UserDepositSource_SourceHash demo_geth \<lparr>uds_L1BlockHash = 1, uds_LogIndex = 2\<rparr> =
     L1InfoDepositSource_SourceHash demo_geth \<lparr>lds_L1BlockHash = 1, lds_SeqNumber = 2\<rparr>"
    by (simp add: UserDepositSource_SourceHash_def L1InfoDepositSource_SourceHash_def demo_geth_def Let_def)
  with source_hashes_separate show ?thesis by blast
qed

text \<open>The deposit logs of the successful receipts, in block order.\<close>

definition is_deposit_log :: "geth \<Rightarrow> address \<Rightarrow> Log \<Rightarrow> bool" where
  "is_deposit_log G addr l \<longleftrightarrow> log_Address l = addr \<and> (\<exists>ts. log_Topics l = DepositEventABIHash G # ts)"

definition deposit_logs :: "geth \<Rightarrow> address \<Rightarrow> Receipt list \<Rightarrow> Log list" where
  "deposit_logs G addr rs =
     filter (is_deposit_log G addr) (concat (map rcp_Logs (filter (\<lambda>r. rcp_Status r = ReceiptStatusSuccessful) rs)))"

definition rights :: "('e + 'a) list \<Rightarrow> 'a list" where
  "rights xs = map projr (filter (\<lambda>x. \<not> isl x) xs)"

lemma rights_simps [simp]:
  "rights [] = []" "rights (Inl e # xs) = rights xs" "rights (Inr x # xs) = x # rights xs"
  "rights (xs @ ys) = rights xs @ rights ys"
  by (simp_all add: rights_def)

lemma UserDeposits_logs_eq:
  "fst (UserDeposits_logs G addr logs) = rights (map (UnmarshalLogEvent G) (filter (is_deposit_log G addr) logs)) \<and>
   length (snd (UserDeposits_logs G addr logs)) =
     length (filter (\<lambda>l. isl (UnmarshalLogEvent G l)) (filter (is_deposit_log G addr) logs))"
proof (induction logs)
  case (Cons l logs)
  have "log_Address l = addr \<and> log_Topics l \<noteq> [] \<and> log_Topics l ! 0 = DepositEventABIHash G \<longleftrightarrow> is_deposit_log G addr l"
    by (cases "log_Topics l") (auto simp: is_deposit_log_def)
  with Cons show ?case by (auto split: prod.splits sum.splits)
qed simp

text \<open>C16: No deposit is lost, invented or reordered. \<open>UserDeposits\<close> returns the decodings of the deposit
  contract's events in the successful receipts, in block order, skipping those that do not decode,
  and reports one error for each of these. An event of another contract, of a failed transaction or
  with another selector has no influence.\<close>

theorem UserDeposits_complete:
  "fst (UserDeposits G rs addr) = rights (map (UnmarshalLogEvent G) (deposit_logs G addr rs)) \<and>
   length (snd (UserDeposits G rs addr)) = length (filter (\<lambda>l. isl (UnmarshalLogEvent G l)) (deposit_logs G addr rs))"
proof (induction rs)
  case (Cons r rs)
  have "fst (UserDeposits_logs G addr (rcp_Logs r)) =
      rights (map (UnmarshalLogEvent G) (filter (is_deposit_log G addr) (rcp_Logs r)))"
    "length (snd (UserDeposits_logs G addr (rcp_Logs r))) =
      length (filter (\<lambda>l. isl (UnmarshalLogEvent G l)) (filter (is_deposit_log G addr) (rcp_Logs r)))"
    using UserDeposits_logs_eq by blast+
  with Cons show ?case by (auto simp: deposit_logs_def split: prod.splits)
qed (simp add: deposit_logs_def)

end
