(* ===== verification/Batches.thy ===== *)
theory Batches
  imports Geth
begin

text \<open>
  Sequencer batches: the typed encoding of batches and bundles
  (\<open>op-node/rollup/derive/batch.go\<close>), and the derivation of the batches of an epoch from L1
  transactions: collecting, filtering and filling of gaps
  (\<open>op-node/rollup/derive/payload_attributes.go\<close>). RLP is go-ethereum's and a parameter; the
  \<open>EncodeRLP\<close>/\<open>DecodeRLP\<close> hooks of \<open>BatchData\<close> make a bundle an RLP list of byte strings.
\<close>

section \<open>Batch format (batch.go)\<close>

record BatchV1 =
  b_Epoch :: u64
  b_Timestamp :: u64
  b_Transactions :: "bytes list"

type_synonym BatchData = BatchV1   \<comment> \<open>the struct \<open>BatchData\<close> only embeds \<open>BatchV1\<close>\<close>

record rlp_lib =
  rlp_Encode_BatchV1 :: "BatchV1 \<Rightarrow> error + bytes"    \<comment> \<open>\<open>rlp.Encode(buf, &b.BatchV1)\<close>\<close>
  rlp_DecodeBytes_BatchV1 :: "bytes \<Rightarrow> error + BatchV1"  \<comment> \<open>\<open>rlp.DecodeBytes(data, &b.BatchV1)\<close>\<close>
  rlp_Encode_list :: "bytes list \<Rightarrow> error + bytes"    \<comment> \<open>a list of byte strings\<close>
  rlp_Decode_list :: "bytes \<Rightarrow> error + bytes list"    \<comment> \<open>reads one list of byte strings\<close>

text \<open>What the code relies on: encoding these values succeeds, and decoding inverts it.\<close>

definition rlp_batch_ok :: "rlp_lib \<Rightarrow> bool" where
  "rlp_batch_ok R \<longleftrightarrow>
     (\<forall>b. \<exists>bs. rlp_Encode_BatchV1 R b = Inr bs \<and> rlp_DecodeBytes_BatchV1 R bs = Inr b) \<and>
     (\<forall>xs. \<exists>bs. rlp_Encode_list R xs = Inr bs \<and> rlp_Decode_list R bs = Inr xs)"

definition BatchV1Type :: byte where "BatchV1Type = 0"
definition BatchBundleV1Type :: byte where "BatchBundleV1Type = 0"
definition BatchBundleV2Type :: byte where "BatchBundleV2Type = 1"

definition encodeTyped :: "rlp_lib \<Rightarrow> BatchData \<Rightarrow> error + bytes" where
  "encodeTyped R b =
     (case rlp_Encode_BatchV1 R b of Inl e \<Rightarrow> Inl e | Inr bs \<Rightarrow> Inr (BatchV1Type # bs))"

definition decodeTyped :: "rlp_lib \<Rightarrow> bytes \<Rightarrow> error + BatchData" where
  "decodeTyped R data =
     (case data of
        [] \<Rightarrow> Inl (ErrMsg ''batch too short'')
      | t # rest \<Rightarrow> if t = BatchV1Type then rlp_DecodeBytes_BatchV1 R rest
                     else Inl (ErrMsg ''unrecognized batch type''))"

definition BatchData_MarshalBinary :: "rlp_lib \<Rightarrow> BatchData \<Rightarrow> error + bytes" where
  "BatchData_MarshalBinary R b = encodeTyped R b"

definition BatchData_UnmarshalBinary :: "rlp_lib \<Rightarrow> bytes \<Rightarrow> error + BatchData" where
  "BatchData_UnmarshalBinary R data = decodeTyped R data"

text \<open>Running a hook over the elements of a list stops at the first error.\<close>

fun map_sum_list :: "('a \<Rightarrow> error + 'b) \<Rightarrow> 'a list \<Rightarrow> error + 'b list" where
  "map_sum_list f [] = Inr []"
| "map_sum_list f (x # xs) =
     (case f x of Inl e \<Rightarrow> Inl e
      | Inr y \<Rightarrow> (case map_sum_list f xs of Inl e \<Rightarrow> Inl e | Inr ys \<Rightarrow> Inr (y # ys)))"

definition EncodeBatches :: "rlp_lib \<Rightarrow> BatchData list \<Rightarrow> error + bytes" where
  "EncodeBatches R batches =
     (case map_sum_list (encodeTyped R) batches of
        Inl e \<Rightarrow> Inl (ErrMsg ''failed to encode RLP-list payload of v1 bundle'')
      | Inr enc \<Rightarrow> (case rlp_Encode_list R enc of
            Inl e \<Rightarrow> Inl (ErrMsg ''failed to encode RLP-list payload of v1 bundle'')
          | Inr payload \<Rightarrow> Inr (BatchBundleV1Type # payload)))"

definition DecodeBatches :: "rlp_lib \<Rightarrow> bytes \<Rightarrow> error + BatchData list" where
  "DecodeBatches R r =
     (case r of
        [] \<Rightarrow> Inl (ErrMsg ''failed to read batch bundle type byte'')
      | typeData # rest \<Rightarrow>
          if typeData = BatchBundleV1Type then
            (case rlp_Decode_list R rest of
               Inl e \<Rightarrow> Inl (ErrMsg ''failed to decode v1 batches list'')
             | Inr elems \<Rightarrow> (case map_sum_list (decodeTyped R) elems of
                   Inl e \<Rightarrow> Inl (ErrMsg ''failed to decode v1 batches list'')
                 | Inr out \<Rightarrow> Inr out))
          else if typeData = BatchBundleV2Type then Inl (ErrMsg ''bundle v2 not supported yet'')
          else Inl (ErrMsg ''unrecognized batch bundle type''))"

section \<open>Batches of an epoch (payload_attributes.go)\<close>

fun BatchesFromTxs :: "geth \<Rightarrow> rlp_lib \<Rightarrow> Config \<Rightarrow> Transaction list \<Rightarrow> BatchData list" where
  "BatchesFromTxs G R config [] = []"
| "BatchesFromTxs G R config (tx # txs) =
     (let rest = BatchesFromTxs G R config txs in
      if tx_To tx = Some (cfg_BatchInboxAddress config) then
        (case Signer_Sender G (cfg_L1ChainID config) tx of
           Inl e \<Rightarrow> rest
         | Inr seqDataSubmitter \<Rightarrow>
             if seqDataSubmitter \<noteq> cfg_BatchSenderAddress config then rest
             else (case DecodeBatches R (tx_Data tx) of
                     Inl e \<Rightarrow> rest
                   | Inr batches \<Rightarrow> batches @ rest))
      else rest)"

definition BatchesFromEVMTransactions ::
  "geth \<Rightarrow> rlp_lib \<Rightarrow> Config \<Rightarrow> Transaction list list \<Rightarrow> BatchData list" where
  "BatchesFromEVMTransactions G R config txLists =
     concat (map (BatchesFromTxs G R config) txLists)"

text \<open>The loop over \<open>batch.Transactions\<close> in \<open>ValidBatch\<close>.\<close>

definition valid_batch_tx :: "bytes \<Rightarrow> bool" where
  "valid_batch_tx txBytes \<longleftrightarrow> (case txBytes of [] \<Rightarrow> False | t # _ \<Rightarrow> t \<noteq> DepositTxType)"

text \<open>\<open>%\<close> by a zero block time panics in Go, hence the outcome type.\<close>

definition ValidBatch :: "BatchData \<Rightarrow> Config \<Rightarrow> u64 \<Rightarrow> u64 \<Rightarrow> u64 \<Rightarrow> bool res" where
  "ValidBatch batch config epoch minL2Time maxL2Time =
     (if b_Epoch batch \<noteq> epoch then Ok False
      else if cfg_BlockTime config = 0 then Panic ''integer divide by zero''
      else if (b_Timestamp batch - gen_L2Time (cfg_Genesis config)) mod cfg_BlockTime config \<noteq> 0
        then Ok False
      else if b_Timestamp batch < minL2Time then Ok False
      else if b_Timestamp batch \<ge> maxL2Time then Ok False
      else Ok (list_all valid_batch_tx (b_Transactions batch)))"

fun FilterBatches_loop ::
  "Config \<Rightarrow> u64 \<Rightarrow> u64 \<Rightarrow> u64 \<Rightarrow> u64 set \<Rightarrow> BatchData list \<Rightarrow> BatchData list res" where
  "FilterBatches_loop config epoch mn mx uniqueTime [] = Ok []"
| "FilterBatches_loop config epoch mn mx uniqueTime (batch # batches) =
     bind_res (ValidBatch batch config epoch mn mx) (\<lambda>valid.
       if \<not> valid then FilterBatches_loop config epoch mn mx uniqueTime batches
       else if b_Timestamp batch \<in> uniqueTime
         then FilterBatches_loop config epoch mn mx uniqueTime batches
       else bind_res
         (FilterBatches_loop config epoch mn mx (insert (b_Timestamp batch) uniqueTime) batches)
         (\<lambda>out. Ok (batch # out)))"

definition FilterBatches ::
  "Config \<Rightarrow> u64 \<Rightarrow> u64 \<Rightarrow> u64 \<Rightarrow> BatchData list \<Rightarrow> BatchData list res" where
  "FilterBatches config epoch minL2Time maxL2Time batches =
     FilterBatches_loop config epoch minL2Time maxL2Time {} batches"

text \<open>\<open>FillMissingBatches\<close>: the first part computes the last timestamp to fill, the loop over the
  batches builds the map \<open>m\<close> and raises it, the second loop walks the timestamps. The second loop
  has no bound of its own (the addition wraps), so not returning is \<open>None\<close>.\<close>

definition newHeadStart :: "u64 \<Rightarrow> u64 \<Rightarrow> u64 \<Rightarrow> u64" where
  "newHeadStart blockTime minL2Time nextL1Time =
     (if nextL1Time > minL2Time + blockTime then nextL1Time - blockTime else minL2Time)"

fun collectBatches ::
  "(u64 \<rightharpoonup> BatchData) \<Rightarrow> u64 \<Rightarrow> BatchData list \<Rightarrow> (u64 \<rightharpoonup> BatchData) \<times> u64" where
  "collectBatches m newHead [] = (m, newHead)"
| "collectBatches m newHead (b # bs) =
     collectBatches (m(b_Timestamp b \<mapsto> b))
       (if b_Timestamp b > newHead then b_Timestamp b else newHead) bs"

definition batch_at :: "(u64 \<rightharpoonup> BatchData) \<Rightarrow> u64 \<Rightarrow> u64 \<Rightarrow> BatchData" where
  "batch_at m epoch t =
     (case m t of Some b \<Rightarrow> b
      | None \<Rightarrow> \<lparr>b_Epoch = epoch, b_Timestamp = t, b_Transactions = []\<rparr>)"

partial_function (option) fill_loop ::
  "(u64 \<rightharpoonup> BatchData) \<Rightarrow> u64 \<Rightarrow> u64 \<Rightarrow> u64 \<Rightarrow> u64 \<Rightarrow> BatchData list \<Rightarrow> BatchData list option" where
  "fill_loop m epoch blockTime newHead t out =
     (if t \<le> newHead
      then fill_loop m epoch blockTime newHead (t + blockTime) (out @ [batch_at m epoch t])
      else Some out)"

definition FillMissingBatches ::
  "BatchData list \<Rightarrow> u64 \<Rightarrow> u64 \<Rightarrow> u64 \<Rightarrow> u64 \<Rightarrow> BatchData list option" where
  "FillMissingBatches batches epoch blockTime minL2Time nextL1Time =
     (let (m, newHead) = collectBatches Map.empty (newHeadStart blockTime minL2Time nextL1Time) batches
      in fill_loop m epoch blockTime newHead minL2Time [])"

section \<open>Encoding lemmas\<close>

lemma decodeTyped_encodeTyped:
  assumes "rlp_batch_ok R"
  shows "\<exists>bs. encodeTyped R b = Inr bs \<and> decodeTyped R bs = Inr b"
proof -
  from assms obtain bs where "rlp_Encode_BatchV1 R b = Inr bs" "rlp_DecodeBytes_BatchV1 R bs = Inr b"
    by (auto simp: rlp_batch_ok_def)
  then show ?thesis by (auto simp: encodeTyped_def decodeTyped_def)
qed

lemma map_sum_list_inverse:
  assumes "\<And>x. \<exists>y. f x = Inr y \<and> g y = Inr x"
  shows "\<exists>ys. map_sum_list f xs = Inr ys \<and> map_sum_list g ys = Inr xs"
proof (induction xs)
  case (Cons x xs)
  from assms obtain y where "f x = Inr y" "g y = Inr x" by blast
  with Cons show ?case by force
qed simp

section \<open>Filtering lemmas\<close>

text \<open>The reference definition: the valid batches, and of those with equal timestamps the first.\<close>

definition is_valid_batch :: "Config \<Rightarrow> u64 \<Rightarrow> u64 \<Rightarrow> u64 \<Rightarrow> BatchData \<Rightarrow> bool" where
  "is_valid_batch config epoch mn mx b \<longleftrightarrow>
     b_Epoch b = epoch \<and>
     (b_Timestamp b - gen_L2Time (cfg_Genesis config)) mod cfg_BlockTime config = 0 \<and>
     mn \<le> b_Timestamp b \<and> b_Timestamp b < mx \<and>
     list_all valid_batch_tx (b_Transactions b)"

fun first_by :: "('a \<Rightarrow> 'k) \<Rightarrow> 'a list \<Rightarrow> 'a list" where
  "first_by f [] = []"
| "first_by f (x # xs) = x # filter (\<lambda>y. f y \<noteq> f x) (first_by f xs)"

lemma ValidBatch_eq:
  "cfg_BlockTime config \<noteq> 0 \<Longrightarrow>
   ValidBatch b config epoch mn mx = Ok (is_valid_batch config epoch mn mx b)"
  by (auto simp: ValidBatch_def is_valid_batch_def not_less not_le)

lemma FilterBatches_loop_eq:
  assumes "cfg_BlockTime config \<noteq> 0"
  shows "FilterBatches_loop config epoch mn mx U batches =
    Ok (filter (\<lambda>b. b_Timestamp b \<notin> U)
         (first_by b_Timestamp (filter (is_valid_batch config epoch mn mx) batches)))"
proof (induction batches arbitrary: U)
  case (Cons b bs)
  let ?F = "first_by b_Timestamp (filter (is_valid_batch config epoch mn mx) bs)"
  have "filter (\<lambda>x. b_Timestamp x \<notin> insert (b_Timestamp b) U) ?F =
      filter (\<lambda>x. b_Timestamp x \<notin> U) (filter (\<lambda>x. b_Timestamp x \<noteq> b_Timestamp b) ?F)"
    by (simp add: conj_commute)
  moreover have "b_Timestamp b \<in> U \<Longrightarrow>
      filter (\<lambda>x. b_Timestamp x \<notin> U) (filter (\<lambda>x. b_Timestamp x \<noteq> b_Timestamp b) ?F) =
      filter (\<lambda>x. b_Timestamp x \<notin> U) ?F"
    by (auto intro: filter_cong)
  ultimately show ?case
    by (simp add: ValidBatch_eq [OF assms] Cons.IH)
qed simp

lemma FilterBatches_eq:
  "cfg_BlockTime config \<noteq> 0 \<Longrightarrow> FilterBatches config epoch mn mx batches =
     Ok (first_by b_Timestamp (filter (is_valid_batch config epoch mn mx) batches))"
  by (simp add: FilterBatches_def FilterBatches_loop_eq)

lemma set_first_by: "set (first_by f xs) \<subseteq> set xs"
  by (induction xs) auto

lemma distinct_first_by: "distinct (map f (first_by f xs))"
  by (induction xs) (auto simp: distinct_map inj_on_def)

lemma first_by_covers: "f ` set (first_by f xs) = f ` set xs"
proof (induction xs)
  case (Cons x xs)
  have "f ` set (first_by f (x # xs)) = insert (f x) (f ` set (first_by f xs))"
    by auto
  with Cons show ?case by simp
qed simp

lemma first_by_first:
  assumes "x \<in> set (first_by f xs)"
  shows "\<exists>p s. xs = p @ x # s \<and> f x \<notin> f ` set p"
  using assms
proof (induction xs)
  case (Cons y ys)
  show ?case
  proof (cases "x = y")
    case False
    with Cons.prems have "x \<in> set (first_by f ys)" "f x \<noteq> f y" by auto
    with Cons.IH obtain p s where "ys = p @ x # s" "f x \<notin> f ` set p" by blast
    with \<open>f x \<noteq> f y\<close> show ?thesis by (intro exI [of _ "y # p"] exI [of _ s]) auto
  qed (force intro: exI [of _ "[]"])
qed simp

section \<open>Filling lemmas\<close>

text \<open>The timestamps from \<open>t\<close> up to \<open>nh\<close> in steps of the block time.\<close>

definition n_times :: "u64 \<Rightarrow> u64 \<Rightarrow> u64 \<Rightarrow> nat" where
  "n_times bt nh t = (if t \<le> nh then (unat nh - unat t) div unat bt + 1 else 0)"

definition l2_times :: "u64 \<Rightarrow> u64 \<Rightarrow> u64 \<Rightarrow> u64 list" where
  "l2_times bt nh t = map (\<lambda>k. t + of_nat k * bt) [0..<n_times bt nh t]"

lemma unat_add_no_wrap: "unat (a::u64) + unat b < 2 ^ 64 \<Longrightarrow> unat (a + b) = unat a + unat b"
  by (simp add: unat_word_ariths)

lemma n_times_step:
  assumes "0 < bt" and "t \<le> nh" and "unat nh + unat bt < 2 ^ 64"
  shows "n_times bt nh t = Suc (n_times bt nh (t + bt))"
proof -
  have le: "unat t \<le> unat nh" using assms(2) by (simp add: word_le_nat_alt)
  then have add: "unat (t + bt) = unat t + unat bt" using assms(3) by (simp add: unat_add_no_wrap)
  have pos: "0 < unat bt" using assms(1) by (simp add: word_less_nat_alt)
  show ?thesis
  proof (cases "unat t + unat bt \<le> unat nh")
    case True
    define r where "r = unat nh - (unat t + unat bt)"
    have "unat nh - unat t = unat bt + r" using True by (simp add: r_def)
    then have "(unat nh - unat t) div unat bt = r div unat bt + 1" using pos by (simp add: div_add_self1)
    with True le add r_def show ?thesis by (simp add: n_times_def word_le_nat_alt)
  next
    case False
    then have "(unat nh - unat t) div unat bt = 0" using pos by simp
    with False le add show ?thesis by (simp add: n_times_def word_le_nat_alt)
  qed
qed

lemma l2_times_step:
  assumes "0 < bt" and "t \<le> nh" and "unat nh + unat bt < 2 ^ 64"
  shows "l2_times bt nh t = t # l2_times bt nh (t + bt)"
proof -
  have "l2_times bt nh t = map (\<lambda>k. t + of_nat k * bt) [0..<Suc (n_times bt nh (t + bt))]"
    by (simp only: l2_times_def n_times_step [OF assms])
  also have "\<dots> = t # map (\<lambda>k. t + of_nat (Suc k) * bt) [0..<n_times bt nh (t + bt)]"
    by (simp add: map_upt_Suc del: upt_Suc)
  finally show ?thesis by (simp add: l2_times_def algebra_simps)
qed

lemma fill_loop_eq:
  assumes "0 < bt" and "unat nh + unat bt < 2 ^ 64"
  shows "fill_loop m epoch bt nh t out = Some (out @ map (batch_at m epoch) (l2_times bt nh t))"
proof (induction "n_times bt nh t" arbitrary: t out)
  case 0
  then have "\<not> t \<le> nh" by (simp add: n_times_def split: if_splits)
  with 0 show ?case by (simp add: fill_loop.simps [of m epoch bt nh t] l2_times_def)
next
  case (Suc n)
  then have le: "t \<le> nh" by (simp add: n_times_def split: if_splits)
  then have "n = n_times bt nh (t + bt)" using Suc.hyps(2) n_times_step [OF assms(1) le assms(2)] by simp
  from Suc.hyps(1) [OF this, of "out @ [batch_at m epoch t]"] le show ?case
    by (simp add: fill_loop.simps [of m epoch bt nh t] l2_times_step [OF assms(1) le assms(2)])
qed

lemma collectBatches_other:
  "t \<notin> b_Timestamp ` set bs \<Longrightarrow> fst (collectBatches m nh bs) t = m t"
  by (induction bs arbitrary: m nh) auto

lemma collectBatches_lookup:
  "b \<in> set bs \<Longrightarrow> distinct (map b_Timestamp bs) \<Longrightarrow>
   fst (collectBatches m nh bs) (b_Timestamp b) = Some b"
  by (induction bs arbitrary: m nh) (auto simp: collectBatches_other)

lemma collectBatches_Some:
  "fst (collectBatches m nh bs) t = Some b \<Longrightarrow> m t = Some b \<or> b \<in> set bs \<and> b_Timestamp b = t"
  by (induction bs arbitrary: m nh) (force split: if_splits)+

lemma collectBatches_head:
  "nh \<le> snd (collectBatches m nh bs)"
  "b \<in> set bs \<Longrightarrow> b_Timestamp b \<le> snd (collectBatches m nh bs)"
proof (induction bs arbitrary: m nh)
  case (Cons c cs)
  { case 1 from Cons.IH(1) show ?case by (auto intro: order_trans less_imp_le) }
  { case 2 then show ?case
      using Cons.IH by (auto intro: order_trans less_imp_le simp: not_less) }
qed simp_all

lemma batch_at_timestamp:
  "(\<And>b. m t = Some b \<Longrightarrow> b_Timestamp b = t) \<Longrightarrow> b_Timestamp (batch_at m epoch t) = t"
  by (auto simp: batch_at_def split: option.splits)

text \<open>The last timestamp that \<open>FillMissingBatches\<close> fills up to.\<close>

definition newHeadL2Timestamp :: "BatchData list \<Rightarrow> u64 \<Rightarrow> u64 \<Rightarrow> u64 \<Rightarrow> u64" where
  "newHeadL2Timestamp bs blockTime mn nextL1 =
     snd (collectBatches Map.empty (newHeadStart blockTime mn nextL1) bs)"

lemma FillMissingBatches_eq:
  assumes "0 < bt" and "unat (newHeadL2Timestamp bs bt mn nextL1) + unat bt < 2 ^ 64"
  shows "FillMissingBatches bs epoch bt mn nextL1 =
    Some (map (batch_at (fst (collectBatches Map.empty (newHeadStart bt mn nextL1) bs)) epoch)
           (l2_times bt (newHeadL2Timestamp bs bt mn nextL1) mn))"
  using fill_loop_eq [OF assms]
  by (simp add: FillMissingBatches_def newHeadL2Timestamp_def Let_def split_beta)

lemma newHead_bounded:
  assumes "unat mn + unat bt < 2 ^ 64" and "\<forall>b \<in> set bs. unat (b_Timestamp b) + unat bt < 2 ^ 64"
  shows "unat (newHeadL2Timestamp bs bt mn nextL1) + unat bt < 2 ^ 64"
proof -
  have start: "unat (newHeadStart bt mn nextL1) + unat bt < 2 ^ 64"
  proof (cases "nextL1 > mn + bt")
    case True
    have "unat bt \<le> unat nextL1"
      using True assms(1) by (simp add: word_less_nat_alt unat_add_no_wrap)
    then have "unat (nextL1 - bt) + unat bt = unat nextL1"
      by (simp add: unat_sub word_le_nat_alt)
    moreover have "unat nextL1 < 2 ^ 64" using unsigned_less [of nextL1] by simp
    ultimately show ?thesis using True by (simp add: newHeadStart_def)
  qed (use assms(1) in \<open>simp add: newHeadStart_def\<close>)
  have "unat nh + unat bt < 2 ^ 64 \<Longrightarrow> \<forall>b \<in> set bs. unat (b_Timestamp b) + unat bt < 2 ^ 64 \<Longrightarrow>
      unat (snd (collectBatches m nh bs)) + unat bt < 2 ^ 64" for m nh
    by (induction bs arbitrary: m nh) auto
  with start assms(2) show ?thesis by (simp add: newHeadL2Timestamp_def)
qed

lemma newHead_ge:
  assumes "unat mn + unat bt < 2 ^ 64"
  shows "mn \<le> newHeadL2Timestamp bs bt mn nextL1"
proof -
  have "mn \<le> newHeadStart bt mn nextL1"
  proof (cases "nextL1 > mn + bt")
    case True
    then have "unat mn + unat bt < unat nextL1"
      using assms by (simp add: word_less_nat_alt unat_add_no_wrap)
    then have "unat mn \<le> unat (nextL1 - bt)"
      by (simp add: unat_sub word_le_nat_alt)
    with True show ?thesis by (simp add: newHeadStart_def word_le_nat_alt)
  qed (simp add: newHeadStart_def)
  also have "\<dots> \<le> newHeadL2Timestamp bs bt mn nextL1"
    by (simp add: newHeadL2Timestamp_def collectBatches_head(1))
  finally show ?thesis .
qed

lemma l2_times_nth:
  assumes "0 < bt" and "unat nh + unat bt < 2 ^ 64" and "i < n_times bt nh t"
  shows "l2_times bt nh t ! i = t + of_nat i * bt"
    and "unat (t + of_nat i * bt) = unat t + i * unat bt"
    and "unat t + i * unat bt \<le> unat nh"
proof -
  show "l2_times bt nh t ! i = t + of_nat i * bt"
    using assms(3) by (simp add: l2_times_def)
  have le: "unat t \<le> unat nh" using assms(3) by (simp add: n_times_def word_le_nat_alt split: if_splits)
  have "i \<le> (unat nh - unat t) div unat bt"
    using assms(3) by (simp add: n_times_def split: if_splits)
  then have "i * unat bt \<le> unat nh - unat t"
    by (metis div_times_less_eq_dividend le_trans mult_le_mono1)
  then show b: "unat t + i * unat bt \<le> unat nh" using le by simp
  have nh: "unat nh < 2 ^ 64" using unsigned_less [of nh] by simp
  have "of_nat (unat t + i * unat bt) = t + of_nat i * bt" by simp
  then have "unat (t + of_nat i * bt) = unat (of_nat (unat t + i * unat bt) :: u64)" by simp
  also have "\<dots> = (unat t + i * unat bt) mod 2 ^ 64" by (subst unat_of_nat) simp
  also have "\<dots> = unat t + i * unat bt" using b nh by simp
  finally show "unat (t + of_nat i * bt) = unat t + i * unat bt" .
qed

lemma aligned_in_l2_times:
  assumes "0 < bt" and "unat nh + unat bt < 2 ^ 64" and "t \<le> x" and "x \<le> nh"
    and "unat bt dvd unat x - unat t"
  shows "x \<in> set (l2_times bt nh t)"
proof -
  from assms(5) obtain k where k: "unat x - unat t = unat bt * k" by blast
  have le: "unat t \<le> unat x" "unat x \<le> unat nh" using assms(3,4) by (simp_all add: word_le_nat_alt)
  have pos: "0 < unat bt" using assms(1) by (simp add: word_less_nat_alt)
  have "k = (unat x - unat t) div unat bt" using k pos by simp
  also have "\<dots> \<le> (unat nh - unat t) div unat bt" using le by (intro div_le_mono) simp
  finally have "k < n_times bt nh t" using assms(3,4) by (simp add: n_times_def)
  moreover from this have "unat (t + of_nat k * bt) = unat x"
    using l2_times_nth(2) [OF assms(1,2)] k le by (simp add: mult.commute)
  then have "x = t + of_nat k * bt" by (simp add: word_unat_eq_iff)
  ultimately show ?thesis by (auto simp: l2_times_def)
qed

lemma aligned_diff:
  fixes x t g bt :: u64
  assumes "g \<le> t" and "t \<le> x" and "(t - g) mod bt = 0" and "(x - g) mod bt = 0"
  shows "unat bt dvd unat x - unat t"
proof -
  have le: "unat g \<le> unat t" "unat t \<le> unat x" using assms(1,2) by (simp_all add: word_le_nat_alt)
  have "unat bt dvd unat (t - g)" "unat bt dvd unat (x - g)"
    using assms(3,4) by (metis unat_mod unat_0 mod_eq_0_iff_dvd)+
  moreover have "unat (t - g) = unat t - unat g" "unat (x - g) = unat x - unat g"
    using assms(1,2) by (auto simp: unat_sub intro: order_trans)
  ultimately have "unat bt dvd (unat x - unat g) - (unat t - unat g)"
    by (metis dvd_diff_nat)
  then show ?thesis using le by simp
qed

section \<open>Properties\<close>

lemma EncodeBatches_inverse:
  assumes "rlp_batch_ok R"
  shows "\<exists>bundle. EncodeBatches R bs = Inr bundle \<and> DecodeBatches R bundle = Inr bs"
proof -
  obtain enc where enc: "map_sum_list (encodeTyped R) bs = Inr enc"
      "map_sum_list (decodeTyped R) enc = Inr bs"
    using map_sum_list_inverse decodeTyped_encodeTyped [OF assms] by metis
  from assms obtain payload where "rlp_Encode_list R enc = Inr payload"
      "rlp_Decode_list R payload = Inr enc"
    by (auto simp: rlp_batch_ok_def)
  with enc show ?thesis by (auto simp: EncodeBatches_def DecodeBatches_def)
qed

text \<open>C6: A bundle of batches survives the round trip: under the documented behaviour of RLP,
  \<open>EncodeBatches\<close> succeeds on every list of batches and \<open>DecodeBatches\<close> gives the list back.\<close>

theorem batches_roundtrip:
  assumes "rlp_batch_ok R"
  shows "\<exists>bundle. EncodeBatches R bs = Inr bundle \<and> DecodeBatches R bundle = Inr bs"
  by (rule EncodeBatches_inverse [OF assms])

text \<open>A toy codec that satisfies the RLP hypothesis: unary lengths, two numbers of eight bytes.\<close>

fun demo_enc_list :: "bytes list \<Rightarrow> bytes" where
  "demo_enc_list [] = []"
| "demo_enc_list (x # xs) = map (\<lambda>_. 1) x @ [0] @ x @ demo_enc_list xs"

fun demo_dec_list :: "nat \<Rightarrow> bytes \<Rightarrow> bytes list" where
  "demo_dec_list 0 bs = []"
| "demo_dec_list (Suc f) bs =
     (if bs = [] then []
      else let n = length (takeWhile (\<lambda>b. b = 1) bs); r = drop (n + 1) bs
           in take n r # demo_dec_list f (drop n r))"

definition demo_rlp :: rlp_lib where
  "demo_rlp = \<lparr>
     rlp_Encode_BatchV1 = (\<lambda>b. Inr (word_be 8 (b_Epoch b) @ word_be 8 (b_Timestamp b) @
                                demo_enc_list (b_Transactions b))),
     rlp_DecodeBytes_BatchV1 = (\<lambda>bs. Inr \<lparr>b_Epoch = of_be (take 8 bs),
        b_Timestamp = of_be (take 8 (drop 8 bs)),
        b_Transactions = demo_dec_list (length bs) (drop 16 bs)\<rparr>),
     rlp_Encode_list = (\<lambda>xs. Inr (demo_enc_list xs)),
     rlp_Decode_list = (\<lambda>bs. Inr (demo_dec_list (length bs) bs))\<rparr>"

lemma demo_dec_enc: "length (demo_enc_list xs) \<le> f \<Longrightarrow> demo_dec_list f (demo_enc_list xs) = xs"
proof (induction xs arbitrary: f)
  case Nil
  then show ?case by (cases f) auto
next
  case (Cons x xs)
  then obtain f' where f: "f = Suc f'" by (cases f) auto
  have tw: "takeWhile (\<lambda>b. b = 1) (map (\<lambda>_. 1) x @ 0 # ys) = map (\<lambda>_. 1::byte) x" for ys
    by (induction x) auto
  have "demo_dec_list f' (demo_enc_list xs) = xs"
    using Cons.prems by (intro Cons.IH) (simp add: f)
  then show ?case by (simp add: f tw)
qed

lemma demo_rlp_ok: "rlp_batch_ok demo_rlp"
  by (simp add: rlp_batch_ok_def demo_rlp_def demo_dec_enc)

theorem batches_roundtrip_witness:
  "\<exists>bundle. EncodeBatches demo_rlp [\<lparr>b_Epoch = 3, b_Timestamp = 10, b_Transactions = [[1, 2], []]\<rparr>] = Inr bundle \<and>
     DecodeBatches demo_rlp bundle = Inr [\<lparr>b_Epoch = 3, b_Timestamp = 10, b_Transactions = [[1, 2], []]\<rparr>]"
  by (rule batches_roundtrip [OF demo_rlp_ok])

text \<open>C4: With a non-zero block time \<open>FilterBatches\<close> always returns, and it returns exactly the
  reference selection: of the valid batches (right epoch, aligned timestamp in range, no empty and
  no deposit transaction) the first one for each timestamp, in input order. So the timestamps of
  the result are distinct, each valid batch has its timestamp represented, and no later batch can
  displace an earlier valid one.\<close>

theorem FilterBatches_correct:
  assumes "cfg_BlockTime config \<noteq> 0"
  shows "\<exists>out. FilterBatches config epoch mn mx batches = Ok out \<and>
    out = first_by b_Timestamp (filter (is_valid_batch config epoch mn mx) batches) \<and>
    distinct (map b_Timestamp out) \<and>
    (\<forall>b \<in> set out. is_valid_batch config epoch mn mx b) \<and>
    b_Timestamp ` set out = b_Timestamp ` {b \<in> set batches. is_valid_batch config epoch mn mx b} \<and>
    (\<forall>b \<in> set out. \<exists>p s. filter (is_valid_batch config epoch mn mx) batches = p @ b # s \<and>
        b_Timestamp b \<notin> b_Timestamp ` set p)"
proof -
  let ?F = "first_by b_Timestamp (filter (is_valid_batch config epoch mn mx) batches)"
  have "\<forall>b \<in> set ?F. is_valid_batch config epoch mn mx b"
    using set_first_by [of b_Timestamp "filter (is_valid_batch config epoch mn mx) batches"] by auto
  moreover have "\<forall>b \<in> set ?F. \<exists>p s. filter (is_valid_batch config epoch mn mx) batches = p @ b # s \<and>
        b_Timestamp b \<notin> b_Timestamp ` set p"
    by (blast intro: first_by_first)
  moreover have "b_Timestamp ` set ?F = b_Timestamp ` {b \<in> set batches. is_valid_batch config epoch mn mx b}"
    by (simp add: first_by_covers)
  moreover have "distinct (map b_Timestamp ?F)" by (rule distinct_first_by)
  moreover note FilterBatches_eq [OF assms, of epoch mn mx batches]
  ultimately show ?thesis by blast
qed

definition demo_config :: Config where
  "demo_config = \<lparr>cfg_Genesis = \<lparr>gen_L1 = \<lparr>id_Hash = 1, id_Number = 0\<rparr>,
       gen_L2 = \<lparr>id_Hash = 2, id_Number = 0\<rparr>, gen_L2Time = 10\<rparr>,
     cfg_BlockTime = 2, cfg_MaxSequencerDrift = 10, cfg_SeqWindowSize = 2,
     cfg_L1ChainID = 900, cfg_L2ChainID = 901, cfg_P2PSequencerAddress = 5,
     cfg_FeeRecipientAddress = 6, cfg_BatchInboxAddress = 8, cfg_BatchSenderAddress = 7,
     cfg_DepositContractAddress = 9\<rparr>"

theorem FilterBatches_correct_witness:
  "FilterBatches demo_config 3 12 20
     [\<lparr>b_Epoch = 3, b_Timestamp = 14, b_Transactions = [[1]]\<rparr>,
      \<lparr>b_Epoch = 3, b_Timestamp = 14, b_Transactions = [[2]]\<rparr>,
      \<lparr>b_Epoch = 3, b_Timestamp = 15, b_Transactions = [[3]]\<rparr>,
      \<lparr>b_Epoch = 3, b_Timestamp = 16, b_Transactions = [[0x7E, 1]]\<rparr>] =
   Ok [\<lparr>b_Epoch = 3, b_Timestamp = 14, b_Transactions = [[1]]\<rparr>]"
  using FilterBatches_correct [of demo_config 3 12 20
     "[\<lparr>b_Epoch = 3, b_Timestamp = 14, b_Transactions = [[1]]\<rparr>,
      \<lparr>b_Epoch = 3, b_Timestamp = 14, b_Transactions = [[2]]\<rparr>,
      \<lparr>b_Epoch = 3, b_Timestamp = 15, b_Transactions = [[3]]\<rparr>,
      \<lparr>b_Epoch = 3, b_Timestamp = 16, b_Transactions = [[0x7E, 1]]\<rparr>]"]
  by (simp add: demo_config_def is_valid_batch_def valid_batch_tx_def DepositTxType_def)

text \<open>Filling puts a batch at the slot of its timestamp.\<close>

lemma filled_in_place:
  assumes "0 < bt" and "unat nh + unat bt < 2 ^ 64" and "b \<in> set F" and "distinct (map b_Timestamp F)" and "mn \<le> b_Timestamp b"
    and "b_Timestamp b \<le> nh" and "unat bt dvd unat (b_Timestamp b) - unat mn"
  shows "b \<in> set (map (batch_at (fst (collectBatches Map.empty h F)) epoch) (l2_times bt nh mn))"
proof -
  have "b_Timestamp b \<in> set (l2_times bt nh mn)" by (rule aligned_in_l2_times [OF assms(1,2,5,6,7)])
  moreover have "fst (collectBatches Map.empty h F) (b_Timestamp b) = Some b" by (rule collectBatches_lookup [OF assms(3,4)])
  ultimately show ?thesis by (force simp: batch_at_def)
qed



text \<open>The documentation (\<open>specs/rollup-node.md\<close>, "Batch Filtering") says that the first L2 timestamp
  of an epoch is never before the timestamp of its L1 block. The code does not keep this when the
  L1 timestamp is not aligned with the L2 block times: an epoch that starts at time 10 with block
  time 2 and next L1 time 15 is filled up to 12, so the next epoch starts at 14.\<close>

theorem l2_time_can_lag_l1_origin:
  "\<exists>out. FillMissingBatches [] 0 2 10 15 = Some out \<and>
     b_Timestamp (last out) + 2 < (15::u64)"
  by (simp add: FillMissingBatches_def newHeadStart_def fill_loop.simps batch_at_def)

end
