(* ===== verification/Payload.thy ===== *)
theory Payload
  imports Deposits Batches
begin

text \<open>
  Execution payloads and the engine API data (\<open>op-node/l2/api.go\<close>), the block references read from
  payloads and blocks (\<open>op-node/l2/source.go\<close>), and the conversion of an L2 block into a batch and
  the L2 output root (\<open>op-node/l2/util.go\<close>). Block headers, trie hashing and 256-bit conversion are
  go-ethereum's and uint256's: parameters of the record \<open>header_lib\<close>.
\<close>

section \<open>Engine API data (api.go)\<close>

record ExecutionPayload =
  ep_ParentHash :: hash
  ep_FeeRecipient :: address
  ep_StateRoot :: hash
  ep_ReceiptsRoot :: hash
  ep_LogsBloom :: "2048 word"
  ep_PrevRandao :: hash
  ep_BlockNumber :: u64
  ep_GasLimit :: u64
  ep_GasUsed :: u64
  ep_Timestamp :: u64
  ep_ExtraData :: bytes
  ep_BaseFeePerGas :: "256 word"
  ep_BlockHash :: hash
  ep_Transactions :: "bytes list"

definition ExecutionPayload_ID :: "ExecutionPayload \<Rightarrow> BlockID" where
  "ExecutionPayload_ID p = \<lparr>id_Hash = ep_BlockHash p, id_Number = ep_BlockNumber p\<rparr>"

definition ExecutionPayload_ParentID :: "ExecutionPayload \<Rightarrow> BlockID" where
  "ExecutionPayload_ParentID p =
     (let n = ep_BlockNumber p; n' = (if n > 0 then n - 1 else n)
      in \<lparr>id_Hash = ep_ParentHash p, id_Number = n'\<rparr>)"

record PayloadAttributes =
  pa_Timestamp :: u64
  pa_PrevRandao :: hash
  pa_SuggestedFeeRecipient :: address
  pa_Transactions :: "bytes list"
  pa_NoTxPool :: bool

text \<open>The status is a Go string with six named constants.\<close>

datatype ExecutePayloadStatus =
    ExecutionValid | ExecutionInvalid | ExecutionSyncing | ExecutionAccepted
  | ExecutionInvalidBlockHash | ExecutionInvalidTerminalBlock | OtherStatus string

record PayloadStatusV1 =
  ps_Status :: ExecutePayloadStatus
  ps_LatestValidHash :: hash
  ps_ValidationError :: string

record ForkchoiceState =
  fc_HeadBlockHash :: hash
  fc_SafeBlockHash :: hash
  fc_FinalizedBlockHash :: hash

type_synonym PayloadID = "64 word"   \<comment> \<open>\<open>beacon.PayloadID\<close>, a \<open>[8]byte\<close> array\<close>

record ForkchoiceUpdatedResult =
  fr_PayloadStatus :: PayloadStatusV1
  fr_PayloadID :: "PayloadID option"

section \<open>Headers and blocks of go-ethereum\<close>

record Header =
  h_ParentHash :: hash
  h_UncleHash :: hash
  h_Coinbase :: address
  h_Root :: hash
  h_TxHash :: hash
  h_ReceiptHash :: hash
  h_Bloom :: "2048 word"
  h_Difficulty :: int
  h_Number :: int
  h_GasLimit :: u64
  h_GasUsed :: u64
  h_Time :: u64
  h_Extra :: bytes
  h_MixDigest :: hash
  h_Nonce :: u64
  h_BaseFee :: "int option"

record Block =
  blk_Header :: Header
  blk_Transactions :: "Transaction list"

record header_lib =
  DeriveSha_raw :: "bytes list \<Rightarrow> hash"        \<comment> \<open>\<open>types.DeriveSha\<close> of encoded transactions\<close>
  DeriveSha_txs :: "Transaction list \<Rightarrow> hash"
  DeriveSha_receipts :: "Receipt list \<Rightarrow> hash"
  Header_Hash :: "Header \<Rightarrow> hash"              \<comment> \<open>\<open>header.Hash()\<close>, also \<open>block.Hash()\<close>\<close>
  EmptyUncleHash :: hash
  EmptyRootHash :: hash
  FromBig :: "int option \<Rightarrow> (256 word \<times> bool) res"  \<comment> \<open>\<open>uint256.FromBig\<close>: value and overflow\<close>

text \<open>\<open>block.NumberU64()\<close>: the low 64 bits of the number.\<close>

definition Block_NumberU64 :: "Block \<Rightarrow> u64" where
  "Block_NumberU64 b = of_int (h_Number (blk_Header b))"

definition Block_Hash :: "header_lib \<Rightarrow> Block \<Rightarrow> hash" where
  "Block_Hash H b = Header_Hash H (blk_Header b)"

definition ExecutionPayload_CheckBlockHash :: "header_lib \<Rightarrow> ExecutionPayload \<Rightarrow> hash \<times> bool" where
  "ExecutionPayload_CheckBlockHash H payload =
     (let txHash = DeriveSha_raw H (ep_Transactions payload);
          header = \<lparr>h_ParentHash = ep_ParentHash payload,
                    h_UncleHash = EmptyUncleHash H,
                    h_Coinbase = ep_FeeRecipient payload,
                    h_Root = ep_StateRoot payload,
                    h_TxHash = txHash,
                    h_ReceiptHash = ep_ReceiptsRoot payload,
                    h_Bloom = ep_LogsBloom payload,
                    h_Difficulty = 0,
                    h_Number = sint (ep_BlockNumber payload),
                    h_GasLimit = ep_GasLimit payload,
                    h_GasUsed = ep_GasUsed payload,
                    h_Time = ep_Timestamp payload,
                    h_Extra = ep_ExtraData payload,
                    h_MixDigest = ep_PrevRandao payload,
                    h_Nonce = 0,
                    h_BaseFee = Some (uint (ep_BaseFeePerGas payload))\<rparr>;
          blockHash = Header_Hash H header
      in (blockHash, blockHash = ep_BlockHash payload))"

definition BlockAsPayload :: "geth \<Rightarrow> header_lib \<Rightarrow> Block \<Rightarrow> ExecutionPayload res" where
  "BlockAsPayload G H bl =
     (let hd = blk_Header bl in
      bind_res (FromBig H (h_BaseFee hd)) (\<lambda>(baseFee, overflow).
      if overflow then Err (ErrMsg ''invalid base fee in block'')
      else bind_res (map_err (\<lambda>e. ErrMsg ''tx failed to marshal'')
                       (of_sum (map_sum_list (Tx_Marshal G) (blk_Transactions bl)))) (\<lambda>opaqueTxs.
      Ok \<lparr>ep_ParentHash = h_ParentHash hd, ep_FeeRecipient = h_Coinbase hd,
          ep_StateRoot = h_Root hd, ep_ReceiptsRoot = h_ReceiptHash hd, ep_LogsBloom = h_Bloom hd,
          ep_PrevRandao = h_MixDigest hd, ep_BlockNumber = Block_NumberU64 bl,
          ep_GasLimit = h_GasLimit hd, ep_GasUsed = h_GasUsed hd, ep_Timestamp = h_Time hd,
          ep_ExtraData = h_Extra hd, ep_BaseFeePerGas = baseFee, ep_BlockHash = Block_Hash H bl,
          ep_Transactions = opaqueTxs\<rparr>)))"

section \<open>Block references (source.go)\<close>

definition blockToBlockRef :: "header_lib \<Rightarrow> Block \<Rightarrow> Genesis \<Rightarrow> error + L2BlockRef" where
  "blockToBlockRef H block genesis =
     (let mk = (\<lambda>l1Origin sequenceNumber.
            \<lparr>l2_Hash = Block_Hash H block, l2_Number = Block_NumberU64 block,
             l2_ParentHash = h_ParentHash (blk_Header block), l2_Time = h_Time (blk_Header block),
             l2_L1Origin = l1Origin, l2_SequenceNumber = sequenceNumber\<rparr>) in
      if Block_NumberU64 block = id_Number (gen_L2 genesis) then
        if Block_Hash H block \<noteq> id_Hash (gen_L2 genesis)
        then Inl (ErrMsg ''expected L2 genesis hash to match L2 block at genesis block number'')
        else Inr (mk (gen_L1 genesis) 0)
      else case blk_Transactions block of
          [] \<Rightarrow> Inl (ErrMsg ''l2 block is missing L1 info deposit tx'')
        | tx # _ \<Rightarrow>
            if tx_Type tx \<noteq> DepositTxType then Inl (ErrMsg ''first block tx has unexpected tx type'')
            else (case L1InfoDepositTxData (tx_Data tx) of
                    Inl e \<Rightarrow> Inl (ErrMsg ''failed to parse L1 info deposit tx from L2 block'')
                  | Inr info \<Rightarrow> Inr (mk \<lparr>id_Hash = li_BlockHash info, id_Number = li_Number info\<rparr>
                                      (li_SequenceNumber info))))"

definition PayloadToBlockRef :: "geth \<Rightarrow> ExecutionPayload \<Rightarrow> Genesis \<Rightarrow> error + L2BlockRef" where
  "PayloadToBlockRef G payload genesis =
     (let mk = (\<lambda>l1Origin sequenceNumber.
            \<lparr>l2_Hash = ep_BlockHash payload, l2_Number = ep_BlockNumber payload,
             l2_ParentHash = ep_ParentHash payload, l2_Time = ep_Timestamp payload,
             l2_L1Origin = l1Origin, l2_SequenceNumber = sequenceNumber\<rparr>) in
      if ep_BlockNumber payload = id_Number (gen_L2 genesis) then
        if ep_BlockHash payload \<noteq> id_Hash (gen_L2 genesis)
        then Inl (ErrMsg ''expected L2 genesis hash to match L2 block at genesis block number'')
        else Inr (mk (gen_L1 genesis) 0)
      else case ep_Transactions payload of
          [] \<Rightarrow> Inl (ErrMsg ''l2 block is missing L1 info deposit tx'')
        | otx # _ \<Rightarrow> (case Tx_Unmarshal G otx of
              Inl e \<Rightarrow> Inl (ErrMsg ''failed to decode first tx to read l1 info from'')
            | Inr tx \<Rightarrow>
                if tx_Type tx \<noteq> DepositTxType
                then Inl (ErrMsg ''first payload tx has unexpected tx type'')
                else (case L1InfoDepositTxData (tx_Data tx) of
                        Inl e \<Rightarrow> Inl (ErrMsg ''failed to parse L1 info deposit tx from L2 block'')
                      | Inr info \<Rightarrow> Inr (mk \<lparr>id_Hash = li_BlockHash info, id_Number = li_Number info\<rparr>
                                          (li_SequenceNumber info)))))"

section \<open>Batches from blocks, output roots (util.go)\<close>

text \<open>\<open>BlockToBatch\<close>: a nil batch (an empty block) is \<open>Inr None\<close>.\<close>

definition BlockToBatch :: "geth \<Rightarrow> Block \<Rightarrow> error + BatchData option" where
  "BlockToBatch G block =
     (case blk_Transactions block of
        [] \<Rightarrow> Inl (ErrMsg ''expected at least 1 transaction but found none'')
      | tx0 # rest \<Rightarrow>
          if tx_Type tx0 \<noteq> DepositTxType
          then Inl (ErrMsg ''expected first tx to be a deposit of L1 info'')
          else if rest = [] then Inr None
          else (case map_sum_list (Tx_Marshal G)
                  (filter (\<lambda>tx. tx_Type tx \<noteq> DepositTxType) (blk_Transactions block)) of
              Inl e \<Rightarrow> Inl (ErrMsg ''failed to encode tx in block'')
            | Inr opaqueTxs \<Rightarrow> (case L1InfoDepositTxData (tx_Data tx0) of
                  Inl e \<Rightarrow> Inl (ErrMsg ''invalid L1 info deposit tx in block'')
                | Inr l1Info \<Rightarrow> Inr (Some \<lparr>b_Epoch = li_Number l1Info,
                    b_Timestamp = h_Time (blk_Header block), b_Transactions = opaqueTxs\<rparr>))))"

definition ComputeL2OutputRoot :: "geth \<Rightarrow> hash \<Rightarrow> hash \<Rightarrow> hash \<Rightarrow> hash \<Rightarrow> hash" where
  "ComputeL2OutputRoot G version blockHash blockRoot storageRoot =
     Keccak256 G (word_be 32 version @ word_be 32 blockRoot @ word_be 32 storageRoot @
                  word_be 32 blockHash)"

section \<open>Lemmas\<close>

lemma PayloadToBlockRef_fields:
  "PayloadToBlockRef G p g = Inr r \<Longrightarrow>
     l2_Hash r = ep_BlockHash p \<and> l2_Number r = ep_BlockNumber p \<and>
     l2_ParentHash r = ep_ParentHash p \<and> l2_Time r = ep_Timestamp p"
  by (auto simp: PayloadToBlockRef_def Let_def split: if_splits list.splits sum.splits)

lemma blockToBlockRef_fields:
  "blockToBlockRef H b g = Inr r \<Longrightarrow>
     l2_Hash r = Block_Hash H b \<and> l2_Number r = Block_NumberU64 b \<and>
     l2_ParentHash r = h_ParentHash (blk_Header b) \<and> l2_Time r = h_Time (blk_Header b)"
  by (auto simp: blockToBlockRef_def Let_def split: if_splits list.splits sum.splits)

section \<open>Properties\<close>

text \<open>C5: The L1 origin survives the trip through an L2 block. A payload whose first transaction is
  the L1-info deposit that \<open>L1InfoDepositBytes\<close> builds for an L1 block and a sequence number is read
  back by \<open>PayloadToBlockRef\<close> with exactly that L1 block as its origin and that sequence number,
  and with the payload's own hash, number, parent and time. Building the deposit succeeds for every
  L1 block whose base fee is a 256-bit number.\<close>

theorem l1_origin_roundtrip:
  assumes "deposit_codec_ok G" and "basefee_ok (hi_baseFee l1)"
    and "ep_BlockNumber p \<noteq> id_Number (gen_L2 genesis)"
  shows "\<exists>dep. L1InfoDepositBytes G seq l1 = Ok dep \<and>
    PayloadToBlockRef G (p\<lparr>ep_Transactions := dep # txs\<rparr>) genesis =
      Inr \<lparr>l2_Hash = ep_BlockHash p, l2_Number = ep_BlockNumber p, l2_ParentHash = ep_ParentHash p,
           l2_Time = ep_Timestamp p, l2_L1Origin = HeaderInfo_ID l1, l2_SequenceNumber = seq\<rparr>"
proof -
  obtain b tx where "L1InfoDepositBytes G seq l1 = Ok (DepositTxType # b)"
    and "Tx_Unmarshal G (DepositTxType # b) = Inr tx" and "tx_Type tx = DepositTxType"
    and "L1InfoDepositTxData (tx_Data tx) =
      Inr \<lparr>li_Number = hi_number l1, li_Time = hi_time l1, li_BaseFee = hi_baseFee l1,
           li_BlockHash = hi_hash l1, li_SequenceNumber = seq\<rparr>"
    using assms(1,2) by (rule L1InfoDepositBytes_Ok)
  with assms(3) show ?thesis
    by (auto simp: PayloadToBlockRef_def HeaderInfo_ID_def)
qed

definition demo_l1 :: HeaderInfo where
  "demo_l1 = \<lparr>hi_hash = 100, hi_parentHash = 99, hi_root = 0, hi_number = 7, hi_time = 20,
     hi_mixDigest = 55, hi_baseFee = Some 1000, hi_txHash = 0, hi_receiptHash = 0\<rparr>"

definition demo_payload :: ExecutionPayload where
  "demo_payload = \<lparr>ep_ParentHash = 11, ep_FeeRecipient = 6, ep_StateRoot = 12, ep_ReceiptsRoot = 13,
     ep_LogsBloom = 0, ep_PrevRandao = 55, ep_BlockNumber = 3, ep_GasLimit = 30, ep_GasUsed = 21,
     ep_Timestamp = 16, ep_ExtraData = [1, 2], ep_BaseFeePerGas = 9, ep_BlockHash = 14,
     ep_Transactions = [[0x7E, 1], [2, 3, 4], []]\<rparr>"

theorem l1_origin_roundtrip_witness:
  "\<exists>dep. L1InfoDepositBytes demo_geth 2 demo_l1 = Ok dep \<and>
    PayloadToBlockRef demo_geth (demo_payload\<lparr>ep_Transactions := dep # [[5]]\<rparr>) (cfg_Genesis demo_config) =
      Inr \<lparr>l2_Hash = ep_BlockHash demo_payload, l2_Number = ep_BlockNumber demo_payload,
           l2_ParentHash = ep_ParentHash demo_payload, l2_Time = ep_Timestamp demo_payload,
           l2_L1Origin = HeaderInfo_ID demo_l1, l2_SequenceNumber = 2\<rparr>"
  by (rule l1_origin_roundtrip [OF demo_geth_deposit_codec_ok])
     (simp_all add: demo_l1_def demo_payload_def demo_config_def basefee_ok_def)

end
