(* ===== verification/Sync.thy ===== *)
theory Sync
  imports Types
begin

text \<open>
  Finding the L2 heads after an L1 change (\<open>op-node/rollup/sync/start.go\<close>). The interfaces
  \<open>L1Chain\<close> and \<open>L2Chain\<close> are records of calls on a world; \<open>FindL2Heads\<close> makes the calls in source
  order. The first loop is bounded by \<open>MaxReorgDepth\<close>, the second has no bound of its own, so not
  returning is an outcome of the model (\<open>Diverge\<close>), and the lemmas show when it cannot happen.
\<close>

section \<open>Interfaces\<close>

record 'w sync_L1Chain =
  L1HeadBlockRef :: "('w, L1BlockRef) rpc"
  L1BlockRefByNumber :: "u64 \<Rightarrow> ('w, L1BlockRef) rpc"

record 'w sync_L2Chain =
  L2BlockRefByHash :: "hash \<Rightarrow> ('w, L2BlockRef) rpc"

definition MaxReorgDepth :: nat where
  "MaxReorgDepth = 500"

section \<open>Definitions\<close>

text \<open>The pair \<open>(aheadOrCanonical, canonical)\<close>.\<close>

definition isAheadOrCanonical :: "'w sync_L1Chain \<Rightarrow> BlockID \<Rightarrow> ('w, bool \<times> bool) rpc" where
  "isAheadOrCanonical l1 block =
     rbind (L1HeadBlockRef l1) (\<lambda>l1Head.
     if id_Number block > l1_Number l1Head then ret (True, False)
     else rbind (L1BlockRefByNumber l1 (id_Number block)) (\<lambda>canonical.
       let c = (l1_Hash canonical = id_Hash block) in ret (c, c)))"

definition at_genesis :: "Genesis \<Rightarrow> L2BlockRef \<Rightarrow> bool" where
  "at_genesis genesis n \<longleftrightarrow>
     l2_Hash n = id_Hash (gen_L2 genesis) \<or> l2_Number n = id_Number (gen_L2 genesis)"

text \<open>Loop 1, with \<open>k\<close> iterations left before \<open>reorgDepth\<close> reaches \<open>MaxReorgDepth\<close>. It returns the
  block \<open>n\<close> where it stopped and the highest plausible block; \<open>prevL1OriginHash\<close> is then the hash of
  the L1 origin of \<open>n\<close>. The check of one block comes first.\<close>

definition visit :: "'w sync_L1Chain \<Rightarrow> L2BlockRef \<Rightarrow> hash \<Rightarrow> L2BlockRef \<Rightarrow> ('w, hash \<times> L2BlockRef \<times> bool) rpc" where
  "visit l1 n prevL1OriginHash highest =
     (if prevL1OriginHash \<noteq> id_Hash (l2_L1Origin n) then
        rbind (isAheadOrCanonical l1 (l2_L1Origin n)) (\<lambda>(plausible, canonical).
        if \<not> plausible then ret (id_Hash (l2_L1Origin n), L2BlockRef_zero, False)
        else ret (id_Hash (l2_L1Origin n),
                  if highest = L2BlockRef_zero then n else highest,
                  canonical))
      else ret (prevL1OriginHash, highest, False))"

fun find_loop1 :: "'w sync_L1Chain \<Rightarrow> 'w sync_L2Chain \<Rightarrow> Genesis \<Rightarrow> nat \<Rightarrow> L2BlockRef \<Rightarrow> hash \<Rightarrow> L2BlockRef
    \<Rightarrow> ('w, L2BlockRef \<times> L2BlockRef) rpc" where
  "find_loop1 l1 l2 genesis k n prevL1OriginHash highest =
     rbind (visit l1 n prevL1OriginHash highest) (\<lambda>(prev', highest', found).
     if found then ret (n, highest')
     else if at_genesis genesis n then lift_res (Err WrongChainErr)
     else rbind (rmap_err (Wrap ''failed to fetch L2 block by hash'') (L2BlockRefByHash l2 (l2_ParentHash n))) (\<lambda>n'.
     case k of 0 \<Rightarrow> lift_res (Err TooDeepReorgErr)
     | Suc k' \<Rightarrow> find_loop1 l1 l2 genesis k' n' prev' highest'))"

text \<open>Loop 2.\<close>

partial_function (option) find_loop2 :: "'w sync_L2Chain \<Rightarrow> Genesis \<Rightarrow> u64 \<Rightarrow> L2BlockRef \<Rightarrow> hash \<Rightarrow> u64 \<Rightarrow> L2BlockRef
    \<Rightarrow> 'w \<Rightarrow> ((L2BlockRef \<times> L2BlockRef) res \<times> 'w) option" where
  "find_loop2 l2 genesis seqWindowSize n prevL1OriginHash depth highest w =
     (let changed = (id_Hash (l2_L1Origin n) \<noteq> prevL1OriginHash);
          depth' = (if changed then depth + 1 else depth) in
      if depth' = seqWindowSize then Some (Ok (highest, n), w)
      else if at_genesis genesis n then Some (Ok (highest, genesis_L2BlockRef genesis), w)
      else case L2BlockRefByHash l2 (l2_ParentHash n) w of
          (Ok n', w') \<Rightarrow> find_loop2 l2 genesis seqWindowSize n' (id_Hash (l2_L1Origin n)) depth' highest w'
        | (Err e, w') \<Rightarrow> Some (Err (Wrap ''failed to fetch L2 block by hash'' e), w')
        | (Panic p, w') \<Rightarrow> Some (Panic p, w')
        | (Diverge, w') \<Rightarrow> Some (Diverge, w'))"

definition FindL2Heads :: "'w sync_L1Chain \<Rightarrow> 'w sync_L2Chain \<Rightarrow> L2BlockRef \<Rightarrow> u64 \<Rightarrow> Genesis
    \<Rightarrow> ('w, L2BlockRef \<times> L2BlockRef) rpc" where
  "FindL2Heads l1 l2 start seqWindowSize genesis =
     rbind (find_loop1 l1 l2 genesis (MaxReorgDepth - 1) start 0 L2BlockRef_zero) (\<lambda>(n, highest).
     \<lambda>w. case find_loop2 l2 genesis seqWindowSize n (id_Hash (l2_L1Origin n)) 1 highest w of
           None \<Rightarrow> (Diverge, w) | Some r \<Rightarrow> r)"

declare find_loop1.simps [simp del]

section \<open>A stable view of both chains\<close>

text \<open>During one run of \<open>FindL2Heads\<close> the L1 client answers from one chain (head \<open>head\<close>, canonical
  block \<open>canon n\<close> at each height up to it), and the L2 client serves the ancestors of the start
  block: \<open>l2_path\<close> lists them from the start block down to genesis.\<close>

definition l1_stable :: "'w sync_L1Chain \<Rightarrow> 'w \<Rightarrow> L1BlockRef \<Rightarrow> (u64 \<Rightarrow> L1BlockRef) \<Rightarrow> bool" where
  "l1_stable l1 w head canon \<longleftrightarrow>
     L1HeadBlockRef l1 w = (Ok head, w) \<and>
     (\<forall>n \<le> l1_Number head. L1BlockRefByNumber l1 n w = (Ok (canon n), w))"

fun l2_path :: "'w sync_L2Chain \<Rightarrow> Genesis \<Rightarrow> 'w \<Rightarrow> L2BlockRef list \<Rightarrow> bool" where
  "l2_path l2 g w [] \<longleftrightarrow> False"
| "l2_path l2 g w [n] \<longleftrightarrow> at_genesis g n"
| "l2_path l2 g w (n # m # rest) \<longleftrightarrow>
     \<not> at_genesis g n \<and> L2BlockRefByHash l2 (l2_ParentHash n) w = (Ok m, w) \<and> l2_path l2 g w (m # rest)"

text \<open>L1 hashes identify L1 blocks, and no block has the zero hash.\<close>

definition origins_ok :: "L2BlockRef list \<Rightarrow> bool" where
  "origins_ok bs \<longleftrightarrow> (\<forall>b \<in> set bs. id_Hash (l2_L1Origin b) \<noteq> 0) \<and>
     (\<forall>b \<in> set bs. \<forall>b' \<in> set bs. id_Hash (l2_L1Origin b) = id_Hash (l2_L1Origin b') \<longrightarrow>
        l2_L1Origin b = l2_L1Origin b')"

definition canonical :: "L1BlockRef \<Rightarrow> (u64 \<Rightarrow> L1BlockRef) \<Rightarrow> L2BlockRef \<Rightarrow> bool" where
  "canonical head canon b \<longleftrightarrow> id_Number (l2_L1Origin b) \<le> l1_Number head \<and>
     l1_Hash (canon (id_Number (l2_L1Origin b))) = id_Hash (l2_L1Origin b)"

definition plausible :: "L1BlockRef \<Rightarrow> (u64 \<Rightarrow> L1BlockRef) \<Rightarrow> L2BlockRef \<Rightarrow> bool" where
  "plausible head canon b \<longleftrightarrow> id_Number (l2_L1Origin b) > l1_Number head \<or> canonical head canon b"

lemma isAheadOrCanonical_stable:
  assumes "l1_stable l1 w head canon"
  shows "isAheadOrCanonical l1 (l2_L1Origin b) w =
    (Ok (plausible head canon b, canonical head canon b), w)"
  using assms
  by (auto simp: isAheadOrCanonical_def rbind_def l1_stable_def plausible_def canonical_def Let_def
      not_less)

section \<open>Loop 1 against a reference on lists\<close>

text \<open>The candidate after the blocks \<open>p\<close>: the first block of the longest plausible suffix of \<open>p\<close>.\<close>

definition candidate :: "(L2BlockRef \<Rightarrow> bool) \<Rightarrow> L2BlockRef list \<Rightarrow> L2BlockRef" where
  "candidate pl p = (case takeWhile pl (rev p) of [] \<Rightarrow> L2BlockRef_zero | xs \<Rightarrow> last xs)"

definition last_origin :: "L2BlockRef list \<Rightarrow> hash" where
  "last_origin p = (if p = [] then 0 else id_Hash (l2_L1Origin (last p)))"

lemma candidate_snoc:
  "candidate pl (p @ [n]) =
     (if \<not> pl n then L2BlockRef_zero
      else if p \<noteq> [] \<and> pl (last p) then candidate pl p else n)"
proof (cases p rule: rev_cases)
  case (snoc q m)
  then show ?thesis by (auto simp: candidate_def split: list.splits)
qed (simp add: candidate_def)

lemma candidate_none: "p = [] \<or> \<not> pl (last p) \<Longrightarrow> candidate pl p = L2BlockRef_zero"
  by (cases p rule: rev_cases) (auto simp: candidate_def)

lemma candidate_some:
  assumes "p \<noteq> []" and "pl (last p)"
  shows "\<exists>q s. p = q @ candidate pl p # s \<and> (\<forall>x \<in> set (candidate pl p # s). pl x) \<and>
    (q = [] \<or> \<not> pl (last q))"
  using assms
proof (induction p rule: rev_induct)
  case (snoc n p)
  show ?case
  proof (cases "p \<noteq> [] \<and> pl (last p)")
    case True
    then obtain q s where "p = q @ candidate pl p # s"
      "\<forall>x \<in> set (candidate pl p # s). pl x" "q = [] \<or> \<not> pl (last q)"
      using snoc.IH by blast
    moreover have "candidate pl (p @ [n]) = candidate pl p" "pl n"
      using True snoc.prems by (auto simp: candidate_snoc)
    ultimately show ?thesis
      by (intro exI [of _ q] exI [of _ "s @ [n]"]) auto
  next
    case False
    then have "candidate pl (p @ [n]) = n" "pl n" using snoc.prems by (auto simp: candidate_snoc)
    with False show ?thesis by (intro exI [of _ p] exI [of _ "[]"]) auto
  qed
qed simp

lemma candidate_nonzero:
  assumes "origins_ok p" and "p \<noteq> []" and "pl (last p)"
  shows "candidate pl p \<noteq> L2BlockRef_zero"
proof -
  obtain q s where "p = q @ candidate pl p # s" using candidate_some [of p pl] assms(2,3) by blast
  then have "candidate pl p \<in> set p" by (metis in_set_conv_decomp)
  then have "id_Hash (l2_L1Origin (candidate pl p)) \<noteq> 0"
    using assms(1) by (auto simp: origins_ok_def)
  then show ?thesis by (auto simp: L2BlockRef_zero_def BlockID_zero_def)
qed

lemma origins_ok_prefix: "origins_ok (p @ q) \<Longrightarrow> origins_ok p"
  by (auto simp: origins_ok_def)

lemma same_origin:
  assumes "l2_L1Origin a = l2_L1Origin b"
  shows "plausible head canon a = plausible head canon b" "canonical head canon a = canonical head canon b"
  using assms by (auto simp: plausible_def canonical_def)

lemma visit_step:
  assumes st: "l1_stable l1 w head canon" and ok: "origins_ok (p @ [n])"
    and nc: "\<forall>b \<in> set p. \<not> canonical head canon b"
  shows "visit l1 n (last_origin p) (candidate (plausible head canon) p) w =
    (Ok (id_Hash (l2_L1Origin n), candidate (plausible head canon) (p @ [n]),
         canonical head canon n), w)"
proof (cases "last_origin p = id_Hash (l2_L1Origin n)")
  case True
  then have p: "p \<noteq> []" "id_Hash (l2_L1Origin (last p)) = id_Hash (l2_L1Origin n)"
    using ok by (auto simp: last_origin_def origins_ok_def split: if_splits)
  then have eq: "l2_L1Origin (last p) = l2_L1Origin n"
    using ok by (auto simp: origins_ok_def)
  have "last p \<in> set p" using p(1) by simp
  then have "\<not> canonical head canon (last p)" using nc by blast
  then have "\<not> canonical head canon n" using same_origin(2) [OF eq] by simp
  with True p(1) same_origin(1) [OF eq, of head canon] show ?thesis
    by (simp add: visit_def candidate_snoc candidate_none)
next
  case False
  have "p \<noteq> [] \<Longrightarrow> plausible head canon (last p) \<Longrightarrow>
      candidate (plausible head canon) p \<noteq> L2BlockRef_zero"
    using candidate_nonzero [OF origins_ok_prefix [OF ok]] by blast
  with False isAheadOrCanonical_stable [OF st, of n] show ?thesis
    by (auto simp: visit_def rbind_def candidate_snoc candidate_none canonical_def plausible_def)
qed

text \<open>What loop 1 computes on the list of ancestors, with \<open>p\<close> already visited.\<close>

fun walk1 :: "(L2BlockRef \<Rightarrow> bool) \<Rightarrow> (L2BlockRef \<Rightarrow> bool) \<Rightarrow> nat \<Rightarrow> L2BlockRef list \<Rightarrow> L2BlockRef list
    \<Rightarrow> (L2BlockRef \<times> L2BlockRef) res" where
  "walk1 pl ca k p [] = Err WrongChainErr"
| "walk1 pl ca k p (n # rest) =
     (if ca n then Ok (n, candidate pl (p @ [n]))
      else if rest = [] then Err WrongChainErr
      else case k of 0 \<Rightarrow> Err TooDeepReorgErr | Suc k' \<Rightarrow> walk1 pl ca k' (p @ [n]) rest)"

lemma last_origin_snoc [simp]: "last_origin (p @ [n]) = id_Hash (l2_L1Origin n)"
  by (simp add: last_origin_def)

lemma find_loop1_walk1:
  assumes "l1_stable l1 w head canon" and "l2_path l2 g w (n # rest)"
    and "origins_ok (p @ n # rest)" and "\<forall>b \<in> set p. \<not> canonical head canon b"
  shows "find_loop1 l1 l2 g k n (last_origin p) (candidate (plausible head canon) p) w =
    (walk1 (plausible head canon) (canonical head canon) k p (n # rest), w)"
  using assms
proof (induction rest arbitrary: n p k)
  case Nil
  have "visit l1 n (last_origin p) (candidate (plausible head canon) p) w =
    (Ok (id_Hash (l2_L1Origin n), candidate (plausible head canon) (p @ [n]),
         canonical head canon n), w)"
    using Nil.prems by (intro visit_step) auto
  with Nil.prems(2) show ?case by (simp add: find_loop1.simps)
next
  case (Cons m rest)
  have v: "visit l1 n (last_origin p) (candidate (plausible head canon) p) w =
    (Ok (id_Hash (l2_L1Origin n), candidate (plausible head canon) (p @ [n]),
         canonical head canon n), w)"
    using Cons.prems by (intro visit_step) (auto simp: origins_ok_def)
  have IH: "\<not> canonical head canon n \<Longrightarrow>
     find_loop1 l1 l2 g k' m (last_origin (p @ [n])) (candidate (plausible head canon) (p @ [n])) w =
      (walk1 (plausible head canon) (canonical head canon) k' (p @ [n]) (m # rest), w)" for k'
    using Cons.prems by (intro Cons.IH) auto
  show ?case
    using Cons.prems(2) v IH
    by (simp add: find_loop1.simps rmap_err_def split: nat.split)
qed

lemma walk1_Ok:
  assumes "xs = pre @ n # post" and "\<forall>b \<in> set pre. \<not> ca b" and "ca n" and "length pre \<le> k"
  shows "walk1 pl ca k p xs = Ok (n, candidate pl (p @ pre @ [n]))"
  using assms
proof (induction pre arbitrary: k p xs)
  case (Cons a pre)
  then obtain k' where "k = Suc k'" by (cases k) auto
  with Cons.IH [of "pre @ n # post" k' "p @ [a]"] Cons.prems show ?case by simp
qed simp

lemma walk1_WrongChain:
  "\<forall>b \<in> set xs. \<not> ca b \<Longrightarrow> length xs \<le> Suc k \<Longrightarrow> walk1 pl ca k p xs = Err WrongChainErr"
  by (induction pl ca k p xs rule: walk1.induct) (auto split: nat.split simp: Suc_le_eq)

lemma walk1_TooDeep:
  "\<forall>b \<in> set (take (Suc k) xs). \<not> ca b \<Longrightarrow> Suc k < length xs \<Longrightarrow> walk1 pl ca k p xs = Err TooDeepReorgErr"
  by (induction pl ca k p xs rule: walk1.induct) (auto split: nat.split)

section \<open>Loop 2 against a reference on lists\<close>

text \<open>The number of epochs that a run of consecutive L2 blocks touches.\<close>

definition epochs :: "L2BlockRef list \<Rightarrow> nat" where
  "epochs bs = length (remdups_adj (map (\<lambda>b. id_Hash (l2_L1Origin b)) bs))"

lemma epochs_simps [simp]: "epochs [] = 0" "epochs [n] = 1"
  by (simp_all add: epochs_def)

lemma epochs_snoc: "epochs (p @ [n, m]) =
    epochs (p @ [n]) + (if id_Hash (l2_L1Origin m) \<noteq> id_Hash (l2_L1Origin n) then 1 else 0)"
  by (simp add: epochs_def remdups_adj_append_two)

lemma epochs_snoc_le: "epochs (p @ [n]) \<le> Suc (epochs p)"
  by (cases p rule: rev_cases) (auto simp: epochs_snoc)

lemma epochs_le_length: "epochs p \<le> length p"
  unfolding epochs_def by (metis length_map remdups_adj_length)

fun walk2 :: "nat \<Rightarrow> Genesis \<Rightarrow> L2BlockRef list \<Rightarrow> L2BlockRef list \<Rightarrow> L2BlockRef" where
  "walk2 W g p [] = genesis_L2BlockRef g"
| "walk2 W g p (n # rest) =
     (if epochs (p @ [n]) = W then n
      else if rest = [] then genesis_L2BlockRef g
      else walk2 W g (p @ [n]) rest)"

lemma find_loop2_walk2:
  assumes "l2_path l2 g w (n # rest)" and "length p + length (n # rest) < 2 ^ 64"
    and "(if id_Hash (l2_L1Origin n) \<noteq> prev then d + 1 else d) = of_nat (epochs (p @ [n]))"
  shows "find_loop2 l2 g W n prev d highest w = Some (Ok (highest, walk2 (unat W) g p (n # rest)), w)"
  using assms
proof (induction rest arbitrary: n p prev d)
  case Nil
  have e: "epochs (p @ [n]) < 2 ^ 64" using epochs_le_length [of "p @ [n]"] Nil.prems(2) by simp
  then have W: "(of_nat (epochs (p @ [n])) = W) = (epochs (p @ [n]) = unat W)"
    by (auto simp: unat_of_nat)
  show ?case
    using Nil.prems(1,3) W by (subst find_loop2.simps) (simp add: Let_def)
next
  case (Cons m rest)
  have "epochs (p @ [n]) < 2 ^ 64" using epochs_le_length [of "p @ [n]"] Cons.prems(2) by simp
  then have W: "(of_nat (epochs (p @ [n])) = W) = (epochs (p @ [n]) = unat W)"
    by (auto simp: unat_of_nat)
  have "find_loop2 l2 g W m (id_Hash (l2_L1Origin n)) (of_nat (epochs (p @ [n]))) highest w =
      Some (Ok (highest, walk2 (unat W) g (p @ [n]) (m # rest)), w)"
    using Cons.prems by (intro Cons.IH) (auto simp: epochs_snoc)
  with Cons.prems(1,3) W show ?case
    by (subst find_loop2.simps) (simp add: Let_def)
qed

lemma walk2_spec:
  assumes "epochs p < W" and "xs \<noteq> []"
  shows "(\<exists>mid rest. xs = mid @ walk2 W g p xs # rest \<and> epochs (p @ mid @ [walk2 W g p xs]) = W \<and>
            epochs (p @ mid) < W) \<or>
         (epochs (p @ xs) < W \<and> walk2 W g p xs = genesis_L2BlockRef g)"
  using assms
proof (induction W g p xs rule: walk2.induct)
  case (2 W g p n rest)
  show ?case
  proof (cases "epochs (p @ [n]) = W")
    case True
    then show ?thesis using "2.prems"(1) by (intro disjI1 exI [of _ "[]"] exI [of _ rest]) simp
  next
    case False
    then have lt: "epochs (p @ [n]) < W" using "2.prems"(1) epochs_snoc_le [of p n] by simp
    show ?thesis
    proof (cases "rest = []")
      case True
      with False lt show ?thesis by simp
    next
      case nonempty: False
      note IH = "2.IH" [OF False nonempty lt nonempty]
      let ?s = "walk2 W g (p @ [n]) rest"
      have s: "walk2 W g p (n # rest) = ?s" using False nonempty by simp
      from IH show ?thesis unfolding s
      proof (elim disjE exE conjE)
        fix mid post assume "rest = mid @ ?s # post" "epochs ((p @ [n]) @ mid @ [?s]) = W"
          "epochs ((p @ [n]) @ mid) < W"
        then show "(\<exists>mid post. n # rest = mid @ ?s # post \<and> epochs (p @ mid @ [?s]) = W \<and>
            epochs (p @ mid) < W) \<or> (epochs (p @ n # rest) < W \<and> ?s = genesis_L2BlockRef g)"
          by (intro disjI1 exI [of _ "n # mid"] exI [of _ post]) simp
      qed simp
    qed
  qed
qed simp

section \<open>Properties\<close>

lemma FindL2Heads_walk:
  assumes "l1_stable l1 w head canon" and "l2_path l2 g w (start # rest)"
    and "origins_ok (start # rest)"
  shows "find_loop1 l1 l2 g (MaxReorgDepth - 1) start 0 L2BlockRef_zero w =
    (walk1 (plausible head canon) (canonical head canon) (MaxReorgDepth - 1) [] (start # rest), w)"
  using find_loop1_walk1 [OF assms(1,2), of "[]" "MaxReorgDepth - 1"] assms(3)
  by (simp add: last_origin_def candidate_def)

lemma l2_path_suffix: "l2_path l2 g w (p @ n # post) \<Longrightarrow> l2_path l2 g w (n # post)"
proof (induction p)
  case (Cons a p)
  then show ?case by (cases "p @ n # post") auto
qed simp

lemma split_first_canonical:
  assumes "\<exists>i < length bs. i < k \<and> P (bs ! i)"
  obtains pre n post where "bs = pre @ n # post" "\<forall>b \<in> set pre. \<not> P b" "P n" "length pre < k"
proof -
  from assms obtain i where i: "i < length bs" "i < k" "P (bs ! i)" by blast
  then have "\<exists>b \<in> set bs. P b" by auto
  then obtain pre n post where s: "bs = pre @ n # post" "P n" "\<forall>b \<in> set pre. \<not> P b"
    by (metis split_list_first_prop)
  have "\<not> i < length pre"
  proof
    assume "i < length pre"
    then have "bs ! i \<in> set pre" using s(1) by (simp add: nth_append)
    with s(3) i(3) show False by blast
  qed
  with i(2) s that [of pre n post] show thesis by simp
qed


text \<open>A small pair of chains: the L1 head is at height 2, and the second of four L2 blocks (counted from
  the top) was built on an L1 block that has been replaced.\<close>

definition demo_canon :: "u64 \<Rightarrow> L1BlockRef" where
  "demo_canon n = \<lparr>l1_Hash = (if n = 0 then 1 else 100 + ucast n), l1_Number = n, l1_ParentHash = 0, l1_Time = 0\<rparr>"

definition demo_l1chain :: "unit sync_L1Chain" where
  "demo_l1chain = \<lparr>L1HeadBlockRef = ret (demo_canon 2), L1BlockRefByNumber = (\<lambda>n. ret (demo_canon n))\<rparr>"

definition demo_ref :: "hash \<Rightarrow> u64 \<Rightarrow> hash \<Rightarrow> hash \<Rightarrow> u64 \<Rightarrow> L2BlockRef" where
  "demo_ref h n p oh on = \<lparr>l2_Hash = h, l2_Number = n, l2_ParentHash = p, l2_Time = 10 + 2 * n,
     l2_L1Origin = \<lparr>id_Hash = oh, id_Number = on\<rparr>, l2_SequenceNumber = 0\<rparr>"

definition demo_chain :: "L2BlockRef list" where
  "demo_chain = [demo_ref 23 3 22 103 3, demo_ref 22 2 21 999 2, demo_ref 21 1 2 101 1, demo_ref 2 0 0 1 0]"

definition demo_l2chain :: "unit sync_L2Chain" where
  "demo_l2chain = \<lparr>L2BlockRefByHash = (\<lambda>h. case find (\<lambda>b. l2_Hash b = h) demo_chain of
     Some b \<Rightarrow> ret b | None \<Rightarrow> lift_res (Err NotFound))\<rparr>"

definition demo_genesis :: Genesis where
  "demo_genesis = \<lparr>gen_L1 = \<lparr>id_Hash = 1, id_Number = 0\<rparr>, gen_L2 = \<lparr>id_Hash = 2, id_Number = 0\<rparr>, gen_L2Time = 10\<rparr>"

lemmas demo_sync_defs = demo_canon_def demo_l1chain_def demo_ref_def demo_chain_def demo_l2chain_def
  demo_genesis_def

lemma demo_l1_stable: "l1_stable demo_l1chain () (demo_canon 2) demo_canon"
  by (simp add: l1_stable_def demo_l1chain_def)

lemma demo_l2_path: "l2_path demo_l2chain demo_genesis () demo_chain"
  by (simp add: demo_sync_defs at_genesis_def)

lemma demo_origins_ok: "origins_ok demo_chain"
  by (simp add: demo_chain_def demo_ref_def origins_ok_def)


text \<open>C9: The two refusals of \<open>FindL2Heads\<close> on a stable view are told apart by the depth. When no
  ancestor down to genesis has a canonical origin and there are at most \<open>MaxReorgDepth\<close> of them, the
  node is on the wrong L1 chain (\<open>WrongChainErr\<close>); when the first \<open>MaxReorgDepth\<close> ancestors are not
  canonical and the chain goes on below them, the reorg is too deep (\<open>TooDeepReorgErr\<close>).\<close>

theorem FindL2Heads_refusals:
  assumes "l1_stable l1 w head canon" and "l2_path l2 g w bs" and "origins_ok bs"
    and "\<forall>b \<in> set (take MaxReorgDepth bs). \<not> canonical head canon b"
  shows "FindL2Heads l1 l2 (hd bs) W g w =
    (Err (if length bs \<le> MaxReorgDepth then WrongChainErr else TooDeepReorgErr), w)"
proof -
  let ?pl = "plausible head canon" and ?ca = "canonical head canon"
  obtain start rest where bs: "bs = start # rest" using assms(2) by (cases bs) auto
  define k where "k = MaxReorgDepth - 1"
  have d: "MaxReorgDepth = Suc k" by (simp add: MaxReorgDepth_def k_def)
  have "walk1 ?pl ?ca k [] bs = Err (if length bs \<le> MaxReorgDepth then WrongChainErr else TooDeepReorgErr)"
    using walk1_WrongChain [of bs ?ca k ?pl "[]"] walk1_TooDeep [of k bs ?ca ?pl "[]"] assms(4)
    unfolding d by (auto simp: not_le)
  with FindL2Heads_walk [of l1 w head canon l2 g start rest] assms(1-3) bs show ?thesis
    by (simp add: FindL2Heads_def k_def)
qed

theorem FindL2Heads_refusals_witness:
  "FindL2Heads demo_l1chain demo_l2chain (hd demo_chain) 2 (demo_genesis\<lparr>gen_L2 := \<lparr>id_Hash = 22, id_Number = 2\<rparr>\<rparr>) () =
    (Err (if length (take 2 demo_chain) \<le> MaxReorgDepth then WrongChainErr else TooDeepReorgErr), ())"
proof -
  let ?g = "demo_genesis\<lparr>gen_L2 := \<lparr>id_Hash = 22, id_Number = 2\<rparr>\<rparr>"
  have "l2_path demo_l2chain ?g () (take 2 demo_chain)"
    by (simp add: demo_sync_defs at_genesis_def)
  moreover have "origins_ok (take 2 demo_chain)"
    by (simp add: demo_chain_def demo_ref_def origins_ok_def)
  moreover have "\<forall>b \<in> set (take MaxReorgDepth (take 2 demo_chain)). \<not> canonical (demo_canon 2) demo_canon b"
    by (simp add: demo_sync_defs MaxReorgDepth_def canonical_def)
  ultimately have "FindL2Heads demo_l1chain demo_l2chain (hd (take 2 demo_chain)) 2 ?g () =
      (Err (if length (take 2 demo_chain) \<le> MaxReorgDepth then WrongChainErr else TooDeepReorgErr), ())"
    by (rule FindL2Heads_refusals [OF demo_l1_stable])
  then show ?thesis by (simp add: demo_chain_def)
qed

end
