(* ===== verification/L2Source.thy ===== *)
theory L2Source
  imports Payload Sync
begin

text \<open>
  The L2 source (\<open>op-node/l2/source.go\<close>): the engine API client of the driver and the read-only
  client of the output API. The RPC connection is outside the repository: the record \<open>l2_client\<close>
  holds its calls, each on a world \<open>'w\<close>. The interface \<open>Engine\<close> (\<open>rollup/driver/driver.go\<close>), that the
  driver calls, is a record too, and \<open>source_engine\<close> is the implementation the node wires in.
\<close>

section \<open>The RPC client, as a parameter\<close>

record AccountResult =
  ar_AccountProof :: "bytes list"
  ar_Address :: address
  ar_Balance :: "int option"
  ar_CodeHash :: hash
  ar_Nonce :: u64
  ar_StorageHash :: hash

text \<open>An engine call fills a result struct and also returns an error or nil; both are kept, since
  the code reads the struct even when there is an error.\<close>

record 'w l2_client =
  BlockByHash :: "hash \<Rightarrow> ('w, Block) rpc"
  BlockByNumber :: "int option \<Rightarrow> ('w, Block) rpc"
  engine_forkchoiceUpdatedV1 ::
    "ForkchoiceState \<Rightarrow> PayloadAttributes option \<Rightarrow> 'w \<Rightarrow> (ForkchoiceUpdatedResult \<times> error option) \<times> 'w"
  engine_newPayloadV1 :: "ExecutionPayload \<Rightarrow> 'w \<Rightarrow> (PayloadStatusV1 \<times> error option) \<times> 'w"
  engine_getPayloadV1 :: "PayloadID \<Rightarrow> ('w, ExecutionPayload) rpc"
  eth_getBlockByNumber :: "string \<Rightarrow> ('w, Header option) rpc"
  eth_getProof :: "address \<Rightarrow> string \<Rightarrow> 'w \<Rightarrow> (AccountResult option \<times> error option) \<times> 'w"

section \<open>Source\<close>

definition Source_PayloadByHash :: "geth \<Rightarrow> header_lib \<Rightarrow> 'w l2_client \<Rightarrow> hash \<Rightarrow> ('w, ExecutionPayload) rpc" where
  "Source_PayloadByHash G H c hash =
     rbind (rmap_err (\<lambda>e. ErrMsg ''failed to retrieve L2 block by hash'') (BlockByHash c hash)) (\<lambda>block.
     lift_res (map_err (Wrap ''failed to read L2 block as payload'') (BlockAsPayload G H block)))"

definition Source_PayloadByNumber :: "geth \<Rightarrow> header_lib \<Rightarrow> 'w l2_client \<Rightarrow> int option \<Rightarrow> ('w, ExecutionPayload) rpc" where
  "Source_PayloadByNumber G H c number =
     rbind (rmap_err (\<lambda>e. ErrMsg ''failed to retrieve L2 block by number'') (BlockByNumber c number)) (\<lambda>block.
     lift_res (map_err (Wrap ''failed to read L2 block as payload'') (BlockAsPayload G H block)))"

text \<open>The status decides, whether or not the call returned an error; the error is only quoted.\<close>

definition Source_ForkchoiceUpdate ::
  "'w l2_client \<Rightarrow> ForkchoiceState \<Rightarrow> PayloadAttributes option \<Rightarrow> ('w, ForkchoiceUpdatedResult) rpc" where
  "Source_ForkchoiceUpdate c fc attributes w =
     (case engine_forkchoiceUpdatedV1 c fc attributes w of ((result, err), w') \<Rightarrow>
        ((case ps_Status (fr_PayloadStatus result) of
            ExecutionSyncing \<Rightarrow> Err (ErrMsg ''updated forkchoice, but node is syncing'')
          | ExecutionAccepted \<Rightarrow> Err (ErrMsg ''unexpected status, could not update forkchoice'')
          | ExecutionInvalidTerminalBlock \<Rightarrow> Err (ErrMsg ''unexpected status, could not update forkchoice'')
          | ExecutionInvalidBlockHash \<Rightarrow> Err (ErrMsg ''unexpected status, could not update forkchoice'')
          | ExecutionInvalid \<Rightarrow> Err (ErrMsg ''cannot update forkchoice, block is invalid'')
          | ExecutionValid \<Rightarrow> Ok result
          | OtherStatus s \<Rightarrow> Err (ErrMsg ''unknown forkchoice status'')), w'))"

definition Source_NewPayload :: "'w l2_client \<Rightarrow> ExecutionPayload \<Rightarrow> ('w, unit) rpc" where
  "Source_NewPayload c payload w =
     (case engine_newPayloadV1 c payload w of ((result, err), w') \<Rightarrow>
        ((case err of Some e \<Rightarrow> Err (ErrMsg ''failed to execute payload'')
          | None \<Rightarrow> (case ps_Status result of
              ExecutionValid \<Rightarrow> Ok ()
            | ExecutionSyncing \<Rightarrow> Err (ErrMsg ''failed to execute payload, node is syncing'')
            | ExecutionInvalid \<Rightarrow> Err (ErrMsg ''execution payload was INVALID'')
            | ExecutionInvalidBlockHash \<Rightarrow> Err (ErrMsg ''execution payload has INVALID BLOCKHASH'')
            | ExecutionInvalidTerminalBlock \<Rightarrow> Err (ErrMsg ''engine is misconfigured'')
            | ExecutionAccepted \<Rightarrow> Err (ErrMsg ''execution payload cannot be validated yet'')
            | OtherStatus s \<Rightarrow> Err (ErrMsg ''unknown execution status''))), w'))"

definition Source_GetPayload :: "'w l2_client \<Rightarrow> PayloadID \<Rightarrow> ('w, ExecutionPayload) rpc" where
  "Source_GetPayload c payloadId = engine_getPayloadV1 c payloadId"

definition Source_L2BlockRefByNumber ::
  "header_lib \<Rightarrow> 'w l2_client \<Rightarrow> Genesis \<Rightarrow> int option \<Rightarrow> ('w, L2BlockRef) rpc" where
  "Source_L2BlockRefByNumber H c genesis l2Num =
     rbind (rmap_err (Wrap ''failed to determine block-hash of height, could not get header'') (BlockByNumber c l2Num)) (\<lambda>block.
     lift_res (of_sum (blockToBlockRef H block genesis)))"

definition Source_L2BlockRefByHash ::
  "header_lib \<Rightarrow> 'w l2_client \<Rightarrow> Genesis \<Rightarrow> hash \<Rightarrow> ('w, L2BlockRef) rpc" where
  "Source_L2BlockRefByHash H c genesis l2Hash =
     rbind (rmap_err (Wrap ''failed to determine block-hash of height, could not get header'') (BlockByHash c l2Hash)) (\<lambda>block.
     lift_res (of_sum (blockToBlockRef H block genesis)))"

section \<open>ReadOnlySource\<close>

definition ReadOnlySource_L2BlockRefByNumber ::
  "header_lib \<Rightarrow> 'w l2_client \<Rightarrow> Genesis \<Rightarrow> int option \<Rightarrow> ('w, L2BlockRef) rpc" where
  "ReadOnlySource_L2BlockRefByNumber H c genesis l2Num =
     rbind (rmap_err (Wrap ''failed to determine block-hash of height, could not get header'') (BlockByNumber c l2Num)) (\<lambda>block.
     lift_res (of_sum (blockToBlockRef H block genesis)))"

definition ReadOnlySource_L2BlockRefByHash ::
  "header_lib \<Rightarrow> 'w l2_client \<Rightarrow> Genesis \<Rightarrow> hash \<Rightarrow> ('w, L2BlockRef) rpc" where
  "ReadOnlySource_L2BlockRefByHash H c genesis l2Hash =
     rbind (rmap_err (Wrap ''failed to determine block-hash of height, could not get header'') (BlockByHash c l2Hash)) (\<lambda>block.
     lift_res (of_sum (blockToBlockRef H block genesis)))"

definition ReadOnlySource_BlockByNumber :: "'w l2_client \<Rightarrow> int option \<Rightarrow> ('w, Block) rpc" where
  "ReadOnlySource_BlockByNumber c number = BlockByNumber c number"

definition ReadOnlySource_GetBlockHeader :: "'w l2_client \<Rightarrow> string \<Rightarrow> ('w, Header option) rpc" where
  "ReadOnlySource_GetBlockHeader c blockTag = eth_getBlockByNumber c blockTag"

definition ReadOnlySource_GetProof ::
  "'w l2_client \<Rightarrow> address \<Rightarrow> string \<Rightarrow> ('w, AccountResult option) rpc" where
  "ReadOnlySource_GetProof c addr blockTag w =
     (case eth_getProof c addr blockTag w of ((getProofResponse, err), w') \<Rightarrow>
        ((case err of Some e \<Rightarrow> Err e
          | None \<Rightarrow> if getProofResponse = None then Err NotFound else Ok getProofResponse), w'))"

section \<open>The interface Engine and its implementation\<close>

record 'w Engine =
  GetPayload :: "PayloadID \<Rightarrow> ('w, ExecutionPayload) rpc"
  ForkchoiceUpdate :: "ForkchoiceState \<Rightarrow> PayloadAttributes option \<Rightarrow> ('w, ForkchoiceUpdatedResult) rpc"
  NewPayload :: "ExecutionPayload \<Rightarrow> ('w, unit) rpc"
  PayloadByHash :: "hash \<Rightarrow> ('w, ExecutionPayload) rpc"
  PayloadByNumber :: "int option \<Rightarrow> ('w, ExecutionPayload) rpc"

definition source_engine :: "geth \<Rightarrow> header_lib \<Rightarrow> 'w l2_client \<Rightarrow> 'w Engine" where
  "source_engine G H c = \<lparr>GetPayload = Source_GetPayload c, ForkchoiceUpdate = Source_ForkchoiceUpdate c,
     NewPayload = Source_NewPayload c, PayloadByHash = Source_PayloadByHash G H c,
     PayloadByNumber = Source_PayloadByNumber G H c\<rparr>"

text \<open>What the driver relies on without checking it: a forkchoice call that returns no error was
  answered VALID. \<open>verifySafeBlock\<close> drops the result of the call, so this is the only thing that
  makes its success mean anything.\<close>

locale engine_contract =
  fixes eng :: "'w Engine"
  assumes forkchoice_valid:
    "ForkchoiceUpdate eng fc attrs w = (Ok r, w') \<Longrightarrow> ps_Status (fr_PayloadStatus r) = ExecutionValid"

lemma Source_ForkchoiceUpdate_Ok_iff:
  "Source_ForkchoiceUpdate c fc attrs w = (Ok r, w') \<longleftrightarrow>
     (\<exists>e. engine_forkchoiceUpdatedV1 c fc attrs w = ((r, e), w')) \<and>
     ps_Status (fr_PayloadStatus r) = ExecutionValid"
  by (auto simp: Source_ForkchoiceUpdate_def split: prod.splits ExecutePayloadStatus.splits)

lemma Source_NewPayload_Ok_iff:
  "Source_NewPayload c p w = (Ok u, w') \<longleftrightarrow>
     (\<exists>r. engine_newPayloadV1 c p w = ((r, None), w') \<and> ps_Status r = ExecutionValid)"
  by (auto simp: Source_NewPayload_def split: prod.splits ExecutePayloadStatus.splits option.splits)

lemma Source_calls_no_panic:
  "\<exists>r w'. Source_ForkchoiceUpdate c fc attrs w = (r, w') \<and> (\<forall>m. r \<noteq> Panic m) \<and> r \<noteq> Diverge"
  "\<exists>r w'. Source_NewPayload c p w = (r, w') \<and> (\<forall>m. r \<noteq> Panic m) \<and> r \<noteq> Diverge"
  by (auto simp: Source_ForkchoiceUpdate_def Source_NewPayload_def
      split: prod.splits ExecutePayloadStatus.splits option.splits)

interpretation source: engine_contract "source_engine G H c"
  by unfold_locales (simp add: source_engine_def Source_ForkchoiceUpdate_Ok_iff)

end
