(* ===== verification/Output.thy ===== *)
theory Output
  imports L2Source "HOL-Library.Sublist"
begin

text \<open>
  Block production and derivation on the execution engine (\<open>op-node/rollup/driver/step.go\<close>): the
  methods of \<open>outputImpl\<close>. They call the engine and the L1 downloader, interfaces of the driver
  (\<open>driver.go\<close>) that are records of calls on the world. \<open>insertEpoch\<close> returns the heads it reached
  together with its error, so its result carries an \<open>error option\<close>.
\<close>

section \<open>The downloader interface\<close>

record 'w Downloader =
  InfoByHash :: "hash \<Rightarrow> ('w, HeaderInfo) rpc"
  Fetch :: "hash \<Rightarrow> ('w, HeaderInfo \<times> Transaction list \<times> Receipt list) rpc"
  FetchAllTransactions :: "BlockID list \<Rightarrow> ('w, Transaction list list) rpc"

record 'w outputImpl =
  o_dl :: "'w Downloader"
  o_l2 :: "'w Engine"
  o_Config :: Config
  o_geth :: geth
  o_rlp :: rlp_lib

section \<open>Deposits at the start of a block\<close>

definition isDepositTx :: "bytes \<Rightarrow> error + bool" where
  "isDepositTx opaqueTx = (case opaqueTx of [] \<Rightarrow> Inl (ErrMsg ''empty transaction'')
     | t # _ \<Rightarrow> Inr (t = DepositTxType))"

fun lastDeposit_loop :: "nat \<Rightarrow> nat \<Rightarrow> bytes list \<Rightarrow> error + nat" where
  "lastDeposit_loop i ld [] = Inr ld"
| "lastDeposit_loop i ld (tx # txns) =
     (case isDepositTx tx of
        Inl e \<Rightarrow> Inl (ErrMsg ''invalid transaction'')
      | Inr deposit \<Rightarrow> if deposit then lastDeposit_loop (i + 1) i txns else Inr ld)"

definition lastDeposit :: "bytes list \<Rightarrow> error + nat" where
  "lastDeposit txns = lastDeposit_loop 0 0 txns"

text \<open>The loop of \<open>insertHeadBlock\<close> over the transactions after the last deposit.\<close>

fun no_more_deposits :: "bytes list \<Rightarrow> unit res" where
  "no_more_deposits [] = Ok ()"
| "no_more_deposits (tx # txns) =
     (case isDepositTx tx of
        Inl e \<Rightarrow> Err (Wrap ''failed to decode transaction'' e)
      | Inr deposit \<Rightarrow> if deposit then Err (ErrMsg ''deposit tx after other tx in l2 block'')
                       else no_more_deposits txns)"

text \<open>The checks between \<open>GetPayload\<close> and \<open>NewPayload\<close>; \<open>payload.Transactions[0][0]\<close> panics on an
  empty first transaction.\<close>

definition check_payload :: "ExecutionPayload \<Rightarrow> unit res" where
  "check_payload payload =
     (case ep_Transactions payload of
        [] \<Rightarrow> Err (ErrMsg ''no transactions in returned payload'')
      | [] # _ \<Rightarrow> Panic ''index out of range''
      | (t # _) # _ \<Rightarrow>
          if t \<noteq> DepositTxType then Err (ErrMsg ''first transaction was not deposit tx'')
          else case lastDeposit (ep_Transactions payload) of
              Inl e \<Rightarrow> Err (Wrap ''failed to find last deposit'' e)
            | Inr ld \<Rightarrow> no_more_deposits (drop (ld + 1) (ep_Transactions payload)))"

section \<open>Operations\<close>

definition insertHeadBlock ::
  "'w outputImpl \<Rightarrow> ForkchoiceState \<Rightarrow> PayloadAttributes \<Rightarrow> bool \<Rightarrow> ('w, ExecutionPayload) rpc" where
  "insertHeadBlock d fc attrs updateSafe =
     rbind (rmap_err (Wrap ''failed to create new block via forkchoice'')
              (ForkchoiceUpdate (o_l2 d) fc (Some attrs))) (\<lambda>fcRes.
     if ps_Status (fr_PayloadStatus fcRes) \<noteq> ExecutionValid
     then lift_res (Err (ErrMsg ''engine not ready, forkchoice pre-state is not valid''))
     else case fr_PayloadID fcRes of
       None \<Rightarrow> lift_res (Err (ErrMsg ''nil id in forkchoice result when expecting a valid ID''))
     | Some payloadId \<Rightarrow>
       rbind (rmap_err (Wrap ''failed to get execution payload'') (GetPayload (o_l2 d) payloadId)) (\<lambda>payload.
       rbind (lift_res (check_payload payload)) (\<lambda>_.
       rbind (rmap_err (Wrap ''failed to insert execution payload'') (NewPayload (o_l2 d) payload)) (\<lambda>_.
       let fc1 = fc\<lparr>fc_HeadBlockHash := ep_BlockHash payload\<rparr>;
           fc2 = (if updateSafe then fc1\<lparr>fc_SafeBlockHash := ep_BlockHash payload\<rparr> else fc1) in
       rbind (rmap_err (Wrap ''failed to make the new L2 block canonical via forkchoice'')
                (ForkchoiceUpdate (o_l2 d) fc2 None)) (\<lambda>fcRes2.
       if ps_Status (fr_PayloadStatus fcRes2) \<noteq> ExecutionValid
       then lift_res (Err (ErrMsg ''failed to persist forkchoice change''))
       else ret payload)))))"

definition attributesMatchBlock :: "PayloadAttributes \<Rightarrow> hash \<Rightarrow> ExecutionPayload \<Rightarrow> unit res" where
  "attributesMatchBlock attrs parentHash block =
     (if parentHash \<noteq> ep_ParentHash block then Err (ErrMsg ''parent hash field does not match'')
      else if pa_Timestamp attrs \<noteq> ep_Timestamp block then Err (ErrMsg ''timestamp field does not match'')
      else if pa_PrevRandao attrs \<noteq> ep_PrevRandao block then Err (ErrMsg ''random field does not match'')
      else if length (pa_Transactions attrs) \<noteq> length (ep_Transactions block)
        then Err (ErrMsg ''transaction count does not match'')
      else if list_all2 (=) (pa_Transactions attrs) (ep_Transactions block) then Ok ()
      else Err (ErrMsg ''transaction does not match''))"

text \<open>The payload and whether there was a reorg.\<close>

definition verifySafeBlock ::
  "'w outputImpl \<Rightarrow> ForkchoiceState \<Rightarrow> PayloadAttributes \<Rightarrow> BlockID \<Rightarrow> ('w, ExecutionPayload \<times> bool) rpc" where
  "verifySafeBlock d fc attrs parent =
     rbind (rmap_err (Wrap ''failed to get L2 block'')
              (PayloadByNumber (o_l2 d) (Some (uint (id_Number parent + 1))))) (\<lambda>payload.
     rbind (lift_res (map_err (Wrap ''failed to parse block ref'')
              (of_sum (PayloadToBlockRef (o_geth d) payload (cfg_Genesis (o_Config d)))))) (\<lambda>ref.
     if \<not> is_ok (attributesMatchBlock attrs (id_Hash parent) payload) then
       let fc' = fc\<lparr>fc_HeadBlockHash := id_Hash parent, fc_SafeBlockHash := id_Hash parent\<rparr> in
       rbind (insertHeadBlock d fc' attrs True) (\<lambda>payload'. ret (payload', True))
     else
       let fc' = fc\<lparr>fc_SafeBlockHash := ep_BlockHash payload\<rparr> in
       rbind (rmap_err (Wrap ''failed to execute ForkchoiceUpdated'')
                (ForkchoiceUpdate (o_l2 d) fc' None)) (\<lambda>_. ret (payload, False))))"

definition processBlock ::
  "'w outputImpl \<Rightarrow> L2BlockRef \<Rightarrow> BlockID \<Rightarrow> BlockID \<Rightarrow> ExecutionPayload \<Rightarrow> ('w, unit) rpc" where
  "processBlock d l2Head l2SafeHead l2Finalized payload =
     rbind (rmap_err (\<lambda>e. ErrMsg ''failed to insert new payload'') (NewPayload (o_l2 d) payload)) (\<lambda>_.
     let fc = \<lparr>fc_HeadBlockHash = ep_BlockHash payload, fc_SafeBlockHash = id_Hash l2SafeHead,
               fc_FinalizedBlockHash = id_Hash l2Finalized\<rparr> in
     rbind (rmap_err (\<lambda>e. ErrMsg ''failed to update forkchoice to point to new payload'')
              (ForkchoiceUpdate (o_l2 d) fc None)) (\<lambda>res.
     if ps_Status (fr_PayloadStatus res) \<noteq> ExecutionValid
     then lift_res (Err (ErrMsg ''failed to persist forkchoice update''))
     else ret ()))"

text \<open>The L1 info, the receipts and the sequence number of a new block.\<close>

definition newBlock_l1 ::
  "'w outputImpl \<Rightarrow> L2BlockRef \<Rightarrow> L1BlockRef \<Rightarrow> ('w, HeaderInfo \<times> Receipt list \<times> u64) rpc" where
  "newBlock_l1 d l2Head l1Origin =
     rmap_err (\<lambda>e. ErrMsg ''failed to fetch L1 block info'')
       (if id_Number (l2_L1Origin l2Head) \<noteq> l1_Number l1Origin
        then rbind (Fetch (o_dl d) (l1_Hash l1Origin)) (\<lambda>(l1Info, _, receipts). ret (l1Info, receipts, 0))
        else rbind (InfoByHash (o_dl d) (l1_Hash l1Origin))
               (\<lambda>l1Info. ret (l1Info, [], l2_SequenceNumber l2Head + 1)))"

definition createNewBlock ::
  "'w outputImpl \<Rightarrow> L2BlockRef \<Rightarrow> BlockID \<Rightarrow> BlockID \<Rightarrow> L1BlockRef \<Rightarrow> ('w, L2BlockRef \<times> ExecutionPayload) rpc" where
  "createNewBlock d l2Head l2SafeHead l2Finalized l1Origin =
     rbind (newBlock_l1 d l2Head l1Origin) (\<lambda>(l1Info, receipts, seqNumber).
     rbind (lift_res (L1InfoDepositBytes (o_geth d) seqNumber l1Info)) (\<lambda>l1InfoTx.
     let deposits = fst (DeriveDeposits (o_geth d) receipts (cfg_DepositContractAddress (o_Config d)));
         txns = l1InfoTx # deposits;
         nextL2Time = l2_Time l2Head + cfg_BlockTime (o_Config d);
         shouldProduceEmptyBlock = (nextL2Time \<ge> l1_Time l1Origin + cfg_MaxSequencerDrift (o_Config d));
         attrs = \<lparr>pa_Timestamp = nextL2Time, pa_PrevRandao = hi_mixDigest l1Info,
                  pa_SuggestedFeeRecipient = cfg_FeeRecipientAddress (o_Config d),
                  pa_Transactions = txns, pa_NoTxPool = shouldProduceEmptyBlock\<rparr>;
         fc = \<lparr>fc_HeadBlockHash = l2_Hash l2Head, fc_SafeBlockHash = id_Hash l2SafeHead,
               fc_FinalizedBlockHash = id_Hash l2Finalized\<rparr> in
     rbind (rmap_err (\<lambda>e. ErrMsg ''failed to extend L2 chain'') (insertHeadBlock d fc attrs False)) (\<lambda>payload.
     rbind (lift_res (of_sum (PayloadToBlockRef (o_geth d) payload (cfg_Genesis (o_Config d))))) (\<lambda>ref.
     ret (ref, payload)))))"

text \<open>The attributes of block \<open>i\<close> of an epoch, with the L1-info deposit already encoded.\<close>

definition batch_attributes ::
  "Config \<Rightarrow> HeaderInfo \<Rightarrow> bytes list \<Rightarrow> nat \<Rightarrow> bytes \<Rightarrow> BatchData \<Rightarrow> PayloadAttributes" where
  "batch_attributes cfg l1Info deposits i l1InfoTx batch =
     \<lparr>pa_Timestamp = b_Timestamp batch, pa_PrevRandao = hi_mixDigest l1Info,
      pa_SuggestedFeeRecipient = cfg_FeeRecipientAddress cfg,
      pa_Transactions = l1InfoTx # (if i = 0 then deposits else []) @ b_Transactions batch,
      pa_NoTxPool = True\<rparr>"

text \<open>One block of an epoch: verify the existing block, or insert a new one. The flag \<open>reorg\<close> is only
  assigned by the verification.\<close>

definition epoch_step ::
  "'w outputImpl \<Rightarrow> ForkchoiceState \<Rightarrow> PayloadAttributes \<Rightarrow> L2BlockRef \<Rightarrow> L2BlockRef \<Rightarrow> bool
    \<Rightarrow> ('w, ExecutionPayload \<times> bool) rpc" where
  "epoch_step d fc attrs lastHead lastSafeHead reorg =
     (if l2_Hash lastHead \<noteq> l2_Hash lastSafeHead
      then verifySafeBlock d fc attrs (L2BlockRef_ID lastSafeHead)
      else rbind (insertHeadBlock d fc attrs True) (\<lambda>payload. ret (payload, reorg)))"

type_synonym epoch_result = "L2BlockRef \<times> L2BlockRef \<times> bool \<times> error option"

text \<open>The loop over the batches. \<open>l2Head0\<close> and \<open>l2SafeHead0\<close> are the heads \<open>insertEpoch\<close> was called
  with: a failure to encode the L1 info returns those.\<close>

fun epoch_loop ::
  "'w outputImpl \<Rightarrow> HeaderInfo \<Rightarrow> bytes list \<Rightarrow> L2BlockRef \<Rightarrow> L2BlockRef \<Rightarrow> nat \<Rightarrow> BatchData list
    \<Rightarrow> L2BlockRef \<Rightarrow> L2BlockRef \<Rightarrow> bool \<Rightarrow> bool \<Rightarrow> ForkchoiceState \<Rightarrow> ('w, epoch_result) rpc" where
  "epoch_loop d l1Info deposits l2Head0 l2SafeHead0 i [] lastHead lastSafeHead didReorg reorg fc =
     ret (lastHead, lastSafeHead, didReorg, None)"
| "epoch_loop d l1Info deposits l2Head0 l2SafeHead0 i (batch # batches) lastHead lastSafeHead didReorg reorg fc =
     rcatch (lift_res (L1InfoDepositBytes (o_geth d) (of_nat i) l1Info))
       (\<lambda>e. ret (l2Head0, l2SafeHead0, False, Some (Wrap ''failed to create l1InfoTx'' e)))
     (\<lambda>l1InfoTx.
     let attrs = batch_attributes (o_Config d) l1Info deposits i l1InfoTx batch in
     rcatch (epoch_step d fc attrs lastHead lastSafeHead reorg)
       (\<lambda>e. ret (lastHead, lastSafeHead, didReorg, Some (Wrap ''failed to extend L2 chain'' e)))
     (\<lambda>(payload, reorg').
     case PayloadToBlockRef (o_geth d) payload (cfg_Genesis (o_Config d)) of
       Inl e \<Rightarrow> ret (lastHead, lastSafeHead, didReorg, Some (Wrap ''failed to derive block references'' e))
     | Inr newLast \<Rightarrow>
         let lastHead' = (if reorg' \<or> l2_Hash lastHead = l2_Hash lastSafeHead then newLast else lastHead) in
         epoch_loop d l1Info deposits l2Head0 l2SafeHead0 (i + 1) batches lastHead' newLast
           (didReorg \<or> reorg') reorg'
           (fc\<lparr>fc_HeadBlockHash := l2_Hash lastHead', fc_SafeBlockHash := l2_Hash newLast\<rparr>)))"

declare epoch_loop.simps(2) [simp del]

text \<open>The bounds of the L2 time of an epoch.\<close>

definition epoch_minL2Time :: "Config \<Rightarrow> ExecutionPayload \<Rightarrow> u64" where
  "epoch_minL2Time cfg l2Info = ep_Timestamp l2Info + cfg_BlockTime cfg"

definition epoch_maxL2Time :: "Config \<Rightarrow> u64 \<Rightarrow> HeaderInfo \<Rightarrow> u64" where
  "epoch_maxL2Time cfg minL2Time l1Info =
     (let maxL2Time = hi_time l1Info + cfg_MaxSequencerDrift cfg in
      if minL2Time + cfg_BlockTime cfg > maxL2Time then minL2Time + cfg_BlockTime cfg else maxL2Time)"

definition epoch_batches ::
  "'w outputImpl \<Rightarrow> u64 \<Rightarrow> ExecutionPayload \<Rightarrow> HeaderInfo \<Rightarrow> HeaderInfo \<Rightarrow> Transaction list list
    \<Rightarrow> BatchData list res" where
  "epoch_batches d epoch l2Info l1Info nextL1Block transactions =
     (let cfg = o_Config d;
          batches = BatchesFromEVMTransactions (o_geth d) (o_rlp d) cfg transactions;
          minL2Time = epoch_minL2Time cfg l2Info;
          maxL2Time = epoch_maxL2Time cfg minL2Time l1Info in
      bind_res (FilterBatches cfg epoch minL2Time maxL2Time batches) (\<lambda>filtered.
      case FillMissingBatches filtered epoch (cfg_BlockTime cfg) minL2Time (hi_time nextL1Block) of
        None \<Rightarrow> Diverge | Some out \<Rightarrow> Ok out))"

text \<open>The inputs of an epoch, up to and including the batches.\<close>

definition epoch_inputs ::
  "'w outputImpl \<Rightarrow> L2BlockRef \<Rightarrow> BlockID list \<Rightarrow> ('w, HeaderInfo \<times> bytes list \<times> BatchData list) rpc" where
  "epoch_inputs d l2SafeHead l1Input =
     (if length l1Input \<le> 1 then lift_res (Err (ErrMsg ''too small L1 sequencing window for L2 derivation''))
      else if int (length l1Input) \<noteq> sint (cfg_SeqWindowSize (o_Config d))
        then lift_res (Err (ErrMsg ''invalid sequencing window size''))
      else
        rbind (rmap_err (Wrap ''failed to fetch L2 block info'') (PayloadByHash (o_l2 d) (l2_Hash l2SafeHead))) (\<lambda>l2Info.
        rbind (rmap_err (Wrap ''failed to fetch L1 block info'') (Fetch (o_dl d) (id_Hash (l1Input ! 0)))) (\<lambda>(l1Info, _, receipts).
        if id_Hash (l2_L1Origin l2SafeHead) \<noteq> hi_parentHash l1Info
        then lift_res (Err (ErrMsg ''l1Info does not extend L1 Origin of L2 Safe Head''))
        else
        rbind (rmap_err (\<lambda>e. ErrMsg ''failed to get L1 timestamp of next L1 block'')
                 (InfoByHash (o_dl d) (id_Hash (l1Input ! 1)))) (\<lambda>nextL1Block.
        let deposits = fst (DeriveDeposits (o_geth d) receipts (cfg_DepositContractAddress (o_Config d))) in
        rbind (rmap_err (\<lambda>e. ErrMsg ''failed to fetch transactions'')
                 (FetchAllTransactions (o_dl d) l1Input)) (\<lambda>transactions.
        rbind (lift_res (epoch_batches d (id_Number (l1Input ! 0)) l2Info l1Info nextL1Block transactions)) (\<lambda>batches.
        ret (l1Info, deposits, batches)))))))"

definition insertEpoch ::
  "'w outputImpl \<Rightarrow> L2BlockRef \<Rightarrow> L2BlockRef \<Rightarrow> BlockID \<Rightarrow> BlockID list \<Rightarrow> ('w, epoch_result) rpc" where
  "insertEpoch d l2Head l2SafeHead l2Finalized l1Input =
     rcatch (epoch_inputs d l2SafeHead l1Input)
       (\<lambda>e. ret (l2Head, l2SafeHead, False, Some e))
     (\<lambda>(l1Info, deposits, batches).
     epoch_loop d l1Info deposits l2Head l2SafeHead 0 batches l2Head l2SafeHead False False
       \<lparr>fc_HeadBlockHash = l2_Hash l2Head, fc_SafeBlockHash = l2_Hash l2SafeHead,
        fc_FinalizedBlockHash = id_Hash l2Finalized\<rparr>)"

section \<open>Deposits come first\<close>

definition is_deposit :: "bytes \<Rightarrow> bool" where
  "is_deposit tx \<longleftrightarrow> (\<exists>b. tx = DepositTxType # b)"

text \<open>One or more deposits, then transactions that are neither empty nor deposits.\<close>

definition deposits_first :: "bytes list \<Rightarrow> bool" where
  "deposits_first txs \<longleftrightarrow> (\<exists>ds os. txs = ds @ os \<and> ds \<noteq> [] \<and> (\<forall>t \<in> set ds. is_deposit t) \<and>
     (\<forall>t \<in> set os. t \<noteq> [] \<and> \<not> is_deposit t))"

lemma isDepositTx_simps:
  "isDepositTx tx = Inr True \<longleftrightarrow> is_deposit tx"
  "isDepositTx tx = Inr False \<longleftrightarrow> tx \<noteq> [] \<and> \<not> is_deposit tx"
  by (auto simp: isDepositTx_def is_deposit_def split: list.splits)

lemma no_more_deposits_Ok_iff:
  "no_more_deposits txs = Ok u \<longleftrightarrow> (\<forall>t \<in> set txs. t \<noteq> [] \<and> \<not> is_deposit t)"
  by (induction txs) (auto simp: isDepositTx_def is_deposit_def split: list.splits)

lemma no_more_deposits_no_panic: "no_more_deposits txs \<noteq> Panic m \<and> no_more_deposits txs \<noteq> Diverge"
  by (induction txs) (auto split: sum.splits)

text \<open>Where the walk stops: after \<open>k\<close> deposits, at a transaction that is not one.\<close>

lemma lastDeposit_loop_prefix:
  assumes "\<forall>t \<in> set ds. is_deposit t"
  shows "lastDeposit_loop i ld (ds @ os) =
    (if ds = [] then lastDeposit_loop i ld os else lastDeposit_loop (i + length ds) (i + length ds - 1) os)"
  using assms
proof (induction ds arbitrary: i ld)
  case (Cons t ds)
  then have "isDepositTx t = Inr True" by (simp add: isDepositTx_simps)
  with Cons show ?case by simp
qed simp

lemma lastDeposit_loop_stop:
  "lastDeposit_loop i ld os = Inr k \<Longrightarrow> os = [] \<or> \<not> is_deposit (hd os) \<Longrightarrow> k = ld"
  by (cases os) (auto simp: isDepositTx_def is_deposit_def split: list.splits if_splits)

lemma check_payload_Ok_iff: "check_payload p = Ok u \<longleftrightarrow> deposits_first (ep_Transactions p)"
proof -
  define txs where "txs = ep_Transactions p"
  define ds where "ds = takeWhile is_deposit txs"
  define os where "os = dropWhile is_deposit txs"
  have txs: "txs = ds @ os" by (simp add: ds_def os_def)
  have dep: "\<forall>t \<in> set ds. is_deposit t" by (auto simp: ds_def dest: set_takeWhileD)
  have os: "os = [] \<or> \<not> is_deposit (hd os)" unfolding os_def by (metis hd_dropWhile)
  have first: "deposits_first txs \<longleftrightarrow> ds \<noteq> [] \<and> (\<forall>t \<in> set os. t \<noteq> [] \<and> \<not> is_deposit t)"
  proof
    assume "deposits_first txs"
    then obtain ds' os' where *: "txs = ds' @ os'" "ds' \<noteq> []" "\<forall>t \<in> set ds'. is_deposit t"
      "\<forall>t \<in> set os'. t \<noteq> [] \<and> \<not> is_deposit t" by (auto simp: deposits_first_def)
    from *(4) have "takeWhile is_deposit os' = []" "dropWhile is_deposit os' = os'"
      by (cases os'; simp)+
    with * have "ds = ds'" "os = os'" by (simp_all add: ds_def os_def takeWhile_append2 dropWhile_append2)
    with * show "ds \<noteq> [] \<and> (\<forall>t \<in> set os. t \<noteq> [] \<and> \<not> is_deposit t)" by simp
  qed (use txs dep in \<open>auto simp: deposits_first_def\<close>)
  show ?thesis
  proof (cases "ds = []")
    case True
    then have "txs = [] \<or> \<not> is_deposit (hd txs)" using txs os by simp
    then have "\<nexists>u. check_payload p = Ok u"
      by (auto simp: check_payload_def txs_def [symmetric] is_deposit_def split: list.splits)
    with True first show ?thesis by (auto simp: txs_def)
  next
    case False
    then obtain b rest where h: "txs = (DepositTxType # b) # rest"
      using txs dep by (cases ds) (auto simp: is_deposit_def)
    have ld: "lastDeposit txs = lastDeposit_loop (length ds) (length ds - 1) os"
      unfolding lastDeposit_def txs using lastDeposit_loop_prefix [OF dep] False by simp
    have A: "check_payload p = (case lastDeposit txs of Inl e \<Rightarrow> Err (Wrap ''failed to find last deposit'' e)
        | Inr k \<Rightarrow> no_more_deposits (drop (k + 1) txs))"
      using h unfolding check_payload_def txs_def by (simp split: sum.split)
    have "check_payload p = Ok u \<longleftrightarrow> (\<forall>t \<in> set os. t \<noteq> [] \<and> \<not> is_deposit t)"
    proof (cases "lastDeposit txs")
      case (Inl e)
      with ld os have "\<not> (\<forall>t \<in> set os. t \<noteq> [] \<and> \<not> is_deposit t)"
        by (cases os) (auto simp: isDepositTx_def is_deposit_def split: list.splits if_splits)
      with Inl A show ?thesis by simp
    next
      case (Inr k)
      with ld os have "k = length ds - 1" using lastDeposit_loop_stop by metis
      with False have "drop (k + 1) txs = os" by (simp add: txs)
      with Inr A show ?thesis by (simp add: no_more_deposits_Ok_iff)
    qed
    then show ?thesis using False first by (simp add: txs_def)
  qed
qed

section \<open>What a successful call went through\<close>

lemma insertHeadBlock_Ok:
  assumes "insertHeadBlock d fc attrs updateSafe w = (Ok p, w')"
  obtains r w1 pid w2 w3 r' where
    "ForkchoiceUpdate (o_l2 d) fc (Some attrs) w = (Ok r, w1)" "fr_PayloadID r = Some pid"
    "GetPayload (o_l2 d) pid w1 = (Ok p, w2)" "deposits_first (ep_Transactions p)"
    "NewPayload (o_l2 d) p w2 = (Ok (), w3)"
    "ForkchoiceUpdate (o_l2 d) (fc\<lparr>fc_HeadBlockHash := ep_BlockHash p,
       fc_SafeBlockHash := (if updateSafe then ep_BlockHash p else fc_SafeBlockHash fc)\<rparr>) None w3 = (Ok r', w')"
    "ps_Status (fr_PayloadStatus r') = ExecutionValid"
  using assms
  by (fastforce simp: insertHeadBlock_def res_simps check_payload_Ok_iff Let_def
      split: if_splits option.splits)

lemma attributesMatchBlock_Ok_iff:
  "attributesMatchBlock attrs parent p = Ok u \<longleftrightarrow>
     ep_ParentHash p = parent \<and> ep_Timestamp p = pa_Timestamp attrs \<and>
     ep_PrevRandao p = pa_PrevRandao attrs \<and> ep_Transactions p = pa_Transactions attrs"
  by (auto simp: attributesMatchBlock_def list.rel_eq)

lemma attributesMatchBlock_is_ok:
  "is_ok (attributesMatchBlock attrs parent p) \<longleftrightarrow> attributesMatchBlock attrs parent p = Ok ()"
  by (cases "attributesMatchBlock attrs parent p") auto

lemma verifySafeBlock_Ok:
  assumes "verifySafeBlock d fc attrs parent w = (Ok (p, reorg), w')"
  shows "(reorg \<and> (\<exists>w1. insertHeadBlock d
            (fc\<lparr>fc_HeadBlockHash := id_Hash parent, fc_SafeBlockHash := id_Hash parent\<rparr>) attrs True w1 = (Ok p, w'))) \<or>
         (\<not> reorg \<and> attributesMatchBlock attrs (id_Hash parent) p = Ok () \<and>
          (\<exists>w1 r. PayloadByNumber (o_l2 d) (Some (uint (id_Number parent + 1))) w = (Ok p, w1) \<and>
             ForkchoiceUpdate (o_l2 d) (fc\<lparr>fc_SafeBlockHash := ep_BlockHash p\<rparr>) None w1 = (Ok r, w')))"
  using assms
  by (fastforce simp: verifySafeBlock_def res_simps Let_def attributesMatchBlock_is_ok split: if_splits)

section \<open>Heads of an epoch: the contract of the output interface\<close>

text \<open>The head after an epoch is the head before it, or it is the new safe head; after a reorg it is
  the safe head.\<close>

definition heads_ok :: "L2BlockRef \<Rightarrow> epoch_result \<Rightarrow> bool" where
  "heads_ok l2Head r \<longleftrightarrow> (case r of (h, s, reorg, err) \<Rightarrow> (h = l2Head \<or> h = s) \<and> (reorg \<longrightarrow> h = s))"

definition bump :: "bool \<Rightarrow> L2BlockRef \<Rightarrow> L2BlockRef \<Rightarrow> L2BlockRef \<Rightarrow> L2BlockRef" where
  "bump reorg h s n = (if reorg \<or> l2_Hash h = l2_Hash s then n else h)"

text \<open>How an iteration of the loop can return.\<close>

lemma epoch_loop_Cons:
  assumes "epoch_loop d l1Info deposits h0 s0 i (batch # batches) h s didReorg reorg fc w = (Ok r, w')"
  obtains
    (info) e where "r = (h0, s0, False, Some e)"
  | (stop) e where "r = (h, s, didReorg, Some e)"
  | (go) tx p reorg' w1 n where
      "L1InfoDepositBytes (o_geth d) (of_nat i) l1Info = Ok tx"
      "epoch_step d fc (batch_attributes (o_Config d) l1Info deposits i tx batch) h s reorg w = (Ok (p, reorg'), w1)"
      "PayloadToBlockRef (o_geth d) p (cfg_Genesis (o_Config d)) = Inr n"
      "epoch_loop d l1Info deposits h0 s0 (i + 1) batches (bump reorg' h s n) n (didReorg \<or> reorg') reorg'
         (fc\<lparr>fc_HeadBlockHash := l2_Hash (bump reorg' h s n), fc_SafeBlockHash := l2_Hash n\<rparr>) w1 = (Ok r, w')"
proof (cases "L1InfoDepositBytes (o_geth d) (of_nat i) l1Info")
  case tx: (Ok tx)
  let ?st = "epoch_step d fc (batch_attributes (o_Config d) l1Info deposits i tx batch) h s reorg w"
  obtain q w1 where st: "?st = (q, w1)" by (cases ?st)
  show thesis
  proof (cases q)
    case (Ok pr)
    then obtain p reorg' where q: "q = Ok (p, reorg')" by (cases pr) auto
    with st have st': "?st = (Ok (p, reorg'), w1)" by simp
    show thesis
    proof (cases "PayloadToBlockRef (o_geth d) p (cfg_Genesis (o_Config d))")
      case (Inl e)
      with assms tx st' show thesis by (auto simp: epoch_loop.simps(2) rcatch_def Let_def intro: stop)
    next
      case (Inr n)
      with assms tx st' show thesis
        by (intro go [OF tx st' Inr]) (simp add: epoch_loop.simps(2) rcatch_def Let_def bump_def)
    qed
  qed (use assms tx st in \<open>auto simp: epoch_loop.simps(2) rcatch_def Let_def intro: stop\<close>)
qed (use assms in \<open>auto simp: epoch_loop.simps(2) rcatch_def intro: info\<close>)

lemma epoch_loop_heads:
  assumes "epoch_loop d l1Info deposits l2Head s0 i batches h s didReorg reorg fc w = (Ok r, w')"
    and "h = l2Head \<or> h = s" and "didReorg \<or> reorg \<longrightarrow> h = s"
  shows "heads_ok l2Head r"
  using assms
proof (induction batches arbitrary: i h s didReorg reorg fc w)
  case Nil
  then show ?case by (auto simp: heads_ok_def)
next
  case (Cons batch batches)
  from Cons.prems(1) show ?case
  proof (cases rule: epoch_loop_Cons)
    case (go tx p reorg' w1 n)
    have "bump reorg' h s n = l2Head \<or> bump reorg' h s n = n"
      and "(didReorg \<or> reorg') \<or> reorg' \<longrightarrow> bump reorg' h s n = n"
      using Cons.prems(2,3) by (auto simp: bump_def)
    then show ?thesis using Cons.IH [OF go(4)] by blast
  qed (use Cons.prems(2,3) in \<open>auto simp: heads_ok_def\<close>)
qed

lemma insertEpoch_Ok:
  assumes "insertEpoch d h s f l1Input w = (Ok r, w')"
  obtains (early) e where "r = (h, s, False, Some e)"
  | (loop) l1Info deposits batches w1 where
      "epoch_inputs d s l1Input w = (Ok (l1Info, deposits, batches), w1)"
      "epoch_loop d l1Info deposits h s 0 batches h s False False
         \<lparr>fc_HeadBlockHash = l2_Hash h, fc_SafeBlockHash = l2_Hash s, fc_FinalizedBlockHash = id_Hash f\<rparr> w1 = (Ok r, w')"
proof -
  obtain q w1 where q: "epoch_inputs d s l1Input w = (q, w1)" by (cases "epoch_inputs d s l1Input w")
  show thesis
  proof (cases q)
    case (Ok x)
    obtain l1Info deposits batches where x: "x = (l1Info, deposits, batches)" by (cases x) auto
    show thesis
      by (rule loop [of l1Info deposits batches w1]) (use assms q Ok x in \<open>simp_all add: insertEpoch_def rcatch_def\<close>)
  next
    case (Err e)
    with assms q show thesis by (intro early [of e]) (simp add: insertEpoch_def rcatch_def)
  qed (use assms q in \<open>simp_all add: insertEpoch_def rcatch_def\<close>)
qed

lemma insertEpoch_heads:
  assumes "insertEpoch d h s f l1Input w = (Ok r, w')"
  shows "heads_ok h r"
  using assms
proof (cases rule: insertEpoch_Ok)
  case (loop l1Info deposits batches w1)
  show ?thesis by (rule epoch_loop_heads [OF loop(2)]) simp_all
qed (simp add: heads_ok_def)

section \<open>Derivation as a function of L1 data\<close>

text \<open>The abstract specification of \<open>insertEpoch\<close>: the attributes of the epoch are computed from the L1
  data alone, and the new safe head is the result of executing them one after the other on the old
  one. \<open>exec\<close> is block execution: the block that results from a parent and attributes that leave
  nothing to the transaction pool.\<close>

fun epoch_attributes ::
  "geth \<Rightarrow> Config \<Rightarrow> HeaderInfo \<Rightarrow> bytes list \<Rightarrow> nat \<Rightarrow> BatchData list \<Rightarrow> PayloadAttributes list res" where
  "epoch_attributes G cfg l1Info deposits i [] = Ok []"
| "epoch_attributes G cfg l1Info deposits i (batch # batches) =
     bind_res (L1InfoDepositBytes G (of_nat i) l1Info) (\<lambda>tx.
     bind_res (epoch_attributes G cfg l1Info deposits (i + 1) batches) (\<lambda>rest.
     Ok (batch_attributes cfg l1Info deposits i tx batch # rest)))"

fun derive_safe ::
  "geth \<Rightarrow> Genesis \<Rightarrow> (hash \<Rightarrow> PayloadAttributes \<Rightarrow> ExecutionPayload) \<Rightarrow> L2BlockRef \<Rightarrow> PayloadAttributes list
    \<Rightarrow> error + L2BlockRef" where
  "derive_safe G g exec s [] = Inr s"
| "derive_safe G g exec s (a # as) =
     (case PayloadToBlockRef G (exec (l2_Hash s) a) g of
        Inl e \<Rightarrow> Inl e | Inr n \<Rightarrow> derive_safe G g exec n as)"

text \<open>Documented behaviour of the engine: a block built without the transaction pool is determined
  by its parent and attributes (\<open>engine_forkchoiceUpdatedV1\<close>, \<open>engine_getPayloadV1\<close>), and a stored
  block is the execution of its own transactions on its parent.\<close>

definition engine_executes :: "'w Engine \<Rightarrow> (hash \<Rightarrow> PayloadAttributes \<Rightarrow> ExecutionPayload) \<Rightarrow> bool" where
  "engine_executes eng exec \<longleftrightarrow>
     (\<forall>fc attrs w r w1 pid p w2. pa_NoTxPool attrs \<longrightarrow> ForkchoiceUpdate eng fc (Some attrs) w = (Ok r, w1) \<longrightarrow>
        fr_PayloadID r = Some pid \<longrightarrow> GetPayload eng pid w1 = (Ok p, w2) \<longrightarrow> p = exec (fc_HeadBlockHash fc) attrs) \<and>
     (\<forall>n attrs w p w1. PayloadByNumber eng n w = (Ok p, w1) \<longrightarrow> pa_NoTxPool attrs \<longrightarrow>
        pa_Timestamp attrs = ep_Timestamp p \<longrightarrow> pa_PrevRandao attrs = ep_PrevRandao p \<longrightarrow>
        pa_Transactions attrs = ep_Transactions p \<longrightarrow> pa_SuggestedFeeRecipient attrs = ep_FeeRecipient p \<longrightarrow>
        p = exec (ep_ParentHash p) attrs)"

text \<open>The blocks that the engine stores pay the configured fee recipient. The node does not check it.\<close>

definition engine_fee_recipient :: "'w Engine \<Rightarrow> address \<Rightarrow> bool" where
  "engine_fee_recipient eng addr \<longleftrightarrow>
     (\<forall>n w p w1. PayloadByNumber eng n w = (Ok p, w1) \<longrightarrow> ep_FeeRecipient p = addr)"

lemma insertHeadBlock_exec:
  assumes "engine_executes (o_l2 d) exec" and "pa_NoTxPool attrs"
    and "insertHeadBlock d fc attrs us w = (Ok p, w')"
  shows "p = exec (fc_HeadBlockHash fc) attrs"
proof -
  obtain r w1 pid w2 where "ForkchoiceUpdate (o_l2 d) fc (Some attrs) w = (Ok r, w1)"
    "fr_PayloadID r = Some pid" "GetPayload (o_l2 d) pid w1 = (Ok p, w2)"
    using assms(3) by (rule insertHeadBlock_Ok)
  then show ?thesis using assms(1,2) unfolding engine_executes_def by blast
qed

lemma epoch_step_exec:
  assumes "engine_executes (o_l2 d) exec" and "engine_fee_recipient (o_l2 d) (pa_SuggestedFeeRecipient attrs)"
    and "pa_NoTxPool attrs" and "fc_HeadBlockHash fc = l2_Hash h"
    and "epoch_step d fc attrs h s reorg w = (Ok (p, reorg'), w1)"
  shows "p = exec (l2_Hash s) attrs"
proof (cases "l2_Hash h = l2_Hash s")
  case True
  with assms(5) have "insertHeadBlock d fc attrs True w = (Ok p, w1)"
    by (auto simp: epoch_step_def res_simps)
  with assms(1,3,4) True show ?thesis using insertHeadBlock_exec by fastforce
next
  case False
  with assms(5) have "verifySafeBlock d fc attrs (L2BlockRef_ID s) w = (Ok (p, reorg'), w1)"
    by (simp add: epoch_step_def)
  from verifySafeBlock_Ok [OF this] show ?thesis
  proof (elim disjE conjE exE)
    fix w2 assume "insertHeadBlock d (fc\<lparr>fc_HeadBlockHash := id_Hash (L2BlockRef_ID s),
        fc_SafeBlockHash := id_Hash (L2BlockRef_ID s)\<rparr>) attrs True w2 = (Ok p, w1)"
    from insertHeadBlock_exec [OF assms(1,3) this] show ?thesis by simp
  next
    fix w2 n assume "attributesMatchBlock attrs (id_Hash (L2BlockRef_ID s)) p = Ok ()"
      and q: "PayloadByNumber (o_l2 d) (Some (uint (id_Number (L2BlockRef_ID s) + 1))) w = (Ok p, w2)"
    then have m: "ep_ParentHash p = l2_Hash s" "ep_Timestamp p = pa_Timestamp attrs"
      "ep_PrevRandao p = pa_PrevRandao attrs" "ep_Transactions p = pa_Transactions attrs"
      by (simp_all add: attributesMatchBlock_Ok_iff)
    moreover have "ep_FeeRecipient p = pa_SuggestedFeeRecipient attrs"
      using assms(2) q by (auto simp: engine_fee_recipient_def)
    ultimately show ?thesis using assms(1,3) q unfolding engine_executes_def by metis
  qed
qed

lemma epoch_loop_derives:
  assumes "engine_executes (o_l2 d) exec"
    and "engine_fee_recipient (o_l2 d) (cfg_FeeRecipientAddress (o_Config d))"
    and "fc_HeadBlockHash fc = l2_Hash h"
    and "epoch_loop d l1Info deposits h0 s0 i batches h s didReorg reorg fc w = (Ok (h', s', r, None), w')"
  shows "\<exists>as. epoch_attributes (o_geth d) (o_Config d) l1Info deposits i batches = Ok as \<and>
    derive_safe (o_geth d) (cfg_Genesis (o_Config d)) exec s as = Inr s'"
  using assms(3,4)
proof (induction batches arbitrary: i h s didReorg reorg fc w)
  case (Cons batch batches)
  from Cons.prems(2) show ?case
  proof (cases rule: epoch_loop_Cons)
    case (go tx p reorg' w1 n)
    let ?a = "batch_attributes (o_Config d) l1Info deposits i tx batch"
    have "p = exec (l2_Hash s) ?a"
      using assms(1,2) Cons.prems(1) go(2)
      by (intro epoch_step_exec) (simp_all add: batch_attributes_def)
    moreover obtain as where
      "epoch_attributes (o_geth d) (o_Config d) l1Info deposits (i + 1) batches = Ok as"
      "derive_safe (o_geth d) (cfg_Genesis (o_Config d)) exec n as = Inr s'"
      using Cons.IH [OF _ go(4)] by auto
    ultimately show ?thesis using go(1,3) by simp
  qed simp_all
qed simp

section \<open>Progress\<close>

text \<open>An engine that is up: it builds the requested block, accepts it, and moves the forkchoice. The
  block holds the requested transactions, and it is not the genesis block.\<close>

definition engine_live ::
  "'w Engine \<Rightarrow> u64 \<Rightarrow> (hash \<Rightarrow> PayloadAttributes \<Rightarrow> ExecutionPayload) \<Rightarrow> bool" where
  "engine_live eng genesisNumber exec \<longleftrightarrow>
     (\<forall>fc attrs w. pa_NoTxPool attrs \<longrightarrow> (\<exists>r w1 pid w2. ForkchoiceUpdate eng fc (Some attrs) w = (Ok r, w1) \<and>
        ps_Status (fr_PayloadStatus r) = ExecutionValid \<and> fr_PayloadID r = Some pid \<and>
        GetPayload eng pid w1 = (Ok (exec (fc_HeadBlockHash fc) attrs), w2))) \<and>
     (\<forall>fc w. \<exists>r w1. ForkchoiceUpdate eng fc None w = (Ok r, w1) \<and> ps_Status (fr_PayloadStatus r) = ExecutionValid) \<and>
     (\<forall>p w. \<exists>w1. NewPayload eng p w = (Ok (), w1)) \<and>
     (\<forall>h attrs. ep_Transactions (exec h attrs) = pa_Transactions attrs \<and>
        ep_BlockNumber (exec h attrs) \<noteq> genesisNumber)"

lemma insertHeadBlock_live:
  assumes "engine_live (o_l2 d) gn exec" and "pa_NoTxPool attrs"
    and "deposits_first (pa_Transactions attrs)"
  shows "\<exists>w'. insertHeadBlock d fc attrs us w = (Ok (exec (fc_HeadBlockHash fc) attrs), w')"
proof -
  let ?p = "exec (fc_HeadBlockHash fc) attrs"
  let ?fc = "let fc1 = fc\<lparr>fc_HeadBlockHash := ep_BlockHash ?p\<rparr> in
    if us then fc1\<lparr>fc_SafeBlockHash := ep_BlockHash ?p\<rparr> else fc1"
  obtain r w1 pid w2 where 1: "ForkchoiceUpdate (o_l2 d) fc (Some attrs) w = (Ok r, w1)"
    "ps_Status (fr_PayloadStatus r) = ExecutionValid" "fr_PayloadID r = Some pid"
    "GetPayload (o_l2 d) pid w1 = (Ok ?p, w2)"
    using assms(1,2) unfolding engine_live_def by meson
  have 2: "check_payload ?p = Ok ()"
    using assms(1,3) by (simp add: check_payload_Ok_iff engine_live_def)
  obtain w3 where 3: "NewPayload (o_l2 d) ?p w2 = (Ok (), w3)"
    using assms(1) unfolding engine_live_def by meson
  obtain r' w4 where 4: "ForkchoiceUpdate (o_l2 d) ?fc None w3 = (Ok r', w4)"
    "ps_Status (fr_PayloadStatus r') = ExecutionValid"
    using assms(1) unfolding engine_live_def by meson
  show ?thesis
    using 1 2 3 4 by (intro exI [of _ w4]) (simp add: insertHeadBlock_def rmap_err_def rbind_def Let_def)
qed

text \<open>Deposits encode to bytes that start with the deposit type.\<close>

lemma encodeDeposits_are_deposits:
  "deposit_codec_ok G \<Longrightarrow> t \<in> set (fst (encodeDeposits G txs)) \<Longrightarrow> is_deposit t"
proof (induction txs)
  case (Cons tx txs)
  then obtain b where "DepositTx_Marshal G tx = Inr (DepositTxType # b)"
    unfolding deposit_codec_ok_def by meson
  with Cons show ?case by (auto simp: is_deposit_def split: prod.splits)
qed simp

lemma DeriveDeposits_are_deposits:
  "deposit_codec_ok G \<Longrightarrow> t \<in> set (fst (DeriveDeposits G receipts addr)) \<Longrightarrow> is_deposit t"
  using encodeDeposits_are_deposits [of G t]
  by (auto simp: DeriveDeposits_def split: prod.splits) (metis fst_conv)

lemma batch_attributes_deposits_first:
  assumes "is_deposit tx" and "\<forall>t \<in> set deposits. is_deposit t"
    and "list_all valid_batch_tx (b_Transactions batch)"
  shows "deposits_first (pa_Transactions (batch_attributes cfg l1Info deposits i tx batch))"
proof -
  have "\<forall>t \<in> set (b_Transactions batch). t \<noteq> [] \<and> \<not> is_deposit t"
    using assms(3) by (auto simp: list_all_iff valid_batch_tx_def is_deposit_def)
  with assms(1,2) show ?thesis unfolding deposits_first_def
    by (intro exI [of _ "tx # (if i = 0 then deposits else [])"] exI [of _ "b_Transactions batch"])
       (auto simp: batch_attributes_def)
qed

lemma epoch_loop_live:
  assumes "engine_live (o_l2 d) (id_Number (gen_L2 (cfg_Genesis (o_Config d)))) exec"
    and "deposit_codec_ok (o_geth d)" and "basefee_ok (hi_baseFee l1Info)"
    and "\<forall>t \<in> set deposits. is_deposit t" and "\<forall>b \<in> set batches. list_all valid_batch_tx (b_Transactions b)"
    and "l2_Hash h = l2_Hash s" and "fc_HeadBlockHash fc = l2_Hash s"
    and "batches = [] \<longrightarrow> h = s"
  shows "\<exists>s' w'. epoch_loop d l1Info deposits h0 s0 i batches h s didReorg False fc w =
    (Ok (s', s', didReorg, None), w')"
  using assms(5-8)
proof (induction batches arbitrary: i h s fc w)
  case (Cons batch batches)
  obtain b tx where tx: "L1InfoDepositBytes (o_geth d) (of_nat i) l1Info = Ok (DepositTxType # b)"
    "Tx_Unmarshal (o_geth d) (DepositTxType # b) = Inr tx" "tx_Type tx = DepositTxType"
    "L1InfoDepositTxData (tx_Data tx) =
      Inr \<lparr>li_Number = hi_number l1Info, li_Time = hi_time l1Info, li_BaseFee = hi_baseFee l1Info,
           li_BlockHash = hi_hash l1Info, li_SequenceNumber = of_nat i\<rparr>"
    using assms(2,3) by (rule L1InfoDepositBytes_Ok)
  let ?a = "batch_attributes (o_Config d) l1Info deposits i (DepositTxType # b) batch"
  let ?p = "exec (l2_Hash s) ?a"
  have "deposits_first (pa_Transactions ?a)"
    using assms(4) Cons.prems(1)
    by (intro batch_attributes_deposits_first) (auto simp: is_deposit_def)
  then obtain w1 where "insertHeadBlock d fc ?a True w = (Ok ?p, w1)"
    using insertHeadBlock_live [OF assms(1), of ?a fc True w] Cons.prems(3)
    by (auto simp: batch_attributes_def)
  then have step: "epoch_step d fc ?a h s False w = (Ok (?p, False), w1)"
    using Cons.prems(2) by (simp add: epoch_step_def)
  have "ep_Transactions ?p = (DepositTxType # b) # (if i = 0 then deposits else []) @ b_Transactions batch"
    "ep_BlockNumber ?p \<noteq> id_Number (gen_L2 (cfg_Genesis (o_Config d)))"
    using assms(1) by (auto simp: engine_live_def batch_attributes_def)
  then obtain n where n: "PayloadToBlockRef (o_geth d) ?p (cfg_Genesis (o_Config d)) = Inr n"
    using tx(2-4) by (auto simp: PayloadToBlockRef_def)
  obtain s' w' where "epoch_loop d l1Info deposits h0 s0 (i + 1) batches n n didReorg False
      (fc\<lparr>fc_HeadBlockHash := l2_Hash n, fc_SafeBlockHash := l2_Hash n\<rparr>) w1 = (Ok (s', s', didReorg, None), w')"
    using Cons.IH [of n n "fc\<lparr>fc_HeadBlockHash := l2_Hash n, fc_SafeBlockHash := l2_Hash n\<rparr>" "i + 1" w1] Cons.prems(1) by auto
  with tx(1) step n Cons.prems(2) show ?case
    by (auto simp: epoch_loop.simps(2) rcatch_def Let_def)
qed simp

text \<open>Every transaction of a filled epoch passed \<open>ValidBatch\<close>.\<close>

lemma fill_loop_set:
  assumes "fill_loop m epoch bt nh t acc = Some out"
  shows "b \<in> set out \<longrightarrow> b \<in> set acc \<or> (\<exists>t. b = batch_at m epoch t)"
proof (rule fill_loop.raw_induct [of "\<lambda>m epoch bt nh t acc out.
    b \<in> set out \<longrightarrow> b \<in> set acc \<or> (\<exists>t. b = batch_at m epoch t)", OF _ assms])
  fix fl and m :: "u64 \<rightharpoonup> BatchData" and epoch bt nh t :: u64 and acc out
  assume IH: "\<And>m epoch bt nh t acc y. fl m epoch bt nh t acc = Some y \<Longrightarrow>
      b \<in> set y \<longrightarrow> b \<in> set acc \<or> (\<exists>t. b = batch_at m epoch t)"
    and "(if t \<le> nh then fl m epoch bt nh (t + bt) (acc @ [batch_at m epoch t]) else Some acc) = Some out"
  then show "b \<in> set out \<longrightarrow> b \<in> set acc \<or> (\<exists>t. b = batch_at m epoch t)"
    using IH [of m epoch bt nh "t + bt" "acc @ [batch_at m epoch t]" out] by (auto split: if_splits)
qed

lemma epoch_batches_valid:
  assumes "epoch_batches d epoch l2Info l1Info nextL1 txs = Ok out"
    and "cfg_BlockTime (o_Config d) \<noteq> 0" and "b \<in> set out"
  shows "list_all valid_batch_tx (b_Transactions b)"
proof -
  let ?mn = "epoch_minL2Time (o_Config d) l2Info"
  let ?mx = "epoch_maxL2Time (o_Config d) ?mn l1Info"
  let ?F = "first_by b_Timestamp (filter (is_valid_batch (o_Config d) epoch ?mn ?mx)
    (BatchesFromEVMTransactions (o_geth d) (o_rlp d) (o_Config d) txs))"
  have valid: "is_valid_batch (o_Config d) epoch ?mn ?mx c" if "c \<in> set ?F" for c
    using that set_first_by by fastforce
  have "FillMissingBatches ?F epoch (cfg_BlockTime (o_Config d)) ?mn (hi_time nextL1) = Some out"
    using assms(1) FilterBatches_eq [OF assms(2)]
    by (simp add: epoch_batches_def Let_def split: option.splits)
  then obtain t where b: "b = batch_at (fst (collectBatches Map.empty
      (newHeadStart (cfg_BlockTime (o_Config d)) ?mn (hi_time nextL1)) ?F)) epoch t"
    using fill_loop_set assms(3) by (fastforce simp: FillMissingBatches_def split: prod.splits)
  show ?thesis
  proof (cases "fst (collectBatches Map.empty
      (newHeadStart (cfg_BlockTime (o_Config d)) ?mn (hi_time nextL1)) ?F) t")
    case None
    with b show ?thesis by (simp add: batch_at_def)
  next
    case (Some c)
    then have "c \<in> set ?F" using collectBatches_Some [of Map.empty _ ?F t c] by simp
    with valid [of c] b Some show ?thesis by (simp add: batch_at_def is_valid_batch_def)
  qed
qed

lemma epoch_inputs_Ok:
  assumes "epoch_inputs d s l1Input w = (Ok (l1Info, deposits, batches), w1)"
  shows "(\<exists>receipts. deposits = fst (DeriveDeposits (o_geth d) receipts (cfg_DepositContractAddress (o_Config d)))) \<and>
    (\<exists>l2Info nextL1 txs. epoch_batches d (id_Number (l1Input ! 0)) l2Info l1Info nextL1 txs = Ok batches) \<and>
    hi_parentHash l1Info = id_Hash (l2_L1Origin s)"
  using assms unfolding epoch_inputs_def
  by (auto simp: rbind_Ok_iff Let_def split: if_splits prod.splits)

lemma insertEpoch_spec:
  assumes "engine_executes (o_l2 d) exec"
    and "engine_fee_recipient (o_l2 d) (cfg_FeeRecipientAddress (o_Config d))"
    and "insertEpoch d h s f l1Input w = (Ok (h', s', reorg, None), w')"
  obtains l1Info deposits batches w1 as where
    "epoch_inputs d s l1Input w = (Ok (l1Info, deposits, batches), w1)"
    "epoch_attributes (o_geth d) (o_Config d) l1Info deposits 0 batches = Ok as"
    "derive_safe (o_geth d) (cfg_Genesis (o_Config d)) exec s as = Inr s'"
  using assms(3)
proof (cases rule: insertEpoch_Ok)
  case (loop l1Info deposits batches w1)
  from epoch_loop_derives [OF assms(1,2) _ loop(2)] loop(1) that show ?thesis by fastforce
qed simp

lemma insertEpoch_live:
  assumes "engine_live (o_l2 d) (id_Number (gen_L2 (cfg_Genesis (o_Config d)))) exec"
    and "deposit_codec_ok (o_geth d)" and "Config_Check (o_Config d) = Ok ()"
    and "epoch_inputs d s l1Input w = (Ok (l1Info, deposits, batches), w1)"
    and "basefee_ok (hi_baseFee l1Info)"
  shows "\<exists>s' w'. insertEpoch d s s f l1Input w = (Ok (s', s', False, None), w')"
proof -
  let ?fc = "\<lparr>fc_HeadBlockHash = l2_Hash s, fc_SafeBlockHash = l2_Hash s, fc_FinalizedBlockHash = id_Hash f\<rparr>"
  have "cfg_BlockTime (o_Config d) \<noteq> 0" using assms(3) by (auto simp: Config_Check_Ok_iff)
  then have "\<forall>b \<in> set batches. list_all valid_batch_tx (b_Transactions b)"
    using epoch_inputs_Ok [OF assms(4)] epoch_batches_valid by blast
  moreover have "\<forall>t \<in> set deposits. is_deposit t"
    using epoch_inputs_Ok [OF assms(4)] DeriveDeposits_are_deposits [OF assms(2)] by blast
  ultimately obtain s' w' where "epoch_loop d l1Info deposits s s 0 batches s s False False ?fc w1 =
      (Ok (s', s', False, None), w')"
    using epoch_loop_live [OF assms(1,2,5), of deposits batches s s ?fc s s 0 False w1] by auto
  then show ?thesis using assms(4) by (simp add: insertEpoch_def)
qed

text \<open>A small engine for closed examples: it remembers the payload it builds.\<close>

definition demo_exec :: "hash \<Rightarrow> PayloadAttributes \<Rightarrow> ExecutionPayload" where
  "demo_exec h a = demo_payload\<lparr>ep_ParentHash := h, ep_BlockHash := h + 1, ep_Timestamp := pa_Timestamp a,
     ep_PrevRandao := pa_PrevRandao a, ep_FeeRecipient := pa_SuggestedFeeRecipient a,
     ep_Transactions := pa_Transactions a\<rparr>"

definition demo_status :: PayloadStatusV1 where
  "demo_status = \<lparr>ps_Status = ExecutionValid, ps_LatestValidHash = 0, ps_ValidationError = []\<rparr>"

definition demo_engine :: "ExecutionPayload option Engine" where
  "demo_engine = \<lparr>
     GetPayload = (\<lambda>i w. (case w of Some p \<Rightarrow> Ok p | None \<Rightarrow> Err NotFound, w)),
     ForkchoiceUpdate = (\<lambda>fc a w. case a of
         None \<Rightarrow> (Ok \<lparr>fr_PayloadStatus = demo_status, fr_PayloadID = None\<rparr>, w)
       | Some attrs \<Rightarrow> (Ok \<lparr>fr_PayloadStatus = demo_status, fr_PayloadID = Some 1\<rparr>,
                         Some (demo_exec (fc_HeadBlockHash fc) attrs))),
     NewPayload = (\<lambda>p. ret ()),
     PayloadByHash = (\<lambda>h. ret demo_payload),
     PayloadByNumber = (\<lambda>n. ret (demo_exec 14 \<lparr>pa_Timestamp = 18, pa_PrevRandao = 0,
        pa_SuggestedFeeRecipient = 6, pa_Transactions = [[0x7E]], pa_NoTxPool = True\<rparr>))\<rparr>"

definition demo_output :: "ExecutionPayload option outputImpl" where
  "demo_output = \<lparr>o_dl = \<lparr>InfoByHash = (\<lambda>h. ret (demo_l1\<lparr>hi_time := 21\<rparr>)), Fetch = (\<lambda>h. ret (demo_l1, [], [])),
       FetchAllTransactions = (\<lambda>ids. ret [[], []])\<rparr>,
     o_l2 = demo_engine, o_Config = demo_config, o_geth = demo_geth, o_rlp = demo_rlp\<rparr>"

definition demo_safe :: L2BlockRef where
  "demo_safe = \<lparr>l2_Hash = 14, l2_Number = 3, l2_ParentHash = 11, l2_Time = 16,
     l2_L1Origin = \<lparr>id_Hash = 99, id_Number = 6\<rparr>, l2_SequenceNumber = 0\<rparr>"

definition demo_window :: "BlockID list" where
  "demo_window = [\<lparr>id_Hash = 100, id_Number = 7\<rparr>, \<lparr>id_Hash = 101, id_Number = 8\<rparr>]"

lemma demo_output_fields [simp]:
  "o_l2 demo_output = demo_engine" "o_Config demo_output = demo_config"
  "o_geth demo_output = demo_geth" "o_rlp demo_output = demo_rlp"
  by (simp_all add: demo_output_def)

lemma demo_engine_executes: "engine_executes demo_engine demo_exec"
  unfolding engine_executes_def by (auto simp: demo_engine_def demo_exec_def)

lemma demo_engine_fee_recipient: "engine_fee_recipient demo_engine (cfg_FeeRecipientAddress demo_config)"
  by (auto simp: engine_fee_recipient_def demo_engine_def demo_exec_def demo_config_def)

lemma demo_engine_live: "engine_live demo_engine (id_Number (gen_L2 (cfg_Genesis demo_config))) demo_exec"
  unfolding engine_live_def
  by (simp add: demo_engine_def demo_status_def demo_exec_def demo_payload_def demo_config_def)

lemma demo_Config_Check: "Config_Check demo_config = Ok ()"
  by (simp add: Config_Check_def demo_config_def)

lemma demo_basefee: "basefee_ok (hi_baseFee demo_l1)"
  by (simp add: basefee_ok_def demo_l1_def)

lemma demo_epoch_inputs:
  "epoch_inputs demo_output demo_safe demo_window w =
     (Ok (demo_l1, [], [\<lparr>b_Epoch = 7, b_Timestamp = 18, b_Transactions = []\<rparr>]), w)"
  by (simp add: epoch_inputs_def demo_output_def demo_engine_def demo_safe_def demo_window_def
      demo_config_def demo_l1_def DeriveDeposits_def epoch_batches_def BatchesFromEVMTransactions_def
      FilterBatches_def FillMissingBatches_def epoch_minL2Time_def demo_payload_def newHeadStart_def
      fill_loop.simps batch_at_def rmap_err_def rbind_def Let_def)

lemma demo_insertEpoch:
  "\<exists>s' w'. insertEpoch demo_output demo_safe demo_safe f demo_window w = (Ok (s', s', False, None), w')"
  using demo_engine_live demo_geth_deposit_codec_ok demo_Config_Check demo_epoch_inputs demo_basefee
  by (intro insertEpoch_live [of demo_output demo_exec]) simp_all

section \<open>Properties\<close>







section \<open>The order of engine calls\<close>

text \<open>An engine that also records the calls it gets.\<close>

datatype engine_call =
    Forkchoice ForkchoiceState "PayloadAttributes option"
  | Get PayloadID
  | New ExecutionPayload
  | Query

definition logged :: "'w Engine \<Rightarrow> ('w \<times> engine_call list) Engine" where
  "logged eng =
     \<lparr>GetPayload = (\<lambda>i (w, cs). case GetPayload eng i w of (r, w') \<Rightarrow> (r, (w', cs @ [Get i]))),
       ForkchoiceUpdate = (\<lambda>fc a (w, cs). case ForkchoiceUpdate eng fc a w of (r, w') \<Rightarrow> (r, (w', cs @ [Forkchoice fc a]))),
       NewPayload = (\<lambda>p (w, cs). case NewPayload eng p w of (r, w') \<Rightarrow> (r, (w', cs @ [New p]))),
       PayloadByHash = (\<lambda>h (w, cs). case PayloadByHash eng h w of (r, w') \<Rightarrow> (r, (w', cs @ [Query]))),
       PayloadByNumber = (\<lambda>n (w, cs). case PayloadByNumber eng n w of (r, w') \<Rightarrow> (r, (w', cs @ [Query])))\<rparr>"

text \<open>The calls of a whole insertion of payload \<open>p\<close>.\<close>

definition insertion :: "ForkchoiceState \<Rightarrow> PayloadAttributes \<Rightarrow> bool \<Rightarrow> PayloadID \<Rightarrow> ExecutionPayload \<Rightarrow> engine_call list" where
  "insertion fc attrs updateSafe pid p =
     [Forkchoice fc (Some attrs), Get pid, New p,
      Forkchoice (fc\<lparr>fc_HeadBlockHash := ep_BlockHash p,
         fc_SafeBlockHash := (if updateSafe then ep_BlockHash p else fc_SafeBlockHash fc)\<rparr>) None]"

text \<open>C13: The engine protocol of \<open>insertHeadBlock\<close>. Whatever the engine answers, the calls it gets are a
  prefix of: forkchoice with attributes, get the payload, new payload, forkchoice to the new block.
  A payload is only handed to the engine when its deposits come first (one or more of them, then no
  empty transaction and no further deposit), and the safe head moves only when the caller asked for
  it. A returned payload went through all four calls.\<close>

theorem insertHeadBlock_protocol:
  assumes "o_l2 d = logged eng"
    and "insertHeadBlock d fc attrs updateSafe (w, []) = (r, (w', calls))"
  shows "\<exists>pid p. prefix calls (insertion fc attrs updateSafe pid p) \<and> calls \<noteq> [] \<and>
    (New p \<in> set calls \<longrightarrow> deposits_first (ep_Transactions p)) \<and>
    (\<forall>q. r = Ok q \<longrightarrow> q = p \<and> calls = insertion fc attrs updateSafe pid p)"
proof -
  obtain r1 w1 where 1: "ForkchoiceUpdate eng fc (Some attrs) w = (r1, w1)" by fastforce
  show ?thesis
  proof (cases "\<exists>x pid. r1 = Ok x \<and> ps_Status (fr_PayloadStatus x) = ExecutionValid \<and> fr_PayloadID x = Some pid")
    case False
    with 1 assms have "calls = [Forkchoice fc (Some attrs)]" "\<forall>q. r \<noteq> Ok q"
      by (auto simp: insertHeadBlock_def logged_def rmap_err_def rbind_def
          split: res.splits option.splits if_splits)
    then show ?thesis by (auto simp: insertion_def)
  next
    case True
    then obtain x pid where x: "r1 = Ok x" "ps_Status (fr_PayloadStatus x) = ExecutionValid"
      "fr_PayloadID x = Some pid" by blast
    obtain r2 w2 where 2: "GetPayload eng pid w1 = (r2, w2)" by fastforce
    show ?thesis
    proof (cases "\<exists>p. r2 = Ok p \<and> check_payload p = Ok ()")
      case False
      with 1 2 x assms have "calls = [Forkchoice fc (Some attrs), Get pid]" "\<forall>q. r \<noteq> Ok q"
        by (auto simp: insertHeadBlock_def logged_def rmap_err_def rbind_def split: res.splits)
      then show ?thesis by (auto simp: insertion_def)
    next
      case True
      then obtain p where p: "r2 = Ok p" "check_payload p = Ok ()" by blast
      obtain r3 w3 where 3: "NewPayload eng p w2 = (r3, w3)" by fastforce
      have df: "deposits_first (ep_Transactions p)" using p(2) by (simp add: check_payload_Ok_iff)
      show ?thesis
      proof (cases "r3 = Ok ()")
        case False
        with 1 2 3 x p assms have "calls = [Forkchoice fc (Some attrs), Get pid, New p]" "\<forall>q. r \<noteq> Ok q"
          by (auto simp: insertHeadBlock_def logged_def rmap_err_def rbind_def split: res.splits)
        with df show ?thesis by (intro exI [of _ pid] exI [of _ p]) (auto simp: insertion_def)
      next
        case True
        with 1 2 3 x p assms have "calls = insertion fc attrs updateSafe pid p" "\<forall>q. r = Ok q \<longrightarrow> q = p"
          by (auto simp: insertHeadBlock_def logged_def insertion_def rmap_err_def rbind_def Let_def
              split: res.splits prod.splits if_splits)
        with df show ?thesis by (intro exI [of _ pid] exI [of _ p]) (auto simp: insertion_def)
      qed
    qed
  qed
qed

definition demo_attrs :: PayloadAttributes where
  "demo_attrs = \<lparr>pa_Timestamp = 18, pa_PrevRandao = 0, pa_SuggestedFeeRecipient = 6,
     pa_Transactions = [[0x7E], [2, 3]], pa_NoTxPool = True\<rparr>"

definition demo_fc :: ForkchoiceState where
  "demo_fc = \<lparr>fc_HeadBlockHash = 14, fc_SafeBlockHash = 14, fc_FinalizedBlockHash = 0\<rparr>"

definition demo_logged :: "(ExecutionPayload option \<times> engine_call list) outputImpl" where
  "demo_logged = \<lparr>o_dl = \<lparr>InfoByHash = (\<lambda>h. ret demo_l1), Fetch = (\<lambda>h. ret (demo_l1, [], [])),
       FetchAllTransactions = (\<lambda>ids. ret [[], []])\<rparr>,
     o_l2 = logged demo_engine, o_Config = demo_config, o_geth = demo_geth, o_rlp = demo_rlp\<rparr>"

theorem insertHeadBlock_protocol_witness:
  "\<exists>w' calls pid p. insertHeadBlock demo_logged demo_fc demo_attrs True (None, []) =
      (Ok (demo_exec 14 demo_attrs), (w', calls)) \<and>
    p = demo_exec 14 demo_attrs \<and> calls = insertion demo_fc demo_attrs True pid p \<and>
    deposits_first (ep_Transactions p)"
proof -
  obtain w' calls where run: "insertHeadBlock demo_logged demo_fc demo_attrs True (None, []) =
      (Ok (demo_exec 14 demo_attrs), (w', calls))"
    by (simp add: insertHeadBlock_def demo_logged_def logged_def demo_engine_def demo_fc_def demo_status_def
        check_payload_def lastDeposit_def isDepositTx_def DepositTxType_def demo_exec_def demo_attrs_def
        rmap_err_def rbind_def Let_def)
  have "o_l2 demo_logged = logged demo_engine" by (simp add: demo_logged_def)
  from insertHeadBlock_protocol [OF this run] run show ?thesis by (auto simp: insertion_def)
qed

text \<open>What the comparison of a derived block with the stored one leaves out: a stored block that pays
  another fee recipient than the configured one is taken for the derived block.\<close>

theorem fee_recipient_not_compared:
  "attributesMatchBlock demo_attrs 14 (demo_exec 14 demo_attrs) = Ok () \<and>
   attributesMatchBlock demo_attrs 14 ((demo_exec 14 demo_attrs)\<lparr>ep_FeeRecipient := 666\<rparr>) = Ok ()"
  by (simp add: attributesMatchBlock_Ok_iff demo_exec_def)

end
