(* ===== verification/DriverState.thy ===== *)
theory DriverState
  imports Output
begin

text \<open>
  The driver of the rollup node (\<open>op-node/rollup/driver/state.go\<close>): its state, the handlers of L1
  heads, block creation, epochs and unsafe payloads, and the event loop. A handler changes the state
  even when it returns an error, so it yields its outcome together with the state and the world it
  leaves. The event loop is a step relation: each step is one case of the \<open>select\<close>, or one action of
  the environment (a timer, a message put in a channel).
\<close>

section \<open>Connections\<close>

record 'w driver_L1Chain =
  dl1_BlockRefByNumber :: "u64 \<Rightarrow> ('w, L1BlockRef) rpc"
  dl1_BlockRefByHash :: "hash \<Rightarrow> ('w, L1BlockRef) rpc"
  dl1_HeadBlockRef :: "('w, L1BlockRef) rpc"
  dl1_Range :: "BlockID \<Rightarrow> u64 \<Rightarrow> ('w, BlockID list) rpc"

record 'w driver_L2Chain =
  dl2_ForkchoiceUpdate :: "ForkchoiceState \<Rightarrow> PayloadAttributes option \<Rightarrow> ('w, ForkchoiceUpdatedResult) rpc"
  dl2_BlockRefByNumber :: "int option \<Rightarrow> ('w, L2BlockRef) rpc"
  dl2_BlockRefByHash :: "hash \<Rightarrow> ('w, L2BlockRef) rpc"

record 'w outputInterface =
  oi_insertEpoch :: "L2BlockRef \<Rightarrow> L2BlockRef \<Rightarrow> BlockID \<Rightarrow> BlockID list \<Rightarrow> ('w, epoch_result) rpc"
  oi_createNewBlock :: "L2BlockRef \<Rightarrow> BlockID \<Rightarrow> BlockID \<Rightarrow> L1BlockRef \<Rightarrow> ('w, L2BlockRef \<times> ExecutionPayload) rpc"
  oi_processBlock :: "L2BlockRef \<Rightarrow> BlockID \<Rightarrow> BlockID \<Rightarrow> ExecutionPayload \<Rightarrow> ('w, unit) rpc"

text \<open>The network may be nil.\<close>

record 'w conns =
  c_l1 :: "'w driver_L1Chain"
  c_l2 :: "'w driver_L2Chain"
  c_output :: "'w outputInterface"
  c_network :: "(ExecutionPayload \<Rightarrow> ('w, unit) rpc) option"
  c_geth :: geth

definition sync_l1 :: "'w driver_L1Chain \<Rightarrow> 'w sync_L1Chain" where
  "sync_l1 c = \<lparr>L1HeadBlockRef = dl1_HeadBlockRef c, L1BlockRefByNumber = dl1_BlockRefByNumber c\<rparr>"

definition sync_l2 :: "'w driver_L2Chain \<Rightarrow> 'w sync_L2Chain" where
  "sync_l2 c = \<lparr>L2BlockRefByHash = dl2_BlockRefByHash c\<rparr>"

definition output_of :: "'w outputImpl \<Rightarrow> 'w outputInterface" where
  "output_of d = \<lparr>oi_insertEpoch = insertEpoch d, oi_createNewBlock = createNewBlock d,
     oi_processBlock = processBlock d\<rparr>"

section \<open>State\<close>

record driver_state =
  st_l1Head :: L1BlockRef
  st_l2Head :: L2BlockRef
  st_l2SafeHead :: L2BlockRef
  st_l2Finalized :: BlockID
  st_l1WindowBuf :: "BlockID list"
  st_Config :: Config
  st_sequencer :: bool

definition NewState :: "Config \<Rightarrow> bool \<Rightarrow> driver_state" where
  "NewState config sequencer = \<lparr>st_l1Head = L1BlockRef_zero, st_l2Head = L2BlockRef_zero,
     st_l2SafeHead = L2BlockRef_zero, st_l2Finalized = BlockID_zero, st_l1WindowBuf = [],
     st_Config = config, st_sequencer = sequencer\<rparr>"

text \<open>The outcome of a handler with the state and world it leaves; \<open>hcall\<close> makes a call and returns on
  its error with the state as it is.\<close>

type_synonym ('w, 'a) handled = "'a res \<times> driver_state \<times> 'w"

definition hcall :: "driver_state \<Rightarrow> ('w, 'a) rpc \<Rightarrow> 'w \<Rightarrow> ('a \<Rightarrow> 'w \<Rightarrow> ('w, 'b) handled) \<Rightarrow> ('w, 'b) handled" where
  "hcall s m w f = (case m w of
      (Ok x, w') \<Rightarrow> f x w'
    | (Err e, w') \<Rightarrow> (Err e, s, w')
    | (Panic p, w') \<Rightarrow> (Panic p, s, w')
    | (Diverge, w') \<Rightarrow> (Diverge, s, w'))"

definition Start :: "'w conns \<Rightarrow> driver_state \<Rightarrow> 'w \<Rightarrow> ('w, unit) handled" where
  "Start c s w =
     hcall s (dl1_HeadBlockRef (c_l1 c)) w (\<lambda>l1Head w1.
     let cfg = st_Config s; g = cfg_Genesis cfg in
     if l1_Number l1Head > id_Number (gen_L1 g) then
       hcall s (dl2_BlockRefByNumber (c_l2 c) None) w1 (\<lambda>l2Head w2.
       hcall s (FindL2Heads (sync_l1 (c_l1 c)) (sync_l2 (c_l2 c)) l2Head (cfg_SeqWindowSize cfg) g) w2
         (\<lambda>(unsafeHead, safeHead) w3.
           (Ok (), s\<lparr>st_l2Head := unsafeHead, st_l2SafeHead := safeHead, st_l1Head := l1Head\<rparr>, w3)))
     else
       let l2genesis = genesis_L2BlockRef g in
       (Ok (), s\<lparr>st_l2Head := l2genesis, st_l2SafeHead := l2genesis, st_l1Head := l1Head\<rparr>, w1))"

section \<open>Handlers\<close>

definition l1WindowBufEnd :: "driver_state \<Rightarrow> BlockID" where
  "l1WindowBufEnd s = (if st_l1WindowBuf s = [] then l2_L1Origin (st_l2SafeHead s)
                       else last (st_l1WindowBuf s))"

definition handleNewL1Block :: "'w conns \<Rightarrow> driver_state \<Rightarrow> L1BlockRef \<Rightarrow> 'w \<Rightarrow> ('w, unit) handled" where
  "handleNewL1Block c s newL1Head w =
     (if l1_Hash (st_l1Head s) = l1_Hash newL1Head then (Ok (), s, w)
      else if l1_Hash (st_l1Head s) = l1_ParentHash newL1Head then
        let s1 = s\<lparr>st_l1Head := newL1Head\<rparr> in
        if id_Hash (l1WindowBufEnd s1) = l1_ParentHash newL1Head
        then (Ok (), s1\<lparr>st_l1WindowBuf := st_l1WindowBuf s1 @ [L1BlockRef_ID newL1Head]\<rparr>, w)
        else (Ok (), s1, w)
      else
        hcall s (FindL2Heads (sync_l1 (c_l1 c)) (sync_l2 (c_l2 c)) (st_l2Head s)
                   (cfg_SeqWindowSize (st_Config s)) (cfg_Genesis (st_Config s))) w
          (\<lambda>(unsafeL2Head, safeL2Head) w1.
        let fc = \<lparr>fc_HeadBlockHash = l2_Hash unsafeL2Head, fc_SafeBlockHash = l2_Hash safeL2Head,
                  fc_FinalizedBlockHash = id_Hash (st_l2Finalized s)\<rparr> in
        hcall s (dl2_ForkchoiceUpdate (c_l2 c) fc None) w1 (\<lambda>_ w2.
        let s1 = s\<lparr>st_l1Head := newL1Head, st_l1WindowBuf := [], st_l2Head := unsafeL2Head\<rparr>;
            s2 = (if l2_Number (st_l2SafeHead s1) \<ge> l2_Number safeL2Head
                  then s1\<lparr>st_l2SafeHead := safeL2Head\<rparr> else s1) in
        (Ok (), s2, w2))))"

text \<open>A failure to get the next origin falls back to the current one.\<close>

definition findL1Origin :: "'w conns \<Rightarrow> driver_state \<Rightarrow> ('w, L1BlockRef) rpc" where
  "findL1Origin c s =
     (if id_Hash (l2_L1Origin (st_l2Head s)) = l1_Hash (st_l1Head s) then ret (st_l1Head s)
      else rbind (dl1_BlockRefByHash (c_l1 c) (id_Hash (l2_L1Origin (st_l2Head s)))) (\<lambda>currentOrigin.
        rcatch (dl1_BlockRefByNumber (c_l1 c) (l1_Number currentOrigin + 1))
          (\<lambda>e. ret currentOrigin)
          (\<lambda>nextOrigin.
            if l2_Time (st_l2Head s) + cfg_BlockTime (st_Config s) \<ge> l1_Time nextOrigin
            then ret nextOrigin else ret currentOrigin)))"

definition createNewL2Block :: "'w conns \<Rightarrow> driver_state \<Rightarrow> 'w \<Rightarrow> ('w, unit) handled" where
  "createNewL2Block c s w =
     hcall s (findL1Origin c s) w (\<lambda>l1Origin w1.
     if l1_Number l1Origin < id_Number (gen_L1 (cfg_Genesis (st_Config s))) then (Ok (), s, w1)
     else
       let nextL2Time = l2_Time (st_l2Head s) + cfg_BlockTime (st_Config s) in
       if nextL2Time < l1_Time l1Origin
       then (Err (ErrMsg ''cannot build L2 block for time before L1 origin''), s, w1)
       else
         hcall s (oi_createNewBlock (c_output c) (st_l2Head s) (L2BlockRef_ID (st_l2SafeHead s))
                    (st_l2Finalized s) l1Origin) w1 (\<lambda>(newUnsafeL2Head, payload) w2.
         let s1 = s\<lparr>st_l2Head := newUnsafeL2Head\<rparr> in
         case c_network c of None \<Rightarrow> (Ok (), s1, w2)
         | Some publish \<Rightarrow> hcall s1 (publish payload) w2 (\<lambda>_ w3. (Ok (), s1, w3))))"

text \<open>\<open>int(s.Config.SeqWindowSize)\<close> is a conversion to a signed integer; the slice expression is not.\<close>

definition short_window :: "driver_state \<Rightarrow> bool" where
  "short_window s \<longleftrightarrow> int (length (st_l1WindowBuf s)) < sint (cfg_SeqWindowSize (st_Config s))"

definition insert_window :: "'w conns \<Rightarrow> driver_state \<Rightarrow> 'w \<Rightarrow> ('w, bool) handled" where
  "insert_window c s w =
     (if short_window s then (Ok False, s, w)
      else case slice (st_l1WindowBuf s) 0 (unat (cfg_SeqWindowSize (st_Config s))) of
        Ok window \<Rightarrow>
          (case oi_insertEpoch (c_output c) (st_l2Head s) (st_l2SafeHead s) (st_l2Finalized s) window w of
             (Ok (newL2Head, newL2SafeHead, reorg, err), w') \<Rightarrow>
               (case err of
                  Some e \<Rightarrow> (Err e, s\<lparr>st_l1WindowBuf := []\<rparr>, w')
                | None \<Rightarrow> (case slice (st_l1WindowBuf s) 1 (length (st_l1WindowBuf s)) of
                    Ok rest \<Rightarrow> (Ok reorg, s\<lparr>st_l2Head := newL2Head, st_l2SafeHead := newL2SafeHead,
                                            st_l1WindowBuf := rest\<rparr>, w')
                  | _ \<Rightarrow> (Panic ''slice bounds out of range'',
                          s\<lparr>st_l2Head := newL2Head, st_l2SafeHead := newL2SafeHead\<rparr>, w')))
           | (Err e, w') \<Rightarrow> (Err e, s\<lparr>st_l1WindowBuf := []\<rparr>, w')
           | (Panic p, w') \<Rightarrow> (Panic p, s, w')
           | (Diverge, w') \<Rightarrow> (Diverge, s, w'))
      | _ \<Rightarrow> (Panic ''slice bounds out of range'', s, w))"

definition handleEpoch :: "'w conns \<Rightarrow> driver_state \<Rightarrow> 'w \<Rightarrow> ('w, bool) handled" where
  "handleEpoch c s w =
     (if short_window s then
        hcall s (dl1_Range (c_l1 c) (l1WindowBufEnd s) (2 * cfg_SeqWindowSize (st_Config s))) w (\<lambda>nexts w1.
        insert_window c (s\<lparr>st_l1WindowBuf := st_l1WindowBuf s @ nexts\<rparr>) w1)
      else insert_window c s w)"

definition handleUnsafeL2Payload :: "'w conns \<Rightarrow> driver_state \<Rightarrow> ExecutionPayload \<Rightarrow> 'w \<Rightarrow> ('w, unit) handled" where
  "handleUnsafeL2Payload c s payload w =
     (if l2_Number (st_l2SafeHead s) > ep_BlockNumber payload then (Ok (), s, w)
      else case PayloadToBlockRef (c_geth c) payload (cfg_Genesis (st_Config s)) of
          Inl e \<Rightarrow> (Err (ErrMsg ''failed to derive L2 block ref from payload''), s, w)
        | Inr l2Ref \<Rightarrow>
            hcall s (rmap_err (\<lambda>e. ErrMsg ''failed to process unsafe L2 payload'')
                      (oi_processBlock (c_output c) (st_l2Head s) (L2BlockRef_ID (st_l2SafeHead s))
                         (st_l2Finalized s) payload)) w
              (\<lambda>_ w1. (Ok (), s\<lparr>st_l2Head := l2Ref\<rparr>, w1)))"

section \<open>The event loop\<close>

text \<open>The loop's channels: two request channels with one slot, the queues of L1 heads and of unsafe
  payloads with ten, and the pending delayed requests of \<open>time.AfterFunc\<close>. \<open>ls_crashed\<close> is set by a
  panic or a handler that never returns, \<open>ls_done\<close> by closing the driver.\<close>

record loop_state =
  ls_state :: driver_state
  ls_stepReq :: bool
  ls_creationReq :: bool
  ls_l1Heads :: "L1BlockRef list"
  ls_unsafeL2Payloads :: "ExecutionPayload list"
  ls_delayed :: nat
  ls_crashed :: bool
  ls_done :: bool

definition chan_capacity :: nat where
  "chan_capacity = 10"

definition loop_start :: "driver_state \<Rightarrow> loop_state" where
  "loop_start s = \<lparr>ls_state = s, ls_stepReq = True, ls_creationReq = False, ls_l1Heads = [],
     ls_unsafeL2Payloads = [], ls_delayed = 0, ls_crashed = False, ls_done = False\<rparr>"

text \<open>A handler's error is logged and dropped; a panic ends the process.\<close>

definition after :: "loop_state \<Rightarrow> ('w, 'a) handled \<Rightarrow> loop_state \<times> 'w" where
  "after L r = (case r of (out, s', w') \<Rightarrow>
     (L\<lparr>ls_state := s', ls_crashed := (case out of Ok _ \<Rightarrow> False | Err _ \<Rightarrow> False | _ \<Rightarrow> True)\<rparr>, w'))"

definition wants_step :: "driver_state \<Rightarrow> bool" where
  "wants_step s \<longleftrightarrow> l1_Number (st_l1Head s) - id_Number (l2_L1Origin (st_l2SafeHead s))
     \<ge> cfg_SeqWindowSize (st_Config s)"

definition reqStep :: "loop_state \<Rightarrow> loop_state" where
  "reqStep L = L\<lparr>ls_stepReq := True\<rparr>"

definition reqL2BlockCreation :: "loop_state \<Rightarrow> loop_state" where
  "reqL2BlockCreation L = L\<lparr>ls_creationReq := True\<rparr>"

definition on_creationReq :: "'w conns \<Rightarrow> loop_state \<Rightarrow> 'w \<Rightarrow> loop_state \<times> 'w" where
  "on_creationReq c L w =
     (case after (L\<lparr>ls_creationReq := False\<rparr>) (createNewL2Block c (ls_state L) w) of (L1, w1) \<Rightarrow>
        let s = ls_state L1 in
        (if l1_Number (st_l1Head s) > id_Number (l2_L1Origin (st_l2Head s))
         then L1\<lparr>ls_delayed := ls_delayed L1 + 1\<rparr> else L1, w1))"

definition on_payload :: "'w conns \<Rightarrow> loop_state \<Rightarrow> ExecutionPayload \<Rightarrow> 'w \<Rightarrow> loop_state \<times> 'w" where
  "on_payload c L payload w = after L (handleUnsafeL2Payload c (ls_state L) payload w)"

definition on_l1Head :: "'w conns \<Rightarrow> loop_state \<Rightarrow> L1BlockRef \<Rightarrow> 'w \<Rightarrow> loop_state \<times> 'w" where
  "on_l1Head c L newL1Head w =
     (case after L (handleNewL1Block c (ls_state L) newL1Head w) of (L1, w1) \<Rightarrow>
        (if wants_step (ls_state L1) then reqStep L1 else L1, w1))"

definition on_stepReq :: "'w conns \<Rightarrow> loop_state \<Rightarrow> 'w \<Rightarrow> loop_state \<times> 'w" where
  "on_stepReq c L w =
     (let r = handleEpoch c (ls_state L) w in
      case after (L\<lparr>ls_stepReq := False\<rparr>) r of (L1, w1) \<Rightarrow>
        let L2 = (if fst r = Ok True \<and> st_sequencer (ls_state L1) then reqL2BlockCreation L1 else L1) in
        (if wants_step (ls_state L2) then reqStep L2 else L2, w1))"

definition running :: "loop_state \<Rightarrow> bool" where
  "running L \<longleftrightarrow> \<not> ls_crashed L \<and> \<not> ls_done L"

text \<open>\<open>l1_ok\<close> are the block references that the L1 subscription may report. The last rule lets the
  outside world change at any time.\<close>

inductive loop_step :: "'w conns \<Rightarrow> (L1BlockRef \<Rightarrow> bool) \<Rightarrow> loop_state \<times> 'w \<Rightarrow> loop_state \<times> 'w \<Rightarrow> bool"
  for c l1_ok where
  tick: "running L \<Longrightarrow> st_sequencer (ls_state L) \<Longrightarrow> loop_step c l1_ok (L, w) (reqL2BlockCreation L, w)"
| create: "running L \<Longrightarrow> ls_creationReq L \<Longrightarrow> loop_step c l1_ok (L, w) (on_creationReq c L w)"
| payload: "running L \<Longrightarrow> ls_unsafeL2Payloads L = p # ps \<Longrightarrow>
    loop_step c l1_ok (L, w) (on_payload c (L\<lparr>ls_unsafeL2Payloads := ps\<rparr>) p w)"
| l1Head: "running L \<Longrightarrow> ls_l1Heads L = h # hs \<Longrightarrow>
    loop_step c l1_ok (L, w) (on_l1Head c (L\<lparr>ls_l1Heads := hs\<rparr>) h w)"
| stepReq: "running L \<Longrightarrow> ls_stepReq L \<Longrightarrow> loop_step c l1_ok (L, w) (on_stepReq c L w)"
| "done": "running L \<Longrightarrow> loop_step c l1_ok (L, w) (L\<lparr>ls_done := True\<rparr>, w)"
| OnL1Head: "l1_ok h \<Longrightarrow> length (ls_l1Heads L) < chan_capacity \<Longrightarrow>
    loop_step c l1_ok (L, w) (L\<lparr>ls_l1Heads := ls_l1Heads L @ [h]\<rparr>, w)"
| OnUnsafeL2Payload: "length (ls_unsafeL2Payloads L) < chan_capacity \<Longrightarrow>
    loop_step c l1_ok (L, w) (L\<lparr>ls_unsafeL2Payloads := ls_unsafeL2Payloads L @ [p]\<rparr>, w)"
| AfterFunc: "ls_delayed L = Suc n \<Longrightarrow> loop_step c l1_ok (L, w) (reqL2BlockCreation (L\<lparr>ls_delayed := n\<rparr>), w)"
| environment: "loop_step c l1_ok (L, w) (L, w')"

inductive_cases loop_stepE: "loop_step c l1_ok (L, w) L'"

section \<open>The L1 window\<close>

text \<open>\<open>par\<close> gives the parent hash of an L1 block hash. A list of block IDs continues the chain from \<open>h\<close>.\<close>

fun l1_chain :: "(hash \<Rightarrow> hash) \<Rightarrow> hash \<Rightarrow> BlockID list \<Rightarrow> bool" where
  "l1_chain par h [] \<longleftrightarrow> True"
| "l1_chain par h (b # bs) \<longleftrightarrow> par (id_Hash b) = h \<and> l1_chain par (id_Hash b) bs"

definition chain_end :: "hash \<Rightarrow> BlockID list \<Rightarrow> hash" where
  "chain_end h bs = (if bs = [] then h else id_Hash (last bs))"

lemma l1_chain_append:
  "l1_chain par h (xs @ ys) \<longleftrightarrow> l1_chain par h xs \<and> l1_chain par (chain_end h xs) ys"
  by (induction xs arbitrary: h) (auto simp: chain_end_def)

definition window_ok :: "(hash \<Rightarrow> hash) \<Rightarrow> driver_state \<Rightarrow> bool" where
  "window_ok par s \<longleftrightarrow> l1_chain par (id_Hash (l2_L1Origin (st_l2SafeHead s))) (st_l1WindowBuf s)"

lemma l1WindowBufEnd_chain_end:
  "id_Hash (l1WindowBufEnd s) = chain_end (id_Hash (l2_L1Origin (st_l2SafeHead s))) (st_l1WindowBuf s)"
  by (simp add: l1WindowBufEnd_def chain_end_def)

definition head_ok :: "(hash \<Rightarrow> hash) \<Rightarrow> L1BlockRef \<Rightarrow> bool" where
  "head_ok par h \<longleftrightarrow> par (l1_Hash h) = l1_ParentHash h"

text \<open>What the window relies on: \<open>L1Range\<close> returns a chain that continues its base, and an epoch that
  was inserted has the first block of its window as L1 origin.\<close>

definition range_ok :: "(hash \<Rightarrow> hash) \<Rightarrow> 'w driver_L1Chain \<Rightarrow> bool" where
  "range_ok par l1 \<longleftrightarrow> (\<forall>base n w ids w'. dl1_Range l1 base n w = (Ok ids, w') \<longrightarrow> l1_chain par (id_Hash base) ids)"

definition epoch_origin_ok :: "'w outputInterface \<Rightarrow> bool" where
  "epoch_origin_ok out \<longleftrightarrow> (\<forall>h s f win w h' s' r w'. oi_insertEpoch out h s f win w = (Ok (h', s', r, None), w') \<longrightarrow>
     win \<noteq> [] \<and> id_Hash (l2_L1Origin s') = id_Hash (hd win))"

lemma hcall_cases:
  assumes "hcall s m w f = (r, s', w')"
  obtains (ok) x w1 where "m w = (Ok x, w1)" "f x w1 = (r, s', w')"
  | (fail) "s' = s" "\<nexists>x. r = Ok x"
  using assms by (auto simp: hcall_def split: prod.splits res.splits)

lemma handleNewL1Block_window:
  assumes "window_ok par s" and "head_ok par h" and "handleNewL1Block c s h w = (r, s', w')"
  shows "window_ok par s'"
proof -
  have ext: "window_ok par (s\<lparr>st_l1Head := h, st_l1WindowBuf := st_l1WindowBuf s @ [L1BlockRef_ID h]\<rparr>)"
    if "id_Hash (l1WindowBufEnd (s\<lparr>st_l1Head := h\<rparr>)) = l1_ParentHash h"
    using assms(1,2) that by (simp add: window_ok_def l1_chain_append l1WindowBufEnd_chain_end head_ok_def)
  show ?thesis
    using assms(1,3) ext unfolding handleNewL1Block_def
    by (auto simp: Let_def window_ok_def elim!: hcall_cases split: if_splits prod.splits)
qed

lemma insert_window_window:
  assumes "epoch_origin_ok (c_output c)" and "window_ok par s" and "insert_window c s w = (r, s', w')"
    and "\<forall>m. r \<noteq> Panic m"
  shows "window_ok par s'"
proof (cases "st_l1WindowBuf s' = [] \<or> s' = s")
  case True
  with assms(2) show ?thesis by (auto simp: window_ok_def)
next
  case False
  then obtain win h' sh reorg where
      win: "slice (st_l1WindowBuf s) 0 (unat (cfg_SeqWindowSize (st_Config s))) = Ok win"
    and ep: "oi_insertEpoch (c_output c) (st_l2Head s) (st_l2SafeHead s) (st_l2Finalized s) win w =
        (Ok (h', sh, reorg, None), w')"
    and s': "st_l2SafeHead s' = sh" "st_l1WindowBuf s' = drop 1 (st_l1WindowBuf s)"
    using assms(3,4) by (auto simp: insert_window_def slice_def split: if_splits prod.splits res.splits option.splits)
  from assms(1) ep have o: "win \<noteq> []" "id_Hash (l2_L1Origin sh) = id_Hash (hd win)"
    unfolding epoch_origin_ok_def by blast+
  from win have "win = take (unat (cfg_SeqWindowSize (st_Config s))) (st_l1WindowBuf s)"
    by (auto simp: slice_def split: if_splits)
  with o(1) obtain b rest where b: "st_l1WindowBuf s = b # rest" "hd win = b"
    by (cases "st_l1WindowBuf s") (auto simp: take_Cons split: nat.splits)
  with assms(2) o(2) s' show ?thesis by (simp add: window_ok_def)
qed

lemma handleEpoch_window:
  assumes "range_ok par (c_l1 c)" and "epoch_origin_ok (c_output c)" and "window_ok par s"
    and "handleEpoch c s w = (r, s', w')" and "\<forall>m. r \<noteq> Panic m"
  shows "window_ok par s'"
proof (cases "short_window s")
  case True
  have "window_ok par (s\<lparr>st_l1WindowBuf := st_l1WindowBuf s @ nexts\<rparr>)"
    if "dl1_Range (c_l1 c) (l1WindowBufEnd s) n w = (Ok nexts, w1)" for n nexts w1
  proof -
    have "l1_chain par (id_Hash (l1WindowBufEnd s)) nexts"
      using assms(1) that unfolding range_ok_def by blast
    with assms(3) show ?thesis by (simp add: window_ok_def l1_chain_append l1WindowBufEnd_chain_end)
  qed
  note ext = this
  from True assms(4) have "hcall s (dl1_Range (c_l1 c) (l1WindowBufEnd s) (2 * cfg_SeqWindowSize (st_Config s))) w
      (\<lambda>nexts w1. insert_window c (s\<lparr>st_l1WindowBuf := st_l1WindowBuf s @ nexts\<rparr>) w1) = (r, s', w')"
    by (simp add: handleEpoch_def)
  then show ?thesis
  proof (cases rule: hcall_cases)
    case (ok x w1)
    then show ?thesis using insert_window_window [OF assms(2) ext [OF ok(1)] ok(2) assms(5)] by simp
  qed (use assms(3) in simp)
next
  case False
  with assms(2-5) show ?thesis by (auto simp: handleEpoch_def intro: insert_window_window)
qed

lemma createNewL2Block_window:
  assumes "window_ok par s" and "createNewL2Block c s w = (r, s', w')"
  shows "window_ok par s'"
  using assms unfolding createNewL2Block_def
  by (auto simp: Let_def window_ok_def elim!: hcall_cases split: if_splits prod.splits option.splits)

lemma handleUnsafeL2Payload_window:
  assumes "window_ok par s" and "handleUnsafeL2Payload c s p w = (r, s', w')"
  shows "window_ok par s'"
  using assms unfolding handleUnsafeL2Payload_def
  by (auto simp: window_ok_def elim!: hcall_cases split: if_splits sum.splits)

section \<open>The loop keeps the window\<close>

definition coherent :: "(hash \<Rightarrow> hash) \<Rightarrow> 'w conns \<Rightarrow> bool" where
  "coherent par c \<longleftrightarrow> range_ok par (c_l1 c) \<and> epoch_origin_ok (c_output c)"

definition loop_inv :: "(hash \<Rightarrow> hash) \<Rightarrow> loop_state \<Rightarrow> bool" where
  "loop_inv par L \<longleftrightarrow> (\<forall>h \<in> set (ls_l1Heads L). head_ok par h) \<and> (\<not> ls_crashed L \<longrightarrow> window_ok par (ls_state L))"

text \<open>The loop state is only read and written through these fields.\<close>

lemma request_fields [simp]:
  "ls_l1Heads (reqStep L) = ls_l1Heads L" "ls_crashed (reqStep L) = ls_crashed L" "ls_state (reqStep L) = ls_state L"
  "ls_l1Heads (reqL2BlockCreation L) = ls_l1Heads L" "ls_crashed (reqL2BlockCreation L) = ls_crashed L"
  "ls_state (reqL2BlockCreation L) = ls_state L"
  by (simp_all add: reqStep_def reqL2BlockCreation_def)

lemma after_inv:
  assumes "\<forall>h \<in> set (ls_l1Heads L). head_ok par h"
    and "\<And>r s' w'. res = (r, s', w') \<Longrightarrow> \<forall>m. r \<noteq> Panic m \<Longrightarrow> window_ok par s'"
  shows "loop_inv par (fst (after L res))"
  using assms by (auto simp: loop_inv_def after_def split: prod.splits res.splits)

lemma loop_step_inv:
  assumes c: "coherent par c" and inv: "loop_inv par L" and st: "loop_step c (head_ok par) (L, w) (L', w')"
  shows "loop_inv par L'"
proof -
  have heads: "\<forall>h \<in> set (ls_l1Heads L). head_ok par h" using inv by (simp add: loop_inv_def)
  have win: "running L \<Longrightarrow> window_ok par (ls_state L)" using inv by (simp add: loop_inv_def running_def)
  from st show ?thesis
  proof (cases rule: loop_step.cases)
    case create
    let ?a = "after (L\<lparr>ls_creationReq := False\<rparr>) (createNewL2Block c (ls_state L) w)"
    have "loop_inv par (fst ?a)"
      using heads win [OF create(2)] by (intro after_inv) (auto dest: createNewL2Block_window)
    then show ?thesis
      using create(1) by (auto simp: on_creationReq_def loop_inv_def Let_def split: prod.splits if_splits)
  next
    case (payload p ps)
    have "loop_inv par (fst (on_payload c (L\<lparr>ls_unsafeL2Payloads := ps\<rparr>) p w))"
      unfolding on_payload_def
      using heads win [OF payload(2)] by (intro after_inv) (auto dest: handleUnsafeL2Payload_window)
    then show ?thesis using payload(1) by (metis fst_conv)
  next
    case (l1Head h hs)
    let ?a = "after (L\<lparr>ls_l1Heads := hs\<rparr>) (handleNewL1Block c (ls_state L) h w)"
    have "head_ok par h" using heads l1Head(3) by simp
    then have "loop_inv par (fst ?a)"
      using heads l1Head(3) win [OF l1Head(2)]
      by (intro after_inv) (auto dest: handleNewL1Block_window)
    then show ?thesis
      using l1Head(1) by (auto simp: on_l1Head_def loop_inv_def split: prod.splits if_splits)
  next
    case stepReq
    let ?a = "after (L\<lparr>ls_stepReq := False\<rparr>) (handleEpoch c (ls_state L) w)"
    have "loop_inv par (fst ?a)"
      using heads win [OF stepReq(2)] c
      by (intro after_inv) (auto simp: coherent_def dest: handleEpoch_window)
    then show ?thesis
      using stepReq(1) by (auto simp: on_stepReq_def loop_inv_def Let_def split: prod.splits if_splits)
  qed (use inv in \<open>auto simp: loop_inv_def running_def\<close>)
qed

lemma loop_start_inv: "st_l1WindowBuf s = [] \<Longrightarrow> loop_inv par (loop_start s)"
  by (simp add: loop_inv_def loop_start_def window_ok_def)

interpretation driver: step_invariant
    "\<lambda>(L, w). coherent par c \<and> (\<exists>s. L = loop_start s \<and> st_l1WindowBuf s = [])"
    "loop_step c (head_ok par)"
    "\<lambda>(L, w). coherent par c \<and> loop_inv par L"
  by unfold_locales (auto intro: loop_start_inv loop_step_inv)

lemma Start_window:
  assumes "Start c (NewState cfg seq) w = (Ok (), s, w')"
  shows "st_l1WindowBuf s = []"
  using assms unfolding Start_def NewState_def
  by (auto simp: Let_def elim!: hcall_cases split: if_splits prod.splits)

section \<open>The output contract\<close>

locale output_contract =
  fixes out :: "'w outputInterface"
  assumes epoch_heads: "oi_insertEpoch out h s f win w = (Ok r, w') \<Longrightarrow> heads_ok h r"
begin

lemma insert_window_heads:
  assumes "insert_window c s w = (r, s', w')" and "c_output c = out"
  shows "st_l2Head s' = st_l2Head s \<or> st_l2Head s' = st_l2SafeHead s'"
proof (cases "st_l2Head s' = st_l2Head s")
  case False
  then obtain win reorg where "oi_insertEpoch out (st_l2Head s) (st_l2SafeHead s) (st_l2Finalized s) win w =
      (Ok (st_l2Head s', st_l2SafeHead s', reorg, None), w')"
    using assms by (auto simp: insert_window_def split: if_splits prod.splits res.splits option.splits)
  from epoch_heads [OF this] show ?thesis by (auto simp: heads_ok_def)
qed simp

lemma handleEpoch_heads:
  assumes "handleEpoch c s w = (r, s', w')" and "c_output c = out"
  shows "st_l2Head s' = st_l2Head s \<or> st_l2Head s' = st_l2SafeHead s'"
  using assms insert_window_heads
  by (fastforce simp: handleEpoch_def elim!: hcall_cases split: if_splits)

end

interpretation impl: output_contract "output_of d"
  by unfold_locales (auto simp: output_of_def intro: insertEpoch_heads)

section \<open>Properties\<close>


text \<open>A small environment: an L1 chain in which the block with hash \<open>h\<close> has parent \<open>h - 1\<close>, and an output
  that accepts every window.\<close>

definition demo_range :: "BlockID \<Rightarrow> BlockID list" where
  "demo_range b = [\<lparr>id_Hash = id_Hash b + 1, id_Number = id_Number b + 1\<rparr>,
     \<lparr>id_Hash = id_Hash b + 2, id_Number = id_Number b + 2\<rparr>, \<lparr>id_Hash = id_Hash b + 3, id_Number = id_Number b + 3\<rparr>]"

definition demo_conns :: "unit conns" where
  "demo_conns = \<lparr>
     c_l1 = \<lparr>dl1_BlockRefByNumber = (\<lambda>n. ret (demo_canon n)), dl1_BlockRefByHash = (\<lambda>h. lift_res (Err NotFound)),
        dl1_HeadBlockRef = ret (demo_canon 0), dl1_Range = (\<lambda>b n. ret (demo_range b))\<rparr>,
     c_l2 = \<lparr>dl2_ForkchoiceUpdate = (\<lambda>fc a. ret \<lparr>fr_PayloadStatus = demo_status, fr_PayloadID = None\<rparr>),
        dl2_BlockRefByNumber = (\<lambda>n. lift_res (Err NotFound)), dl2_BlockRefByHash = (\<lambda>h. lift_res (Err NotFound))\<rparr>,
     c_output = \<lparr>oi_insertEpoch = (\<lambda>h s f win. case win of [] \<Rightarrow> lift_res (Err NotFound)
          | b # _ \<Rightarrow> let s' = s\<lparr>l2_Hash := l2_Hash s + 1, l2_L1Origin := b\<rparr> in ret (s', s', False, None)),
        oi_createNewBlock = (\<lambda>h s f o1. ret (h\<lparr>l2_Hash := l2_Hash h + 1\<rparr>, demo_payload)),
        oi_processBlock = (\<lambda>h s f p. ret ())\<rparr>,
     c_network = None, c_geth = demo_geth\<rparr>"

lemma demo_coherent: "coherent (\<lambda>h. h - 1) demo_conns"
  unfolding coherent_def range_ok_def epoch_origin_ok_def
  by (auto simp: demo_conns_def demo_range_def Let_def split: list.splits)

definition demo_started :: driver_state where
  "demo_started = (NewState demo_config False)\<lparr>st_l2Head := genesis_L2BlockRef (cfg_Genesis demo_config),
     st_l2SafeHead := genesis_L2BlockRef (cfg_Genesis demo_config), st_l1Head := demo_canon 0\<rparr>"

lemma demo_Start: "Start demo_conns (NewState demo_config False) () = (Ok (), demo_started, ())"
  by (simp add: Start_def demo_conns_def hcall_def NewState_def demo_config_def demo_canon_def demo_started_def Let_def)


lemma handleNewL1Block_Err: "handleNewL1Block c s h w = (Err e, s', w') \<Longrightarrow> s' = s"
  unfolding handleNewL1Block_def
  by (auto simp: Let_def elim!: hcall_cases split: if_splits prod.splits)

lemma insert_window_Err: "insert_window c s w = (Err e, s', w') \<Longrightarrow> s' = s\<lparr>st_l1WindowBuf := []\<rparr>"
  by (auto simp: insert_window_def split: if_splits prod.splits res.splits option.splits)

lemma handleEpoch_Err: "handleEpoch c s w = (Err e, s', w') \<Longrightarrow> s' = s \<or> s' = s\<lparr>st_l1WindowBuf := []\<rparr>"
  by (auto simp: handleEpoch_def elim!: hcall_cases dest!: insert_window_Err split: if_splits)

lemma handleUnsafeL2Payload_Err: "handleUnsafeL2Payload c s p w = (Err e, s', w') \<Longrightarrow> s' = s"
  by (auto simp: handleUnsafeL2Payload_def elim!: hcall_cases split: if_splits sum.splits)

lemma createNewL2Block_cases:
  assumes "createNewL2Block c s w = (r, s', w')"
  obtains (skip) "s' = s"
  | (made) l1Origin w1 ref payload w2 where
      "findL1Origin c s w = (Ok l1Origin, w1)"
      "id_Number (gen_L1 (cfg_Genesis (st_Config s))) \<le> l1_Number l1Origin"
      "l1_Time l1Origin \<le> l2_Time (st_l2Head s) + cfg_BlockTime (st_Config s)"
      "oi_createNewBlock (c_output c) (st_l2Head s) (L2BlockRef_ID (st_l2SafeHead s)) (st_l2Finalized s) l1Origin w1 =
         (Ok (ref, payload), w2)"
      "s' = s\<lparr>st_l2Head := ref\<rparr>"
      "case c_network c of None \<Rightarrow> r = Ok () \<and> w' = w2
         | Some publish \<Rightarrow> publish payload w2 = (map_err (\<lambda>e. e) r, w')"
  using assms unfolding createNewL2Block_def
proof (cases rule: hcall_cases)
  case (ok l1Origin w1)
  show thesis
  proof (cases "s' = s")
    case False
    with ok(2) have ng: "\<not> l1_Number l1Origin < id_Number (gen_L1 (cfg_Genesis (st_Config s)))"
        "\<not> l2_Time (st_l2Head s) + cfg_BlockTime (st_Config s) < l1_Time l1Origin"
      by (auto simp: Let_def split: if_splits)
    then have g: "id_Number (gen_L1 (cfg_Genesis (st_Config s))) \<le> l1_Number l1Origin"
        "l1_Time l1Origin \<le> l2_Time (st_l2Head s) + cfg_BlockTime (st_Config s)"
      by (simp_all add: not_less)
    from ng have "hcall s (oi_createNewBlock (c_output c) (st_l2Head s) (L2BlockRef_ID (st_l2SafeHead s))
        (st_l2Finalized s) l1Origin) w1 (\<lambda>(ref, payload) w2.
          let s1 = s\<lparr>st_l2Head := ref\<rparr> in
          case c_network c of None \<Rightarrow> (Ok (), s1, w2)
          | Some publish \<Rightarrow> hcall s1 (publish payload) w2 (\<lambda>_ w3. (Ok (), s1, w3))) = (r, s', w')"
      using ok(2) by (simp add: Let_def)
    then show thesis
    proof (cases rule: hcall_cases)
      case created: (ok x w2)
      obtain ref payload where x: "x = (ref, payload)" by (cases x)
      show thesis
        by (rule made [OF ok(1) g, of ref payload w2])
           (use created x in \<open>auto simp: Let_def hcall_def split: option.splits prod.splits res.splits\<close>)
    qed (use False in simp)
  qed (rule skip)
qed (rule skip)

text \<open>An error never moves the chain state. When a handler returns an error the L1 head, both L2
  heads and the finalized block are as before. There is one exception, which the theorem states:
  block creation that fails only in publishing keeps the block it made as the new head. A failed
  epoch clears the buffered L1 window; the other handlers keep it.\<close>

theorem handler_errors_keep_heads:
  "(handleNewL1Block c s h w = (Err e, s', w') \<longrightarrow> s' = s) \<and>
   (handleEpoch c s w = (Err e, s', w') \<longrightarrow> s' = s \<or> s' = s\<lparr>st_l1WindowBuf := []\<rparr>) \<and>
   (handleUnsafeL2Payload c s p w = (Err e, s', w') \<longrightarrow> s' = s) \<and>
   (createNewL2Block c s w = (Err e, s', w') \<longrightarrow> s' = s \<or>
     (\<exists>publish payload ref w2. c_network c = Some publish \<and> publish payload w2 = (Err e, w') \<and>
        s' = s\<lparr>st_l2Head := ref\<rparr>))"
proof -
  have "createNewL2Block c s w = (Err e, s', w') \<longrightarrow> s' = s \<or> (\<exists>publish payload ref w2. c_network c = Some publish \<and>
      publish payload w2 = (Err e, w') \<and> s' = s\<lparr>st_l2Head := ref\<rparr>)"
  proof
    assume "createNewL2Block c s w = (Err e, s', w')"
    then show "s' = s \<or> (\<exists>publish payload ref w2. c_network c = Some publish \<and>
        publish payload w2 = (Err e, w') \<and> s' = s\<lparr>st_l2Head := ref\<rparr>)"
      by (cases rule: createNewL2Block_cases) (auto split: option.splits)
  qed
  then show ?thesis
    by (intro conjI impI) (simp_all add: handleNewL1Block_Err handleEpoch_Err handleUnsafeL2Payload_Err)
qed

theorem handler_errors_keep_heads_witness:
  "handleUnsafeL2Payload demo_conns demo_started (demo_payload\<lparr>ep_Transactions := []\<rparr>) () =
     (Err (ErrMsg ''failed to derive L2 block ref from payload''), demo_started, ())"
proof -
  obtain r s' where run: "handleUnsafeL2Payload demo_conns demo_started (demo_payload\<lparr>ep_Transactions := []\<rparr>) () =
      (Err (ErrMsg ''failed to derive L2 block ref from payload''), s', ())"
    by (simp add: handleUnsafeL2Payload_def demo_started_def genesis_L2BlockRef_def demo_config_def
        NewState_def PayloadToBlockRef_def demo_payload_def)
  then have "s' = demo_started"
    using handler_errors_keep_heads [of demo_conns demo_started _ "()" _ s' "()" "demo_payload\<lparr>ep_Transactions := []\<rparr>"]
    by simp
  with run show ?thesis by simp
qed

text \<open>C15: What a sequencer builds on. Whenever \<open>createNewL2Block\<close> changes the head, the new block was made
  for an L1 origin that is at or above the L1 genesis and not later than the new block's time, and
  it is the L1 head, the current origin of the head, or the L1 block one above that; a failed look-up
  of the next origin falls back to the current one. Only the head changes.\<close>

theorem sequencer_origin:
  assumes "createNewL2Block c s w = (r, s', w')" and "s' \<noteq> s"
  shows "\<exists>l1Origin ref. s' = s\<lparr>st_l2Head := ref\<rparr> \<and>
    (\<exists>w1 payload w2. oi_createNewBlock (c_output c) (st_l2Head s) (L2BlockRef_ID (st_l2SafeHead s)) (st_l2Finalized s)
        l1Origin w1 = (Ok (ref, payload), w2)) \<and>
    id_Number (gen_L1 (cfg_Genesis (st_Config s))) \<le> l1_Number l1Origin \<and>
    l1_Time l1Origin \<le> l2_Time (st_l2Head s) + cfg_BlockTime (st_Config s) \<and>
    (l1Origin = st_l1Head s \<and> l1_Hash l1Origin = id_Hash (l2_L1Origin (st_l2Head s)) \<or>
     (\<exists>w1 current w2. dl1_BlockRefByHash (c_l1 c) (id_Hash (l2_L1Origin (st_l2Head s))) w1 = (Ok current, w2) \<and>
        (l1Origin = current \<or> (\<exists>w3. dl1_BlockRefByNumber (c_l1 c) (l1_Number current + 1) w2 = (Ok l1Origin, w3)))))"
  using assms(1)
proof (cases rule: createNewL2Block_cases)
  case (made l1Origin w1 ref payload w2)
  have "l1Origin = st_l1Head s \<and> l1_Hash l1Origin = id_Hash (l2_L1Origin (st_l2Head s)) \<or>
     (\<exists>w1 current w2. dl1_BlockRefByHash (c_l1 c) (id_Hash (l2_L1Origin (st_l2Head s))) w1 = (Ok current, w2) \<and>
        (l1Origin = current \<or> (\<exists>w3. dl1_BlockRefByNumber (c_l1 c) (l1_Number current + 1) w2 = (Ok l1Origin, w3))))"
    using made(1) by (fastforce simp: findL1Origin_def res_simps split: if_splits)
  with made(2-5) show ?thesis by blast
qed (use assms(2) in simp)

theorem sequencer_origin_witness:
  "\<exists>(l1Origin :: L1BlockRef) ref. snd (createNewL2Block demo_conns demo_started ()) = (demo_started\<lparr>st_l2Head := ref\<rparr>, ()) \<and>
     id_Number (gen_L1 (cfg_Genesis (st_Config demo_started))) \<le> l1_Number l1Origin \<and>
     l1_Time l1Origin \<le> l2_Time (st_l2Head demo_started) + cfg_BlockTime (st_Config demo_started)"
proof -
  obtain r s' where run: "createNewL2Block demo_conns demo_started () = (r, s', ())"
    by (metis prod.exhaust old.unit.exhaust)
  have "s' \<noteq> demo_started"
    using run by (auto simp: createNewL2Block_def findL1Origin_def demo_started_def genesis_L2BlockRef_def
        demo_config_def NewState_def demo_canon_def hcall_def demo_conns_def)
  from sequencer_origin [OF run this] obtain l1Origin :: L1BlockRef and ref where
    "s' = demo_started\<lparr>st_l2Head := ref\<rparr>"
    "id_Number (gen_L1 (cfg_Genesis (st_Config demo_started))) \<le> l1_Number l1Origin"
    "l1_Time l1Origin \<le> l2_Time (st_l2Head demo_started) + cfg_BlockTime (st_Config demo_started)"
    by blast
  with run show ?thesis by (intro exI [of _ l1Origin] exI [of _ ref]) simp
qed

text \<open>The head after an epoch, with the real output (\<open>outputImpl\<close>) wired in: \<open>handleEpoch\<close> leaves the
  unsafe head alone or sets it to the new safe head. So it never rolls the unsafe chain to any block
  other than the one derived from L1.\<close>

theorem handleEpoch_head:
  assumes "c_output c = output_of d" and "handleEpoch c s w = (r, s', w')"
  shows "st_l2Head s' = st_l2Head s \<or> st_l2Head s' = st_l2SafeHead s'"
  using assms(2,1) by (rule impl.handleEpoch_heads)

definition demo_wired :: "ExecutionPayload option conns" where
  "demo_wired = \<lparr>
     c_l1 = \<lparr>dl1_BlockRefByNumber = (\<lambda>n. ret (demo_canon n)), dl1_BlockRefByHash = (\<lambda>h. lift_res (Err NotFound)),
        dl1_HeadBlockRef = ret (demo_canon 0), dl1_Range = (\<lambda>b n. ret demo_window)\<rparr>,
     c_l2 = \<lparr>dl2_ForkchoiceUpdate = (\<lambda>fc a. ret \<lparr>fr_PayloadStatus = demo_status, fr_PayloadID = None\<rparr>),
        dl2_BlockRefByNumber = (\<lambda>n. lift_res (Err NotFound)), dl2_BlockRefByHash = (\<lambda>h. lift_res (Err NotFound))\<rparr>,
     c_output = output_of demo_output, c_network = None, c_geth = demo_geth\<rparr>"

theorem handleEpoch_head_witness:
  "\<exists>r s' w'. handleEpoch demo_wired (demo_started\<lparr>st_l2Head := demo_safe, st_l2SafeHead := demo_safe\<rparr>) None = (r, s', w') \<and>
     r = Ok False \<and> st_l1WindowBuf s' = [\<lparr>id_Hash = 101, id_Number = 8\<rparr>] \<and>
     (st_l2Head s' = demo_safe \<or> st_l2Head s' = st_l2SafeHead s')"
proof -
  let ?s = "demo_started\<lparr>st_l2Head := demo_safe, st_l2SafeHead := demo_safe\<rparr>"
  obtain x w' where "insertEpoch demo_output demo_safe demo_safe BlockID_zero demo_window None = (Ok (x, x, False, None), w')"
    using demo_insertEpoch by blast
  then obtain s' where run: "handleEpoch demo_wired ?s None = (Ok False, s', w')"
      "st_l1WindowBuf s' = [\<lparr>id_Hash = 101, id_Number = 8\<rparr>]"
    by (simp add: handleEpoch_def short_window_def demo_started_def NewState_def demo_config_def hcall_def
        demo_wired_def insert_window_def slice_def output_of_def demo_window_def)
  have "st_l2Head s' = st_l2Head ?s \<or> st_l2Head s' = st_l2SafeHead s'"
    by (rule handleEpoch_head [of demo_wired demo_output, OF _ run(1)]) (simp add: demo_wired_def)
  with run show ?thesis by simp
qed

text \<open>The distance from the safe head's L1 origin to the L1 head is an unsigned difference. While the
  L1 node is below the origin (a node started before the L1 chain reaches the rollup's genesis block)
  it wraps to a huge number, so every step request makes the next one at once, whatever the outcome:
  the loop polls without pause until L1 catches up.\<close>

theorem step_request_rearms_below_origin:
  assumes "l1_Number (st_l1Head s) = 5" and "id_Number (l2_L1Origin (st_l2SafeHead s)) = 8"
    and "cfg_SeqWindowSize (st_Config s) = 4"
    and "handleEpoch c s w = (Err e, s', w')" and "ls_state L = s"
  shows "ls_stepReq (fst (on_stepReq c L w))"
proof -
  have "s' = s \<or> s' = s\<lparr>st_l1WindowBuf := []\<rparr>" using assms(4) by (rule handleEpoch_Err)
  then have "wants_step s'" using assms(1-3) by (auto simp: wants_step_def)
  then show ?thesis
    using assms(4,5) by (simp add: on_stepReq_def after_def Let_def reqStep_def)
qed

end
