(* ===== verification/L1Source.thy ===== *)
theory L1Source
  imports DriverState
begin

text \<open>
  The L1 source (\<open>op-node/l1/source.go\<close>, \<open>types.go\<close>, \<open>receipts.go\<close>): headers, transactions and
  receipts of L1 blocks, verified against the block hash when the RPC is not trusted, with caches.
  The RPC connection and the LRU caches are outside the repository. A method works on the pair of
  the caches and the world, so that it has the type the driver's interfaces ask for.
\<close>

section \<open>Configuration (source.go)\<close>

record SourceConfig =
  sc_MaxParallelBatching :: int
  sc_MaxBatchRetry :: int
  sc_MaxRequestsPerBatch :: int
  sc_MaxConcurrentRequests :: int
  sc_ReceiptsCacheSize :: int
  sc_TransactionsCacheSize :: int
  sc_HeadersCacheSize :: int
  sc_TrustRPC :: bool

definition SourceConfig_Check :: "SourceConfig \<Rightarrow> unit res" where
  "SourceConfig_Check c =
     (if sc_ReceiptsCacheSize c < 0 then Err (ErrMsg ''invalid receipts cache size'')
      else if sc_TransactionsCacheSize c < 0 then Err (ErrMsg ''invalid transactions cache size'')
      else if sc_HeadersCacheSize c < 0 then Err (ErrMsg ''invalid headers cache size'')
      else if sc_MaxConcurrentRequests c < 1 then Err (ErrMsg ''expected at least 1 concurrent request'')
      else if sc_MaxParallelBatching c < 1 then Err (ErrMsg ''expected at least 1 batch request to run at a time'')
      else if sc_MaxBatchRetry c < 0 \<or> sc_MaxBatchRetry c > 20
        then Err (ErrMsg ''number of max batch retries is not reasonable'')
      else if sc_MaxRequestsPerBatch c < 1 then Err (ErrMsg ''expected at least 1 request per batch'')
      else Ok ())"

definition DefaultConfig :: "Config \<Rightarrow> bool \<Rightarrow> SourceConfig" where
  "DefaultConfig config trustRPC =
     \<lparr>sc_MaxParallelBatching = 8, sc_MaxBatchRetry = 3, sc_MaxRequestsPerBatch = 20,
      sc_MaxConcurrentRequests = 10, sc_ReceiptsCacheSize = 20,
      sc_TransactionsCacheSize = sint (cfg_SeqWindowSize config * 4),
      sc_HeadersCacheSize = sint (cfg_SeqWindowSize config * 4), sc_TrustRPC = trustRPC\<rparr>"

section \<open>RPC data (types.go)\<close>

record rpcHeader =
  rh_cacheHash :: hash
  rh_header :: Header

record rpcBlock =
  rb_header :: rpcHeader
  rb_Transactions :: "Transaction list"

definition header_info :: "hash \<Rightarrow> Header \<Rightarrow> HeaderInfo" where
  "header_info hash h = \<lparr>hi_hash = hash, hi_parentHash = h_ParentHash h, hi_root = h_Root h,
     hi_number = of_int (h_Number h), hi_time = h_Time h, hi_mixDigest = h_MixDigest h,
     hi_baseFee = h_BaseFee h, hi_txHash = h_TxHash h, hi_receiptHash = h_ReceiptHash h\<rparr>"

definition rpcHeader_Info :: "header_lib \<Rightarrow> rpcHeader \<Rightarrow> bool \<Rightarrow> error + HeaderInfo" where
  "rpcHeader_Info H header trustCache =
     (let info = header_info (rh_cacheHash header) (rh_header header) in
      if \<not> trustCache \<and> Header_Hash H (rh_header header) \<noteq> hi_hash info
      then Inl (ErrMsg ''failed to verify block hash'')
      else Inr info)"

definition rpcBlock_Info :: "header_lib \<Rightarrow> rpcBlock \<Rightarrow> bool \<Rightarrow> error + HeaderInfo \<times> Transaction list" where
  "rpcBlock_Info H block trustCache =
     (case rpcHeader_Info H (rb_header block) trustCache of
        Inl e \<Rightarrow> Inl (ErrMsg ''failed to verify block from RPC'')
      | Inr info \<Rightarrow>
          if \<not> trustCache \<and> hi_txHash info \<noteq> DeriveSha_txs H (rb_Transactions block)
          then Inl (ErrMsg ''failed to verify transactions list'')
          else Inr (info, rb_Transactions block))"

section \<open>The source\<close>

datatype block_sel = ByHash hash | ByNumber u64 | Latest

datatype batch_req = BlockReq hash | HeaderReq u64 | ReceiptReq hash

datatype batch_res = BlockRes rpcBlock | HeaderRes "rpcHeader option" | ReceiptRes "Receipt option"

text \<open>\<open>rpc.BatchElem\<close>: the request, the result behind its pointer, and the error of the element.\<close>

record BatchElem =
  be_Req :: batch_req
  be_Result :: batch_res
  be_Error :: "error option"

text \<open>The caches are values of a type \<open>'c\<close> with the operations of \<open>golang-lru\<close>; reading changes the
  recency.\<close>

record 'c caches =
  hdr_Get :: "hash \<Rightarrow> 'c \<Rightarrow> HeaderInfo option \<times> 'c"
  hdr_Add :: "hash \<Rightarrow> HeaderInfo \<Rightarrow> 'c \<Rightarrow> 'c"
  txs_Get :: "hash \<Rightarrow> 'c \<Rightarrow> Transaction list option \<times> 'c"
  txs_Add :: "hash \<Rightarrow> Transaction list \<Rightarrow> 'c \<Rightarrow> 'c"
  rcp_Add :: "hash \<Rightarrow> Receipt list \<Rightarrow> 'c \<Rightarrow> 'c"

record ('c, 'w) l1_source =
  s_headerCall :: "block_sel \<Rightarrow> ('w, rpcHeader option) rpc"   \<comment> \<open>\<open>client.CallContext\<close>, block without transactions\<close>
  s_blockCall :: "block_sel \<Rightarrow> ('w, rpcBlock option) rpc"     \<comment> \<open>\<open>client.CallContext\<close>, block with transactions\<close>
  s_batchCall :: "BatchElem list \<Rightarrow> ('w, BatchElem list) rpc" \<comment> \<open>the elements as the call leaves them\<close>
  s_trustRPC :: bool
  s_caches :: "'c caches"
  s_hlib :: header_lib

definition on_world :: "('w, 'a) rpc \<Rightarrow> ('c \<times> 'w, 'a) rpc" where
  "on_world m = (\<lambda>(c, w). case m w of (r, w') \<Rightarrow> (r, (c, w')))"

definition on_cache :: "('c \<Rightarrow> 'a \<times> 'c) \<Rightarrow> ('c \<times> 'w, 'a) rpc" where
  "on_cache f = (\<lambda>(c, w). case f c of (x, c') \<Rightarrow> (Ok x, (c', w)))"

definition add_header :: "('c, 'w) l1_source \<Rightarrow> HeaderInfo \<Rightarrow> ('c \<times> 'w, unit) rpc" where
  "add_header s info = on_cache (\<lambda>c. ((), hdr_Add (s_caches s) (hi_hash info) info c))"

definition add_txs :: "('c, 'w) l1_source \<Rightarrow> HeaderInfo \<Rightarrow> Transaction list \<Rightarrow> ('c \<times> 'w, unit) rpc" where
  "add_txs s info txs = on_cache (\<lambda>c. ((), txs_Add (s_caches s) (hi_hash info) txs c))"

definition headerCall :: "('c, 'w) l1_source \<Rightarrow> block_sel \<Rightarrow> ('c \<times> 'w, HeaderInfo) rpc" where
  "headerCall s sel =
     rbind (on_world (s_headerCall s sel)) (\<lambda>header. case header of
       None \<Rightarrow> lift_res (Err NotFound)
     | Some h \<Rightarrow> rbind (lift_res (of_sum (rpcHeader_Info (s_hlib s) h (s_trustRPC s)))) (\<lambda>info.
         rbind (add_header s info) (\<lambda>_. ret info)))"

definition blockCall :: "('c, 'w) l1_source \<Rightarrow> block_sel \<Rightarrow> ('c \<times> 'w, HeaderInfo \<times> Transaction list) rpc" where
  "blockCall s sel =
     rbind (on_world (s_blockCall s sel)) (\<lambda>block. case block of
       None \<Rightarrow> lift_res (Err NotFound)
     | Some b \<Rightarrow> rbind (lift_res (of_sum (rpcBlock_Info (s_hlib s) b (s_trustRPC s)))) (\<lambda>(info, txs).
         rbind (add_header s info) (\<lambda>_. rbind (add_txs s info txs) (\<lambda>_. ret (info, txs)))))"

definition L1_InfoByHash :: "('c, 'w) l1_source \<Rightarrow> hash \<Rightarrow> ('c \<times> 'w, HeaderInfo) rpc" where
  "L1_InfoByHash s hash =
     rbind (on_cache (hdr_Get (s_caches s) hash)) (\<lambda>cached. case cached of
       Some header \<Rightarrow> ret header
     | None \<Rightarrow> headerCall s (ByHash hash))"

definition InfoByNumber :: "('c, 'w) l1_source \<Rightarrow> u64 \<Rightarrow> ('c \<times> 'w, HeaderInfo) rpc" where
  "InfoByNumber s number = headerCall s (ByNumber number)"

definition InfoHead :: "('c, 'w) l1_source \<Rightarrow> ('c \<times> 'w, HeaderInfo) rpc" where
  "InfoHead s = headerCall s Latest"

definition InfoAndTxsByHash :: "('c, 'w) l1_source \<Rightarrow> hash \<Rightarrow> ('c \<times> 'w, HeaderInfo \<times> Transaction list) rpc" where
  "InfoAndTxsByHash s hash =
     rbind (on_cache (hdr_Get (s_caches s) hash)) (\<lambda>cached. case cached of
       None \<Rightarrow> blockCall s (ByHash hash)
     | Some header \<Rightarrow> rbind (on_cache (txs_Get (s_caches s) hash)) (\<lambda>cachedTxs. case cachedTxs of
           Some txs \<Rightarrow> ret (header, txs)
         | None \<Rightarrow> blockCall s (ByHash hash)))"

definition InfoAndTxsByNumber :: "('c, 'w) l1_source \<Rightarrow> u64 \<Rightarrow> ('c \<times> 'w, HeaderInfo \<times> Transaction list) rpc" where
  "InfoAndTxsByNumber s number = blockCall s (ByNumber number)"

definition InfoAndTxsHead :: "('c, 'w) l1_source \<Rightarrow> ('c \<times> 'w, HeaderInfo \<times> Transaction list) rpc" where
  "InfoAndTxsHead s = blockCall s Latest"

section \<open>Receipts (receipts.go)\<close>

text \<open>The checks of one receipt: its logs from index \<open>logIndex\<close> on, giving the next index.\<close>

fun check_logs :: "BlockID \<Rightarrow> Transaction \<Rightarrow> nat \<Rightarrow> u64 \<Rightarrow> Log list \<Rightarrow> u64 res" where
  "check_logs block tx i logIndex [] = Ok logIndex"
| "check_logs block tx i logIndex (log # logs) =
     (if log_Index log \<noteq> logIndex then Err (ErrMsg ''log has unexpected log index'')
      else if log_TxIndex log \<noteq> of_nat i then Err (ErrMsg ''log has unexpected tx index'')
      else if log_BlockHash log \<noteq> id_Hash block then Err (ErrMsg ''log has unexpected block hash'')
      else if log_BlockNumber log \<noteq> id_Number block then Err (ErrMsg ''log has unexpected block number'')
      else if log_TxHash log \<noteq> tx_Hash tx then Err (ErrMsg ''log has unexpected tx hash'')
      else if log_Removed log then Err (ErrMsg ''canonical log must never be removed due to reorg'')
      else check_logs block tx i (logIndex + 1) logs)"

fun check_receipts :: "BlockID \<Rightarrow> Transaction list \<Rightarrow> nat \<Rightarrow> u64 \<Rightarrow> Receipt option list \<Rightarrow> Receipt list res" where
  "check_receipts block txs i logIndex [] = Ok []"
| "check_receipts block txs i logIndex (None # rs) = Err (ErrMsg ''receipt of tx returns nil on retrieval'')"
| "check_receipts block txs i logIndex (Some r # rs) =
     (if rcp_TransactionIndex r \<noteq> of_nat i then Err (ErrMsg ''receipt has unexpected tx index'')
      else if of_int (rcp_BlockNumber r) \<noteq> id_Number block then Err (ErrMsg ''receipt has unexpected block number'')
      else if rcp_BlockHash r \<noteq> id_Hash block then Err (ErrMsg ''receipt has unexpected block hash'')
      else bind_res (check_logs block (txs ! i) i logIndex (rcp_Logs r)) (\<lambda>logIndex'.
        bind_res (check_receipts block txs (i + 1) logIndex' rs) (\<lambda>out. Ok (r # out))))"

fun receipt_results :: "BatchElem list \<Rightarrow> Receipt option list res" where
  "receipt_results [] = Ok []"
| "receipt_results (e # es) =
     (case be_Result e of
        ReceiptRes r \<Rightarrow> bind_res (receipt_results es) (\<lambda>rs. Ok (r # rs))
      | _ \<Rightarrow> Panic ''interface conversion'')"

text \<open>A fresh request; the initial result is only read after it was filled.\<close>

definition receipt_request :: "Transaction \<Rightarrow> BatchElem" where
  "receipt_request tx = \<lparr>be_Req = ReceiptReq (tx_Hash tx), be_Result = ReceiptRes None, be_Error = None\<rparr>"

definition fetchReceipts ::
  "header_lib \<Rightarrow> BlockID \<Rightarrow> hash \<Rightarrow> Transaction list \<Rightarrow> (BatchElem list \<Rightarrow> ('w, BatchElem list) rpc)
    \<Rightarrow> ('w, Receipt list) rpc" where
  "fetchReceipts H block receiptHash txs getBatch =
     (if txs = [] then
        if receiptHash \<noteq> EmptyRootHash H
        then lift_res (Err (ErrMsg ''no transactions, but got non-empty receipt trie root''))
        else ret []
      else
        rbind (rmap_err (\<lambda>e. ErrMsg ''failed to fetch batch of receipts'')
                 (getBatch (map receipt_request txs))) (\<lambda>elems.
        rbind (lift_res (receipt_results elems)) (\<lambda>rs.
        rbind (lift_res (check_receipts block txs 0 0 rs)) (\<lambda>receipts.
        if receiptHash \<noteq> DeriveSha_receipts H receipts
        then lift_res (Err (ErrMsg ''failed to fetch list of receipts: unexpected receipt root''))
        else ret receipts))))"

definition L1_Fetch :: "('c, 'w) l1_source \<Rightarrow> hash \<Rightarrow> ('c \<times> 'w, HeaderInfo \<times> Transaction list \<times> Receipt list) rpc" where
  "L1_Fetch s blockHash =
     (if blockHash = 0 then lift_res (Err NotFound)
      else rbind (blockCall s (ByHash blockHash)) (\<lambda>(info, txs).
        rbind (on_world (fetchReceipts (s_hlib s) (HeaderInfo_ID info) (hi_receiptHash info) txs (s_batchCall s))) (\<lambda>receipts.
        rbind (on_cache (\<lambda>c. ((), rcp_Add (s_caches s) (hi_hash info) receipts c))) (\<lambda>_.
        ret (info, txs, receipts)))))"

section \<open>Windows and ranges (source.go)\<close>

text \<open>\<open>FetchAllTransactions\<close>: the cache look-ups, the requests for the rest, the checks and caching of
  their results in order, and the list in window order.\<close>

fun cached_txs :: "('c, 'w) l1_source \<Rightarrow> BlockID list \<Rightarrow> 'c \<Rightarrow> Transaction list option list \<times> 'c" where
  "cached_txs s [] c = ([], c)"
| "cached_txs s (b # bs) c =
     (case txs_Get (s_caches s) (id_Hash b) c of (t, c1) \<Rightarrow>
        case cached_txs s bs c1 of (ts, c2) \<Rightarrow> (t # ts, c2))"

definition zero_header :: Header where
  "zero_header = \<lparr>h_ParentHash = 0, h_UncleHash = 0, h_Coinbase = 0, h_Root = 0, h_TxHash = 0,
     h_ReceiptHash = 0, h_Bloom = 0, h_Difficulty = 0, h_Number = 0, h_GasLimit = 0, h_GasUsed = 0,
     h_Time = 0, h_Extra = [], h_MixDigest = 0, h_Nonce = 0, h_BaseFee = None\<rparr>"

definition block_request :: "BlockID \<Rightarrow> BatchElem" where
  "block_request b = \<lparr>be_Req = BlockReq (id_Hash b),
     be_Result = BlockRes \<lparr>rb_header = \<lparr>rh_cacheHash = 0, rh_header = zero_header\<rparr>, rb_Transactions = []\<rparr>,
     be_Error = None\<rparr>"

fun missing :: "BlockID list \<Rightarrow> 'a option list \<Rightarrow> BlockID list" where
  "missing (b # bs) (None # ts) = b # missing bs ts"
| "missing (b # bs) (Some t # ts) = missing bs ts"
| "missing bs ts = []"

fun store_blocks :: "('c, 'w) l1_source \<Rightarrow> BatchElem list \<Rightarrow> ('c \<times> 'w, Transaction list option list) rpc" where
  "store_blocks s [] = ret []"
| "store_blocks s (e # es) =
     (if be_Error e = None then
        (case be_Result e of
           BlockRes block \<Rightarrow>
             rbind (lift_res (map_err (Wrap ''bad block data'') (of_sum (rpcBlock_Info (s_hlib s) block (s_trustRPC s))))) (\<lambda>(info, txs).
             rbind (add_header s info) (\<lambda>_. rbind (add_txs s info txs) (\<lambda>_.
             rbind (store_blocks s es) (\<lambda>rest. ret (Some txs # rest)))))
         | _ \<Rightarrow> lift_res (Panic ''interface conversion''))
      else rbind (store_blocks s es) (\<lambda>rest. ret (None # rest)))"

fun first_error :: "BatchElem list \<Rightarrow> unit res" where
  "first_error [] = Ok ()"
| "first_error (e # es) =
     (case be_Error e of Some err \<Rightarrow> Err (Wrap ''failed to retrieve transactions of block'' err)
      | None \<Rightarrow> first_error es)"

text \<open>Entries that stay nil are empty lists.\<close>

fun fill_missing :: "'a list option list \<Rightarrow> 'a list option list \<Rightarrow> 'a list list" where
  "fill_missing [] rs = []"
| "fill_missing (Some t # ts) rs = t # fill_missing ts rs"
| "fill_missing (None # ts) [] = [] # fill_missing ts []"
| "fill_missing (None # ts) (r # rs) = (case r of Some t \<Rightarrow> t | None \<Rightarrow> []) # fill_missing ts rs"

definition L1_FetchAllTransactions :: "('c, 'w) l1_source \<Rightarrow> BlockID list \<Rightarrow> ('c \<times> 'w, Transaction list list) rpc" where
  "L1_FetchAllTransactions s window =
     rbind (on_cache (cached_txs s window)) (\<lambda>ts.
     let blockRequests = map block_request (missing window ts) in
     rbind (if blockRequests = [] then ret [] else on_world (s_batchCall s blockRequests)) (\<lambda>elems.
     rbind (store_blocks s elems) (\<lambda>rs.
     rbind (lift_res (first_error elems)) (\<lambda>_.
     ret (fill_missing ts rs)))))"

definition L1_HeadBlockRef :: "('c, 'w) l1_source \<Rightarrow> ('c \<times> 'w, L1BlockRef) rpc" where
  "L1_HeadBlockRef s =
     rbind (rmap_err (Wrap ''failed to fetch head header'') (InfoHead s)) (\<lambda>head. ret (HeaderInfo_BlockRef head))"

definition L1_BlockRefByNumber :: "('c, 'w) l1_source \<Rightarrow> u64 \<Rightarrow> ('c \<times> 'w, L1BlockRef) rpc" where
  "L1_BlockRefByNumber s l1Num =
     rbind (rmap_err (Wrap ''failed to fetch header by num'') (InfoByNumber s l1Num)) (\<lambda>head. ret (HeaderInfo_BlockRef head))"

definition L1_BlockRefByHash :: "('c, 'w) l1_source \<Rightarrow> hash \<Rightarrow> ('c \<times> 'w, L1BlockRef) rpc" where
  "L1_BlockRefByHash s hash =
     rbind (rmap_err (Wrap ''failed to fetch header by hash'') (L1_InfoByHash s hash)) (\<lambda>block. ret (HeaderInfo_BlockRef block))"

text \<open>\<open>L1Range\<close>: the loop over the results, with the previous block (\<open>begin\<close> for the first).\<close>

definition header_request :: "u64 \<Rightarrow> BatchElem" where
  "header_request n = \<lparr>be_Req = HeaderReq n, be_Result = HeaderRes None, be_Error = None\<rparr>"

fun range_loop :: "('c, 'w) l1_source \<Rightarrow> BlockID \<Rightarrow> BatchElem list \<Rightarrow> ('c \<times> 'w, BlockID list) rpc" where
  "range_loop s prev [] = ret []"
| "range_loop s prev (e # es) =
     (case be_Result e of
        HeaderRes result \<Rightarrow>
          (case be_Error e of
             None \<Rightarrow>
               (case result of
                  None \<Rightarrow> ret []
                | Some header \<Rightarrow>
                    rbind (lift_res (map_err (Wrap ''bad header data'') (of_sum (rpcHeader_Info (s_hlib s) header (s_trustRPC s))))) (\<lambda>info.
                    rbind (add_header s info) (\<lambda>_.
                    if id_Hash prev \<noteq> hi_parentHash info
                    then lift_res (Err (ErrMsg ''inconsistent results from L1 chain range request''))
                    else rbind (range_loop s (HeaderInfo_ID info) es) (\<lambda>rest. ret (HeaderInfo_ID info # rest)))))
           | Some err \<Rightarrow> if errors_Is err NotFound then ret []
                         else lift_res (Err (Wrap ''failed to retrieve block'' err)))
      | _ \<Rightarrow> lift_res (Panic ''interface conversion''))"

definition L1_Range :: "('c, 'w) l1_source \<Rightarrow> BlockID \<Rightarrow> u64 \<Rightarrow> ('c \<times> 'w, BlockID list) rpc" where
  "L1_Range s start mx =
     rbind (on_world (s_batchCall s (map (\<lambda>i. header_request (id_Number start + 1 + of_nat i)) [0..<unat mx]))) (\<lambda>elems.
     range_loop s start elems)"

text \<open>The source as the driver's L1 chain and downloader, as \<open>NewDriver\<close> wires it.\<close>

definition source_l1 :: "('c, 'w) l1_source \<Rightarrow> ('c \<times> 'w) driver_L1Chain" where
  "source_l1 s = \<lparr>dl1_BlockRefByNumber = L1_BlockRefByNumber s, dl1_BlockRefByHash = L1_BlockRefByHash s,
     dl1_HeadBlockRef = L1_HeadBlockRef s, dl1_Range = L1_Range s\<rparr>"

definition source_dl :: "('c, 'w) l1_source \<Rightarrow> ('c \<times> 'w) Downloader" where
  "source_dl s = \<lparr>InfoByHash = L1_InfoByHash s, Fetch = L1_Fetch s, FetchAllTransactions = L1_FetchAllTransactions s\<rparr>"

section \<open>Authenticity\<close>

text \<open>A header info that belongs to a real header, by its hash.\<close>

definition authentic :: "header_lib \<Rightarrow> HeaderInfo \<Rightarrow> bool" where
  "authentic H info \<longleftrightarrow> (\<exists>h. info = header_info (Header_Hash H h) h)"

definition txs_of :: "header_lib \<Rightarrow> HeaderInfo \<Rightarrow> Transaction list \<Rightarrow> bool" where
  "txs_of H info txs \<longleftrightarrow> DeriveSha_txs H txs = hi_txHash info"

text \<open>What the source relies on in the cache: it returns what was stored under the key, or nothing.
  \<open>subcache c' c\<close>: what \<open>c'\<close> holds, \<open>c\<close> holds.\<close>

definition subcache :: "'c caches \<Rightarrow> 'c \<Rightarrow> 'c \<Rightarrow> bool" where
  "subcache C c' c \<longleftrightarrow>
     (\<forall>k x. fst (hdr_Get C k c') = Some x \<longrightarrow> fst (hdr_Get C k c) = Some x) \<and>
     (\<forall>k x. fst (txs_Get C k c') = Some x \<longrightarrow> fst (txs_Get C k c) = Some x)"

definition lru_reads :: "'c caches \<Rightarrow> bool" where
  "lru_reads C \<longleftrightarrow> (\<forall>k c. subcache C (snd (hdr_Get C k c)) c) \<and> (\<forall>k c. subcache C (snd (txs_Get C k c)) c) \<and>
     (\<forall>k v c. subcache C (rcp_Add C k v c) c)"

definition lru_headers :: "'c caches \<Rightarrow> bool" where
  "lru_headers C \<longleftrightarrow>
     (\<forall>k' v c k x. fst (hdr_Get C k (hdr_Add C k' v c)) = Some x \<longrightarrow> k = k' \<and> x = v \<or> fst (hdr_Get C k c) = Some x) \<and>
     (\<forall>k' v c k x. fst (txs_Get C k (hdr_Add C k' v c)) = Some x \<longrightarrow> fst (txs_Get C k c) = Some x)"

definition lru_transactions :: "'c caches \<Rightarrow> bool" where
  "lru_transactions C \<longleftrightarrow>
     (\<forall>k' v c k x. fst (txs_Get C k (txs_Add C k' v c)) = Some x \<longrightarrow> k = k' \<and> x = v \<or> fst (txs_Get C k c) = Some x) \<and>
     (\<forall>k' v c k x. fst (hdr_Get C k (txs_Add C k' v c)) = Some x \<longrightarrow> fst (hdr_Get C k c) = Some x)"

definition lru_ok :: "'c caches \<Rightarrow> bool" where
  "lru_ok C \<longleftrightarrow> lru_reads C \<and> lru_headers C \<and> lru_transactions C"

definition cache_ok :: "header_lib \<Rightarrow> 'c caches \<Rightarrow> 'c \<Rightarrow> bool" where
  "cache_ok H C c \<longleftrightarrow>
     (\<forall>k info. fst (hdr_Get C k c) = Some info \<longrightarrow> authentic H info \<and> hi_hash info = k) \<and>
     (\<forall>k txs. fst (txs_Get C k c) = Some txs \<longrightarrow> (\<exists>info. authentic H info \<and> hi_hash info = k \<and> txs_of H info txs))"

lemma cache_ok_subcache: "cache_ok H C c \<Longrightarrow> subcache C c' c \<Longrightarrow> cache_ok H C c'"
  unfolding cache_ok_def subcache_def by blast

lemma cache_ok_Get:
  assumes "lru_ok C" "cache_ok H C c"
  shows "cache_ok H C (snd (hdr_Get C k c))" "cache_ok H C (snd (txs_Get C k c))" "cache_ok H C (rcp_Add C k v c)"
  using assms(1) by (auto simp: lru_ok_def lru_reads_def intro: cache_ok_subcache [OF assms(2)])

lemma cache_ok_hdr_Add:
  assumes "lru_ok C" "cache_ok H C c" "authentic H info"
  shows "cache_ok H C (hdr_Add C (hi_hash info) info c)"
proof -
  have "lru_headers C" using assms(1) by (simp add: lru_ok_def)
  then have new: "fst (hdr_Get C k (hdr_Add C (hi_hash info) info c)) = Some x \<Longrightarrow>
        k = hi_hash info \<and> x = info \<or> fst (hdr_Get C k c) = Some x"
      "fst (txs_Get C k (hdr_Add C (hi_hash info) info c)) = Some y \<Longrightarrow> fst (txs_Get C k c) = Some y" for k x y
    unfolding lru_headers_def by (iprover)+
  show ?thesis unfolding cache_ok_def
    by (intro conjI allI impI) (use assms(2,3) in \<open>auto simp: cache_ok_def dest!: new\<close>)
qed

lemma cache_ok_txs_Add:
  assumes "lru_ok C" "cache_ok H C c" "authentic H info" "txs_of H info txs"
  shows "cache_ok H C (txs_Add C (hi_hash info) txs c)"
proof -
  have "lru_transactions C" using assms(1) by (simp add: lru_ok_def)
  then have new: "fst (txs_Get C k (txs_Add C (hi_hash info) txs c)) = Some y \<Longrightarrow>
        k = hi_hash info \<and> y = txs \<or> fst (txs_Get C k c) = Some y"
      "fst (hdr_Get C k (txs_Add C (hi_hash info) txs c)) = Some x \<Longrightarrow> fst (hdr_Get C k c) = Some x" for k x y
    unfolding lru_transactions_def by (iprover)+
  show ?thesis unfolding cache_ok_def
    by (intro conjI allI impI) (use assms(2-4) in \<open>auto simp: cache_ok_def dest!: new\<close>)
qed

lemma rpcHeader_Info_authentic:
  "rpcHeader_Info H h False = Inr info \<Longrightarrow> authentic H info"
  unfolding rpcHeader_Info_def authentic_def Let_def
  by (intro exI [of _ "rh_header h"]) (auto simp: header_info_def split: if_splits)

lemma rpcBlock_Info_authentic:
  "rpcBlock_Info H b False = Inr (info, txs) \<Longrightarrow> authentic H info \<and> txs_of H info txs"
  by (auto simp: rpcBlock_Info_def txs_of_def split: sum.splits if_splits dest: rpcHeader_Info_authentic)

text \<open>\<open>auth s m Q\<close>: from authentic caches, \<open>m\<close> leaves authentic caches and its result satisfies \<open>Q\<close>.\<close>

definition auth :: "('c, 'w) l1_source \<Rightarrow> ('c \<times> 'w, 'a) rpc \<Rightarrow> ('a \<Rightarrow> bool) \<Rightarrow> bool" where
  "auth s m Q \<longleftrightarrow> (\<forall>c w r c' w'. cache_ok (s_hlib s) (s_caches s) c \<longrightarrow> m (c, w) = (r, (c', w')) \<longrightarrow>
     cache_ok (s_hlib s) (s_caches s) c' \<and> (\<forall>x. r = Ok x \<longrightarrow> Q x))"

lemma authI:
  assumes "\<And>c w r c' w'. cache_ok (s_hlib s) (s_caches s) c \<Longrightarrow> m (c, w) = (r, (c', w')) \<Longrightarrow>
     cache_ok (s_hlib s) (s_caches s) c' \<and> (\<forall>x. r = Ok x \<longrightarrow> Q x)"
  shows "auth s m Q"
  using assms unfolding auth_def by blast

lemma authD:
  assumes "auth s m Q" and "cache_ok (s_hlib s) (s_caches s) c" and "m (c, w) = (r, (c', w'))"
  shows "cache_ok (s_hlib s) (s_caches s) c' \<and> (\<forall>x. r = Ok x \<longrightarrow> Q x)"
  using assms unfolding auth_def by blast

lemma auth_ret: "Q x \<Longrightarrow> auth s (ret x) Q"
  by (rule authI) auto

lemma auth_lift: "(\<And>x. r = Ok x \<Longrightarrow> Q x) \<Longrightarrow> auth s (lift_res r) Q"
  by (rule authI) auto

lemma auth_bind:
  assumes "auth s m P" and "\<And>x. P x \<Longrightarrow> auth s (f x) Q"
  shows "auth s (rbind m f) Q"
proof (rule authI)
  fix c w r c' w'
  assume c: "cache_ok (s_hlib s) (s_caches s) c" and run: "rbind m f (c, w) = (r, (c', w'))"
  obtain r1 c1 w1 where m: "m (c, w) = (r1, (c1, w1))" by (metis prod.exhaust)
  note 1 = authD [OF assms(1) c m]
  show "cache_ok (s_hlib s) (s_caches s) c' \<and> (\<forall>x. r = Ok x \<longrightarrow> Q x)"
  proof (cases r1)
    case (Ok x)
    with m run have "f x (c1, w1) = (r, (c', w'))" by simp
    then show ?thesis using authD [OF assms(2)] 1 Ok by blast
  qed (use m run 1 in \<open>auto simp: rbind_def\<close>)
qed

lemma auth_map_err: "auth s m Q \<Longrightarrow> auth s (rmap_err g m) Q"
  by (rule authI) (auto simp: rmap_err_def split: prod.splits dest!: authD)

lemma auth_world: "auth s (on_world m) (\<lambda>_. True)"
  by (rule authI) (auto simp: on_world_def split: prod.splits)

lemma auth_weaken: "auth s m P \<Longrightarrow> (\<And>x. P x \<Longrightarrow> Q x) \<Longrightarrow> auth s m Q"
  unfolding auth_def by blast

lemma auth_cache:
  assumes "\<And>c x c'. cache_ok (s_hlib s) (s_caches s) c \<Longrightarrow> f c = (x, c') \<Longrightarrow>
     cache_ok (s_hlib s) (s_caches s) c' \<and> Q x"
  shows "auth s (on_cache f) Q"
  by (rule authI) (auto simp: on_cache_def split: prod.splits dest: assms)

text \<open>A source that does not trust its RPC, on caches that behave.\<close>

definition untrusted :: "('c, 'w) l1_source \<Rightarrow> bool" where
  "untrusted s \<longleftrightarrow> lru_ok (s_caches s) \<and> \<not> s_trustRPC s"

lemma auth_add_header:
  "untrusted s \<Longrightarrow> authentic (s_hlib s) info \<Longrightarrow> auth s (add_header s info) (\<lambda>_. True)"
  unfolding add_header_def by (rule auth_cache) (auto simp: untrusted_def intro: cache_ok_hdr_Add)

lemma auth_add_txs:
  "untrusted s \<Longrightarrow> authentic (s_hlib s) info \<Longrightarrow> txs_of (s_hlib s) info txs \<Longrightarrow> auth s (add_txs s info txs) (\<lambda>_. True)"
  unfolding add_txs_def by (rule auth_cache) (auto simp: untrusted_def intro: cache_ok_txs_Add)

definition auth_block :: "header_lib \<Rightarrow> HeaderInfo \<times> Transaction list \<Rightarrow> bool" where
  "auth_block H b \<longleftrightarrow> authentic H (fst b) \<and> txs_of H (fst b) (snd b)"

lemma auth_headerCall: "untrusted s \<Longrightarrow> auth s (headerCall s sel) (authentic (s_hlib s))"
  unfolding headerCall_def
  by (intro auth_bind [OF auth_world])
     (auto split: option.split simp: untrusted_def
       intro!: auth_lift auth_bind [where P = "authentic (s_hlib s)"] auth_bind [OF auth_add_header] auth_ret
       dest: rpcHeader_Info_authentic)

lemma auth_blockCall: "untrusted s \<Longrightarrow> auth s (blockCall s sel) (auth_block (s_hlib s))"
  unfolding blockCall_def
  by (intro auth_bind [OF auth_world])
     (auto split: option.split prod.split simp: untrusted_def auth_block_def
       intro!: auth_lift auth_bind [where P = "auth_block (s_hlib s)"] auth_bind [OF auth_add_header]
         auth_bind [OF auth_add_txs] auth_ret
       dest: rpcBlock_Info_authentic)

lemma auth_hdr_Get:
  "untrusted s \<Longrightarrow> auth s (on_cache (hdr_Get (s_caches s) k))
     (\<lambda>x. \<forall>info. x = Some info \<longrightarrow> authentic (s_hlib s) info \<and> hi_hash info = k)"
  by (rule auth_cache) (metis cache_ok_Get(1) cache_ok_def fst_conv snd_conv untrusted_def)

lemma auth_txs_Get:
  "untrusted s \<Longrightarrow> auth s (on_cache (txs_Get (s_caches s) k))
     (\<lambda>x. \<forall>txs. x = Some txs \<longrightarrow> (\<exists>info. authentic (s_hlib s) info \<and> hi_hash info = k \<and> txs_of (s_hlib s) info txs))"
  by (rule auth_cache) (metis cache_ok_Get(2) cache_ok_def fst_conv snd_conv untrusted_def)

lemma auth_InfoByHash: "untrusted s \<Longrightarrow> auth s (L1_InfoByHash s h) (authentic (s_hlib s))"
  unfolding L1_InfoByHash_def
  by (intro auth_bind [OF auth_hdr_Get]) (auto split: option.split intro: auth_headerCall auth_ret)

text \<open>From the caches the header and the transactions may come from two responses with the same hash.\<close>

definition same_hash_block :: "header_lib \<Rightarrow> hash \<Rightarrow> HeaderInfo \<times> Transaction list \<Rightarrow> bool" where
  "same_hash_block H k b \<longleftrightarrow> auth_block H b \<or>
     (authentic H (fst b) \<and> hi_hash (fst b) = k \<and> (\<exists>info. authentic H info \<and> hi_hash info = k \<and> txs_of H info (snd b)))"

lemma auth_InfoAndTxsByHash:
  assumes "untrusted s"
  shows "auth s (InfoAndTxsByHash s h) (same_hash_block (s_hlib s) h)"
proof -
  have block: "auth s (blockCall s sel) (same_hash_block (s_hlib s) k)" for sel k
    using auth_blockCall [OF assms] by (rule auth_weaken) (simp add: same_hash_block_def)
  show ?thesis unfolding InfoAndTxsByHash_def
    by (intro auth_bind [OF auth_hdr_Get [OF assms]])
       (auto split: option.split simp: same_hash_block_def
          intro!: block auth_bind [OF auth_txs_Get [OF assms]] auth_ret)
qed

text \<open>The receipts that belong to a header.\<close>

definition receipts_of :: "header_lib \<Rightarrow> HeaderInfo \<Rightarrow> Transaction list \<Rightarrow> Receipt list \<Rightarrow> bool" where
  "receipts_of H info txs rs \<longleftrightarrow>
     (if txs = [] then rs = [] \<and> hi_receiptHash info = EmptyRootHash H
      else DeriveSha_receipts H rs = hi_receiptHash info)"

lemma fetchReceipts_Ok:
  assumes "fetchReceipts H block (hi_receiptHash info) txs getBatch w = (Ok rs, w')"
  shows "receipts_of H info txs rs"
  using assms by (auto simp: fetchReceipts_def receipts_of_def res_simps split: if_splits)

lemma auth_fetchReceipts:
  "auth s (on_world (fetchReceipts (s_hlib s) (HeaderInfo_ID info) (hi_receiptHash info) txs (s_batchCall s)))
     (receipts_of (s_hlib s) info txs)"
  by (rule authI) (auto simp: on_world_def split: prod.splits dest: fetchReceipts_Ok)

lemma auth_Fetch:
  assumes "untrusted s"
  shows "auth s (L1_Fetch s h) (\<lambda>(info, txs, rs). auth_block (s_hlib s) (info, txs) \<and> receipts_of (s_hlib s) info txs rs)"
proof -
  have rcp: "auth s (on_cache (\<lambda>c. ((), rcp_Add (s_caches s) k rs c))) (\<lambda>_. True)" for k rs
    using assms by (intro auth_cache) (auto simp: untrusted_def intro: cache_ok_Get)
  show ?thesis unfolding L1_Fetch_def
    by (auto intro!: auth_lift auth_bind [OF auth_blockCall [OF assms]] auth_bind [OF auth_fetchReceipts]
        auth_bind [OF rcp] auth_ret)
qed

text \<open>The batch call works in place: it keeps the number of elements.\<close>

definition batch_ok :: "('c, 'w) l1_source \<Rightarrow> bool" where
  "batch_ok s \<longleftrightarrow> (\<forall>reqs w es w'. s_batchCall s reqs w = (Ok es, w') \<longrightarrow> length es = length reqs)"

definition real_txs :: "header_lib \<Rightarrow> Transaction list \<Rightarrow> bool" where
  "real_txs H txs \<longleftrightarrow> (\<exists>info. authentic H info \<and> txs_of H info txs)"

lemma auth_store_blocks:
  assumes "untrusted s"
  shows "auth s (store_blocks s es) (\<lambda>rs. length rs = length es \<and>
    (\<forall>i < length es. be_Error (es ! i) = None \<longrightarrow> (\<exists>txs. rs ! i = Some txs \<and> real_txs (s_hlib s) txs)))"
proof (induction es)
  case Nil
  then show ?case by (rule authI) auto
next
  case (Cons e es)
  have info: "auth s (lift_res (map_err (Wrap ''bad block data'') (of_sum (rpcBlock_Info (s_hlib s) b (s_trustRPC s)))))
      (auth_block (s_hlib s))" for b
    using assms by (intro auth_lift) (auto simp: untrusted_def auth_block_def dest: rpcBlock_Info_authentic)
  show ?case
    by (auto split: batch_res.split simp: nth_Cons real_txs_def auth_block_def
        intro!: auth_lift auth_bind [OF info] auth_bind [OF auth_add_header [OF assms]]
          auth_bind [OF auth_add_txs [OF assms]] auth_bind [OF Cons.IH] auth_ret split: nat.split)
qed

lemma auth_cached_txs:
  assumes "untrusted s"
  shows "auth s (on_cache (cached_txs s bs)) (\<lambda>ts. length ts = length bs \<and> (\<forall>txs. Some txs \<in> set ts \<longrightarrow> real_txs (s_hlib s) txs))"
proof (rule auth_cache)
  fix c ts c' assume "cache_ok (s_hlib s) (s_caches s) c" "cached_txs s bs c = (ts, c')"
  then show "cache_ok (s_hlib s) (s_caches s) c' \<and> length ts = length bs \<and>
      (\<forall>txs. Some txs \<in> set ts \<longrightarrow> real_txs (s_hlib s) txs)"
  proof (induction bs arbitrary: c ts c')
    case (Cons b bs)
    obtain t c1 where t: "txs_Get (s_caches s) (id_Hash b) c = (t, c1)" by fastforce
    obtain ts1 c2 where ts: "cached_txs s bs c1 = (ts1, c2)" by fastforce
    have "cache_ok (s_hlib s) (s_caches s) c1"
      using cache_ok_Get(2) [of "s_caches s" _ c] Cons.prems(1) t assms by (metis snd_conv untrusted_def)
    with Cons.IH ts have "cache_ok (s_hlib s) (s_caches s) c2 \<and> length ts1 = length bs \<and>
        (\<forall>txs. Some txs \<in> set ts1 \<longrightarrow> real_txs (s_hlib s) txs)" by blast
    moreover have "t = Some txs \<Longrightarrow> real_txs (s_hlib s) txs" for txs
      using Cons.prems(1) t unfolding cache_ok_def real_txs_def by (metis fst_conv)
    ultimately show ?case using Cons.prems(2) t ts by auto
  qed simp
qed

lemma first_error_Ok: "first_error es = Ok u \<Longrightarrow> e \<in> set es \<Longrightarrow> be_Error e = None"
  by (induction es) (auto split: option.splits)

lemma length_fill_missing [simp]: "length (fill_missing ts rs) = length ts"
  by (induction ts rs rule: fill_missing.induct) auto

lemma length_missing: "length bs = length ts \<Longrightarrow> length (missing bs ts) = length (filter (\<lambda>t. t = None) ts)"
  by (induction bs ts rule: missing.induct) auto

lemma fill_missing_set:
  assumes "length rs = length (filter (\<lambda>t. t = None) ts)" and "x \<in> set (fill_missing ts rs)"
  shows "Some x \<in> set ts \<or> Some x \<in> set rs \<or> None \<in> set rs"
  using assms by (induction ts rs rule: fill_missing.induct) (auto split: option.splits)

lemma batch_okD: "batch_ok s \<Longrightarrow> s_batchCall s reqs w = (Ok es, w') \<Longrightarrow> length es = length reqs"
  unfolding batch_ok_def by blast

lemma auth_FetchAllTransactions:
  assumes "untrusted s" and "batch_ok s"
  shows "auth s (L1_FetchAllTransactions s window)
    (\<lambda>lists. length lists = length window \<and> (\<forall>txs \<in> set lists. real_txs (s_hlib s) txs))"
  unfolding L1_FetchAllTransactions_def Let_def
proof (intro auth_bind [OF auth_cached_txs [OF assms(1)]], goal_cases)
  case (1 ts)
  let ?reqs = "map block_request (missing window ts)"
  have batch: "auth s (if ?reqs = [] then ret [] else on_world (s_batchCall s ?reqs)) (\<lambda>es. length es = length ?reqs)"
    by (rule authI) (use assms(2) in \<open>auto simp: on_world_def dest: batch_okD split: if_splits prod.splits\<close>)
  show ?case
  proof (intro auth_bind [OF batch] auth_bind [OF auth_store_blocks [OF assms(1)]], goal_cases)
    case (1 es rs)
    have err: "auth s (lift_res (first_error es)) (\<lambda>_. \<forall>e \<in> set es. be_Error e = None)"
      by (intro auth_lift) (auto dest: first_error_Ok)
    show ?case
    proof (intro auth_bind [OF err] auth_ret, goal_cases)
      case (1 u)
      have all: "\<forall>r \<in> set rs. \<exists>txs. r = Some txs \<and> real_txs (s_hlib s) txs"
        using 1 \<open>length rs = length es \<and> _\<close> by (metis in_set_conv_nth)
      have len: "length rs = length (filter (\<lambda>t. t = None) ts)"
        using \<open>length es = length ?reqs\<close> \<open>length rs = length es \<and> _\<close> \<open>length ts = length window \<and> _\<close>
        by (simp add: length_missing)
      show ?case
        using fill_missing_set [OF len] all \<open>length ts = length window \<and> _\<close> by fastforce
    qed
  qed
qed

section \<open>Ranges are chains\<close>

text \<open>\<open>known\<close> are the headers the RPC may serve, on which the hash determines the parent.\<close>

definition parent_of :: "header_lib \<Rightarrow> Header set \<Rightarrow> (hash \<Rightarrow> hash) \<Rightarrow> bool" where
  "parent_of H known par \<longleftrightarrow> (\<forall>h \<in> known. par (Header_Hash H h) = h_ParentHash h)"

definition headers_in :: "Header set \<Rightarrow> BatchElem list \<Rightarrow> bool" where
  "headers_in known es \<longleftrightarrow> (\<forall>e \<in> set es. \<forall>h. be_Result e = HeaderRes (Some h) \<longrightarrow> rh_header h \<in> known)"

definition serves :: "('c, 'w) l1_source \<Rightarrow> Header set \<Rightarrow> bool" where
  "serves s known \<longleftrightarrow> (\<forall>reqs w es w'. s_batchCall s reqs w = (Ok es, w') \<longrightarrow> headers_in known es)"

lemma range_loop_chain:
  assumes "\<not> s_trustRPC s" and "parent_of (s_hlib s) known par" and "headers_in known es"
    and "range_loop s prev es w = (Ok ids, w')"
  shows "l1_chain par (id_Hash prev) ids"
  using assms(3,4)
proof (induction es arbitrary: prev w ids w')
  case (Cons e es)
  show ?case
  proof (cases ids)
    case (Cons i rest)
    from Cons.prems(2) obtain header info w1 where
        h: "be_Result e = HeaderRes (Some header)" "rpcHeader_Info (s_hlib s) header (s_trustRPC s) = Inr info"
           "id_Hash prev = hi_parentHash info" "i = HeaderInfo_ID info"
           "range_loop s (HeaderInfo_ID info) es w1 = (Ok rest, w')"
      unfolding Cons by (auto simp: res_simps split: batch_res.splits option.splits if_splits)
    have "rh_header header \<in> known" using Cons.prems(1) h(1) by (simp add: headers_in_def)
    then have "par (hi_hash info) = hi_parentHash info"
      using h(2) assms(1,2) by (auto simp: rpcHeader_Info_def header_info_def Let_def parent_of_def split: if_splits)
    with h Cons.IH [OF _ h(5)] Cons.prems(1) show ?thesis by (simp add: Cons headers_in_def)
  qed simp
qed auto

lemma L1_Range_chain:
  assumes "\<not> s_trustRPC s" and "parent_of (s_hlib s) known par" and "serves s known"
    and "L1_Range s start mx w = (Ok ids, w')"
  shows "l1_chain par (id_Hash start) ids"
proof -
  obtain c w0 where w: "w = (c, w0)" by (cases w)
  from assms(4) obtain es w1 where es: "s_batchCall s (map (\<lambda>i. header_request (id_Number start + 1 + of_nat i)) [0..<unat mx]) w0 =
      (Ok es, w1)" "range_loop s start es (c, w1) = (Ok ids, w')"
    unfolding L1_Range_def rbind_Ok_iff by (auto simp: on_world_def w split: prod.splits)
  have "headers_in known es" using assms(3) es(1) unfolding serves_def by blast
  with assms(1,2) es(2) show ?thesis by (intro range_loop_chain)
qed

section \<open>Verified receipts\<close>

text \<open>What the checks establish for the receipt of transaction \<open>i\<close>, but for the log indices.\<close>

definition receipt_ok :: "BlockID \<Rightarrow> Transaction list \<Rightarrow> nat \<Rightarrow> Receipt \<Rightarrow> bool" where
  "receipt_ok block txs i r \<longleftrightarrow> rcp_TransactionIndex r = of_nat i \<and> of_int (rcp_BlockNumber r) = id_Number block \<and>
     rcp_BlockHash r = id_Hash block \<and>
     (\<forall>l \<in> set (rcp_Logs r). log_TxIndex l = of_nat i \<and> log_BlockHash l = id_Hash block \<and>
        log_BlockNumber l = id_Number block \<and> log_TxHash l = tx_Hash (txs ! i) \<and> \<not> log_Removed l)"

fun indices :: "u64 \<Rightarrow> nat \<Rightarrow> u64 list" where
  "indices n 0 = []"
| "indices n (Suc k) = n # indices (n + 1) k"

lemma indices_append: "indices n (a + b) = indices n a @ indices (n + of_nat a) b"
  by (induction a arbitrary: n) (simp_all add: algebra_simps)

lemma length_indices [simp]: "length (indices n k) = k"
  by (induction k arbitrary: n) auto

lemma indices_nth: "i < k \<Longrightarrow> indices n k ! i = n + of_nat i"
  by (induction k arbitrary: n i) (auto simp: nth_Cons split: nat.split)

lemma distinct_indices:
  assumes "k \<le> 2 ^ 64"
  shows "distinct (indices 0 k)"
proof -
  have "i = j" if "i < k" "j < k" "(of_nat i :: u64) = of_nat j" for i j
  proof -
    have "unat (of_nat i :: u64) = i" "unat (of_nat j :: u64) = j"
      using that(1,2) assms by (simp_all add: unat_of_nat)
    with that(3) show ?thesis by metis
  qed
  then show ?thesis by (auto simp: distinct_conv_nth indices_nth)
qed

lemma check_logs_Ok:
  assumes "check_logs block tx i n logs = Ok m"
  shows "m = n + of_nat (length logs) \<and> map log_Index logs = indices n (length logs) \<and>
    (\<forall>l \<in> set logs. log_TxIndex l = of_nat i \<and> log_BlockHash l = id_Hash block \<and>
        log_BlockNumber l = id_Number block \<and> log_TxHash l = tx_Hash tx \<and> \<not> log_Removed l)"
  using assms
proof (induction logs arbitrary: n)
  case (Cons l logs)
  then have "check_logs block tx i (n + 1) logs = Ok m" by (auto split: if_splits)
  from Cons.IH [OF this] Cons.prems show ?case by (auto split: if_splits)
qed simp

text \<open>All logs of the receipts.\<close>

abbreviation all_logs :: "Receipt list \<Rightarrow> Log list" where
  "all_logs rs \<equiv> concat (map rcp_Logs rs)"

lemma check_receipts_Ok:
  assumes "check_receipts block txs i n rs = Ok out"
  shows "rs = map Some out \<and> map log_Index (all_logs out) = indices n (length (all_logs out)) \<and>
    (\<forall>j < length out. receipt_ok block txs (i + j) (out ! j))"
  using assms
proof (induction block txs i n rs arbitrary: out rule: check_receipts.induct)
  case (3 block txs i n r rs)
  then obtain m rest where *: "check_logs block (txs ! i) i n (rcp_Logs r) = Ok m"
      "check_receipts block txs (i + 1) m rs = Ok rest" "out = r # rest"
      "rcp_TransactionIndex r = of_nat i" "of_int (rcp_BlockNumber r) = id_Number block" "rcp_BlockHash r = id_Hash block"
    by (auto simp: bind_res_Ok_iff split: if_splits)
  note logs = check_logs_Ok [OF *(1)]
  have IH: "rs = map Some rest" "map log_Index (all_logs rest) = indices m (length (all_logs rest))"
      "\<forall>j < length rest. receipt_ok block txs (i + 1 + j) (rest ! j)"
    using "3.IH" [OF _ _ _ *(2)] *(4-6) by simp_all
  have "map log_Index (all_logs out) = indices n (length (all_logs out))"
    using IH(2) logs by (simp add: *(3) indices_append)
  moreover have "receipt_ok block txs i r" using logs *(4-6) by (simp add: receipt_ok_def)
  then have "\<forall>j < length out. receipt_ok block txs (i + j) (out ! j)"
    using IH(3) by (auto simp: *(3) nth_Cons split: nat.split)
  ultimately show ?case using IH(1) by (simp add: *(3))
qed auto

lemma fetchReceipts_checked:
  assumes "fetchReceipts H block receiptHash txs getBatch w = (Ok rs, w')"
  shows "map log_Index (all_logs rs) = indices 0 (length (all_logs rs)) \<and>
    (\<forall>j < length rs. receipt_ok block txs j (rs ! j))"
proof (cases "txs = []")
  case True
  with assms show ?thesis by (auto simp: fetchReceipts_def split: if_splits)
next
  case False
  with assms obtain rs' where "check_receipts block txs 0 0 rs' = Ok rs"
    by (auto simp: fetchReceipts_def res_simps split: if_splits)
  from check_receipts_Ok [OF this] show ?thesis by simp
qed

section \<open>Properties\<close>


text \<open>A small source for closed examples: maps as caches, an L1 chain in which the block with hash \<open>n + 1\<close>
  has number \<open>n\<close> and parent hash \<open>n\<close>, blocks without transactions.\<close>

definition map_caches :: "((hash \<rightharpoonup> HeaderInfo) \<times> (hash \<rightharpoonup> Transaction list)) caches" where
  "map_caches = \<lparr>hdr_Get = (\<lambda>k c. (fst c k, c)), hdr_Add = (\<lambda>k v c. ((fst c)(k \<mapsto> v), snd c)),
     txs_Get = (\<lambda>k c. (snd c k, c)), txs_Add = (\<lambda>k v c. (fst c, (snd c)(k \<mapsto> v))), rcp_Add = (\<lambda>k v c. c)\<rparr>"

lemma map_caches_ok: "lru_ok map_caches"
  by (simp add: lru_ok_def lru_reads_def lru_headers_def lru_transactions_def subcache_def map_caches_def)

definition demo_hlib :: header_lib where
  "demo_hlib = \<lparr>DeriveSha_raw = (\<lambda>t. 0), DeriveSha_txs = (\<lambda>t. of_nat (length t)), DeriveSha_receipts = (\<lambda>r. of_nat (length r)),
     Header_Hash = (\<lambda>h. h_ParentHash h + 1), EmptyUncleHash = 0, EmptyRootHash = 0,
     FromBig = (\<lambda>x. case x of None \<Rightarrow> Panic ''nil'' | Some v \<Rightarrow> Ok (of_int v, v \<ge> 2 ^ 256))\<rparr>"

definition demo_header :: "u64 \<Rightarrow> rpcHeader" where
  "demo_header n = \<lparr>rh_cacheHash = ucast n + 1,
     rh_header = zero_header\<lparr>h_ParentHash := ucast n, h_Number := uint n, h_Time := 12 * n, h_BaseFee := Some 7\<rparr>\<rparr>"

definition demo_sel :: "block_sel \<Rightarrow> u64" where
  "demo_sel sel = (case sel of ByHash h \<Rightarrow> ucast (h - 1) | ByNumber n \<Rightarrow> n | Latest \<Rightarrow> 5)"

definition demo_answer :: "BatchElem \<Rightarrow> BatchElem" where
  "demo_answer e = (case be_Req e of
      BlockReq h \<Rightarrow> e\<lparr>be_Result := BlockRes \<lparr>rb_header = demo_header (ucast (h - 1)), rb_Transactions = []\<rparr>\<rparr>
    | HeaderReq n \<Rightarrow> e\<lparr>be_Result := HeaderRes (if n \<le> 5 then Some (demo_header n) else None)\<rparr>
    | ReceiptReq h \<Rightarrow> e\<lparr>be_Result := ReceiptRes None\<rparr>)"

definition demo_source :: "((hash \<rightharpoonup> HeaderInfo) \<times> (hash \<rightharpoonup> Transaction list), unit) l1_source" where
  "demo_source = \<lparr>s_headerCall = (\<lambda>sel. ret (Some (demo_header (demo_sel sel)))),
     s_blockCall = (\<lambda>sel. ret (Some \<lparr>rb_header = demo_header (demo_sel sel), rb_Transactions = []\<rparr>)),
     s_batchCall = (\<lambda>es. ret (map demo_answer es)), s_trustRPC = False, s_caches = map_caches, s_hlib = demo_hlib\<rparr>"

lemma demo_untrusted: "untrusted demo_source"
  by (simp add: untrusted_def demo_source_def map_caches_ok)

lemma demo_batch_ok: "batch_ok demo_source"
  by (auto simp: batch_ok_def demo_source_def)

lemma demo_empty_caches: "cache_ok demo_hlib map_caches (Map.empty, Map.empty)"
  by (simp add: cache_ok_def map_caches_def)


text \<open>C18: The L1 source meets the contract of the driver's window. On an untrusted RPC, whatever
  \<open>L1Range\<close> returns without error is a chain that starts at a child of the requested base: gaps, reorgs
  between the single responses and forged headers are refused.\<close>

theorem L1Range_meets_contract:
  assumes "\<not> s_trustRPC s" and "parent_of (s_hlib s) known par" and "serves s known"
  shows "range_ok par (source_l1 s)"
  unfolding range_ok_def using L1_Range_chain [OF assms] by (auto simp: source_l1_def)

theorem L1Range_meets_contract_witness:
  "range_ok (\<lambda>h. h - 1) (source_l1 demo_source) \<and>
   (\<exists>w'. dl1_Range (source_l1 demo_source) \<lparr>id_Hash = 3, id_Number = 2\<rparr> 4 ((Map.empty, Map.empty), ()) =
      (Ok [\<lparr>id_Hash = 4, id_Number = 3\<rparr>, \<lparr>id_Hash = 5, id_Number = 4\<rparr>, \<lparr>id_Hash = 6, id_Number = 5\<rparr>], w'))"
proof
  show "range_ok (\<lambda>h. h - 1) (source_l1 demo_source)"
  proof (rule L1Range_meets_contract [of _ "range (\<lambda>n. rh_header (demo_header n))"])
    show "serves demo_source (range (\<lambda>n. rh_header (demo_header n)))"
      by (auto simp: serves_def headers_in_def demo_source_def demo_answer_def split: batch_req.splits if_splits)
  qed (auto simp: demo_source_def parent_of_def demo_hlib_def)
  show "\<exists>w'. dl1_Range (source_l1 demo_source) \<lparr>id_Hash = 3, id_Number = 2\<rparr> 4 ((Map.empty, Map.empty), ()) =
      (Ok [\<lparr>id_Hash = 4, id_Number = 3\<rparr>, \<lparr>id_Hash = 5, id_Number = 4\<rparr>, \<lparr>id_Hash = 6, id_Number = 5\<rparr>], w')"
    by (simp add: source_l1_def L1_Range_def demo_source_def on_world_def on_cache_def header_request_def demo_answer_def
        upt_rec rpcHeader_Info_def header_info_def demo_header_def zero_header_def demo_hlib_def add_header_def
        HeaderInfo_ID_def Let_def)
qed


definition demo_log :: "u64 \<Rightarrow> u64 \<Rightarrow> hash \<Rightarrow> Log" where
  "demo_log i t h = \<lparr>log_Address = 9, log_Topics = [], log_Data = [], log_BlockNumber = 7, log_TxHash = h, log_TxIndex = t,
     log_BlockHash = 100, log_Index = i, log_Removed = False\<rparr>"

definition demo_receipt :: "u64 \<Rightarrow> Log list \<Rightarrow> Receipt" where
  "demo_receipt i logs = \<lparr>rcp_Status = 1, rcp_Logs = logs, rcp_TxHash = 0, rcp_BlockHash = 100, rcp_BlockNumber = 7,
     rcp_TransactionIndex = i\<rparr>"

definition demo_txs :: "Transaction list" where
  "demo_txs = [\<lparr>tx_Type = 2, tx_To = None, tx_Data = [], tx_Nonce = 0, tx_Gas = 0, tx_Hash = 21\<rparr>,
     \<lparr>tx_Type = 2, tx_To = None, tx_Data = [], tx_Nonce = 0, tx_Gas = 0, tx_Hash = 22\<rparr>]"

definition demo_receipts :: "Receipt list" where
  "demo_receipts = [demo_receipt 0 [demo_log 0 0 21], demo_receipt 1 [demo_log 1 1 22, demo_log 2 1 22]]"


end
