(* ===== verification/Batching.thy ===== *)
theory Batching
  imports Prelude "HOL-Library.Multiset"
begin

text \<open>
  Batched requests with retries (\<open>op-node/l1/batching.go\<close>): \<open>fetchBatched\<close> with its worker
  goroutines. A request is named by its index in the caller's slice. The first attempt of a request
  works on the caller's own element; a retry works on a copy of it, which shares the result pointer
  but has its own \<open>Error\<close> field. The state has the two channels with their capacities, the batches
  the workers hold and what the main goroutine is doing; a label names one action of the main
  goroutine, of a worker, of the timer or of the caller's context.
\<close>

section \<open>State\<close>

type_synonym elem = "nat \<times> bool"   \<comment> \<open>index of the request, and whether this is a retry's copy\<close>

record batchResult =
  br_failed :: "elem list"
  br_err :: "error option"
  br_success :: nat

record fetch =
  f_requests :: "elem list"
  f_sending :: "nat option"            \<comment> \<open>inside \<open>parallelRequests\<close>: rounds left\<close>
  f_queue :: "elem list list"          \<comment> \<open>channel \<open>batchRequests\<close>\<close>
  f_busy :: "elem list list"           \<comment> \<open>batches in the hands of workers\<close>
  f_finished :: "batchResult list"     \<comment> \<open>workers about to write their result\<close>
  f_completed :: "batchResult list"    \<comment> \<open>channel \<open>completed\<close>\<close>
  f_awaited :: int
  f_count :: int
  f_ok :: "nat set"                    \<comment> \<open>requests whose result was filled\<close>
  f_error :: "nat \<rightharpoonup> error"             \<comment> \<open>\<open>Error\<close> fields of the caller's elements\<close>
  f_ret :: "unit res option"

definition expectedBatches :: "nat \<Rightarrow> nat \<Rightarrow> nat" where
  "expectedBatches n maxPerBatch = (n + maxPerBatch - 1) div maxPerBatch"

definition workers :: "nat \<Rightarrow> nat \<Rightarrow> nat \<Rightarrow> nat" where
  "workers n maxPerBatch maxParallel =
     (if maxParallel > expectedBatches n maxPerBatch then expectedBatches n maxPerBatch else maxParallel)"

definition fetch_start :: "nat \<Rightarrow> nat \<Rightarrow> fetch" where
  "fetch_start n par = \<lparr>f_requests = map (\<lambda>i. (i, False)) [0..<n], f_sending = Some par, f_queue = [], f_busy = [],
     f_finished = [], f_completed = [], f_awaited = int n, f_count = 0, f_ok = {}, f_error = Map.empty, f_ret = None\<rparr>"

section \<open>Actions\<close>

datatype fetch_label =
    Send | SendEnd | Tick | Recv | Return | Cancel
  | Take | Work nat "error option" "nat \<Rightarrow> error option" | Post nat

text \<open>\<open>batchRequest\<close>: the batch call fails as a whole, or each element has its own outcome.\<close>

definition batchRequest :: "elem list \<Rightarrow> error option \<Rightarrow> (nat \<Rightarrow> error option) \<Rightarrow> batchResult" where
  "batchRequest batch err errs = (case err of
      Some e \<Rightarrow> \<lparr>br_failed = [], br_err = Some (Wrap ''failed batch-retrieval'' e), br_success = length batch\<rparr>
    | None \<Rightarrow> let failed = map (\<lambda>(i, _). (i, True)) (filter (\<lambda>(i, _). errs i \<noteq> None) batch) in
        \<lparr>br_failed = failed, br_err = None, br_success = length batch - length failed\<rparr>)"

definition worker_effect :: "elem list \<Rightarrow> error option \<Rightarrow> (nat \<Rightarrow> error option) \<Rightarrow> fetch \<Rightarrow> fetch" where
  "worker_effect batch err errs s = (case err of
      Some e \<Rightarrow> s
    | None \<Rightarrow> s\<lparr>f_ok := f_ok s \<union> {i. \<exists>c. (i, c) \<in> set batch \<and> errs i = None},
        f_error := (\<lambda>i. if (i, False) \<in> set batch then errs i else f_error s i)\<rparr>)"

definition in_loop :: "int \<Rightarrow> fetch \<Rightarrow> bool" where
  "in_loop maxCount s \<longleftrightarrow> f_ret s = None \<and> f_sending s = None \<and> f_awaited s > 0 \<and> f_count s \<le> maxCount"

definition drop_nth :: "nat \<Rightarrow> 'a list \<Rightarrow> 'a list" where
  "drop_nth i xs = take i xs @ drop (Suc i) xs"

text \<open>One action, \<open>None\<close> when it is not enabled: \<open>par\<close> workers, channels of capacity \<open>par\<close>.\<close>

fun fetch_do :: "nat \<Rightarrow> nat \<Rightarrow> int \<Rightarrow> fetch_label \<Rightarrow> fetch \<Rightarrow> fetch option" where
  "fetch_do par maxPerBatch maxCount Send s =
     (case f_sending s of
        Some (Suc k) \<Rightarrow>
          if f_ret s = None \<and> f_requests s \<noteq> [] \<and> length (f_queue s) < par then
            (let nextBatch = (if length (f_requests s) > maxPerBatch then take maxPerBatch (f_requests s) else f_requests s) in
             Some (s\<lparr>f_requests := drop (length nextBatch) (f_requests s), f_queue := f_queue s @ [nextBatch],
                     f_count := f_count s + 1, f_sending := Some k\<rparr>))
          else None
      | _ \<Rightarrow> None)"
| "fetch_do par maxPerBatch maxCount SendEnd s =
     (case f_sending s of
        Some k \<Rightarrow> if f_ret s = None \<and> (k = 0 \<or> f_requests s = []) then Some (s\<lparr>f_sending := None\<rparr>) else None
      | None \<Rightarrow> None)"
| "fetch_do par maxPerBatch maxCount Return s =
     (if f_ret s = None \<and> f_sending s = None then
        if f_awaited s \<le> 0 then Some (s\<lparr>f_ret := Some (Ok ())\<rparr>)
        else if f_count s > maxCount then Some (s\<lparr>f_ret := Some (Err TooManyRetries)\<rparr>)
        else None
      else None)"
| "fetch_do par maxPerBatch maxCount Tick s =
     (if in_loop maxCount s then Some (s\<lparr>f_sending := Some par\<rparr>) else None)"
| "fetch_do par maxPerBatch maxCount Recv s =
     (if in_loop maxCount s then
        (case f_completed s of
           [] \<Rightarrow> None
         | r # rs \<Rightarrow> (case br_err r of
               Some e \<Rightarrow> Some (s\<lparr>f_completed := rs, f_ret := Some (Err (Wrap ''batch request failed'' e))\<rparr>)
             | None \<Rightarrow> Some (s\<lparr>f_completed := rs, f_requests := f_requests s @ br_failed r,
                               f_awaited := f_awaited s - int (br_success r)\<rparr>)))
      else None)"
| "fetch_do par maxPerBatch maxCount Cancel s =
     (if in_loop maxCount s then Some (s\<lparr>f_ret := Some (Err ContextCanceled)\<rparr>) else None)"
| "fetch_do par maxPerBatch maxCount Take s =
     (case f_queue s of
        [] \<Rightarrow> None
      | b # bs \<Rightarrow> if length (f_busy s) + length (f_finished s) < par
                  then Some (s\<lparr>f_queue := bs, f_busy := f_busy s @ [b]\<rparr>) else None)"
| "fetch_do par maxPerBatch maxCount (Work j err errs) s =
     (if j < length (f_busy s) then
        let batch = f_busy s ! j in
        Some (worker_effect batch err errs
          (s\<lparr>f_busy := drop_nth j (f_busy s), f_finished := f_finished s @ [batchRequest batch err errs]\<rparr>))
      else None)"
| "fetch_do par maxPerBatch maxCount (Post j) s =
     (if j < length (f_finished s) \<and> length (f_completed s) < par
      then Some (s\<lparr>f_finished := drop_nth j (f_finished s), f_completed := f_completed s @ [f_finished s ! j]\<rparr>)
      else None)"

definition fetch_step :: "nat \<Rightarrow> nat \<Rightarrow> int \<Rightarrow> fetch \<Rightarrow> fetch \<Rightarrow> bool" where
  "fetch_step par maxPerBatch maxCount s t \<longleftrightarrow> (\<exists>l. fetch_do par maxPerBatch maxCount l s = Some t)"

fun fetch_run :: "nat \<Rightarrow> nat \<Rightarrow> int \<Rightarrow> fetch_label list \<Rightarrow> fetch \<Rightarrow> fetch option" where
  "fetch_run par maxPerBatch maxCount [] s = Some s"
| "fetch_run par maxPerBatch maxCount (l # ls) s =
     (case fetch_do par maxPerBatch maxCount l s of
        None \<Rightarrow> None | Some t \<Rightarrow> fetch_run par maxPerBatch maxCount ls t)"

lemma fetch_run_reachable:
  "fetch_run par b mc ls s = Some t \<Longrightarrow> (fetch_step par b mc)\<^sup>*\<^sup>* s t"
proof (induction ls arbitrary: s)
  case (Cons l ls)
  then obtain u where "fetch_do par b mc l s = Some u" "fetch_run par b mc ls u = Some t"
    by (auto split: option.splits)
  then show ?case using Cons.IH by (meson converse_rtranclp_into_rtranclp fetch_step_def)
qed simp

section \<open>Invariant\<close>

definition results :: "fetch \<Rightarrow> batchResult list" where
  "results s = f_finished s @ f_completed s"

text \<open>The requests that are still on their way, as a multiset of indices.\<close>

definition pending :: "fetch \<Rightarrow> nat multiset" where
  "pending s = image_mset fst (mset (f_requests s) + mset (concat (f_queue s)) + mset (concat (f_busy s)) +
     mset (concat (map br_failed (results s))))"

fun rounds_left :: "nat option \<Rightarrow> nat" where
  "rounds_left None = 0"
| "rounds_left (Some k) = k"

definition fetch_inv :: "nat \<Rightarrow> nat \<Rightarrow> int \<Rightarrow> fetch \<Rightarrow> bool" where
  "fetch_inv n par maxCount s \<longleftrightarrow>
     (f_ret s = None \<longrightarrow> f_awaited s = int (size (pending s)) + int (sum_list (map br_success (results s)))) \<and>
     (f_ret s = None \<longrightarrow> (\<forall>i < n. i \<in># pending s \<or> i \<in> f_ok s \<or> (\<exists>r \<in> set (results s). br_err r \<noteq> None))) \<and>
     (f_ret s = Some (Ok ()) \<longrightarrow> (\<forall>i < n. i \<in> f_ok s)) \<and>
     (\<forall>b \<in> set (f_queue s) \<union> set (f_busy s). b \<noteq> []) \<and>
     (\<forall>r \<in> set (results s). br_err r \<noteq> None \<longrightarrow> 0 < br_success r) \<and>
     f_count s + int (rounds_left (f_sending s)) \<le> maxCount + int par"

lemma drop_nth_split: "i < length xs \<Longrightarrow> \<exists>p q. xs = p @ xs ! i # q \<and> drop_nth i xs = p @ q"
  unfolding drop_nth_def using id_take_nth_drop by blast

lemma mset_drop_nth: "i < length xs \<Longrightarrow> mset xs = add_mset (xs ! i) (mset (drop_nth i xs))"
  using drop_nth_split [of i xs] by (metis mset.simps(2) mset_append union_mset_add_mset_right)

lemma set_drop_nth: "i < length xs \<Longrightarrow> set xs = insert (xs ! i) (set (drop_nth i xs))"
  by (metis mset_drop_nth set_mset_add_mset_insert set_mset_mset)

lemma mset_concat: "mset (concat xs) = \<Sum>\<^sub># (image_mset mset (mset xs))"
  by (induction xs) auto

lemma mset_concat_drop_nth:
  "i < length xs \<Longrightarrow> mset (concat xs) = mset (xs ! i) + mset (concat (drop_nth i xs))"
  by (simp add: mset_concat mset_drop_nth)

lemma fetch_inv_start: "0 \<le> mc \<Longrightarrow> fetch_inv n par mc (fetch_start n par)"
  by (auto simp: fetch_inv_def fetch_start_def pending_def results_def comp_def image_image)

text \<open>The invariant only depends on the multisets of batches and results, so the moves of a batch from a
  channel to a worker and of a result from a worker to a channel keep it.\<close>

definition same_work :: "fetch \<Rightarrow> fetch \<Rightarrow> bool" where
  "same_work s t \<longleftrightarrow> mset (f_requests s) + mset (concat (f_queue s)) + mset (concat (f_busy s)) =
       mset (f_requests t) + mset (concat (f_queue t)) + mset (concat (f_busy t)) \<and>
     mset (results s) = mset (results t) \<and> f_ok s = f_ok t \<and> f_awaited s = f_awaited t \<and> f_ret s = f_ret t"

lemma same_work_pending: "same_work s t \<Longrightarrow> pending s = pending t"
  unfolding same_work_def pending_def by (simp add: mset_concat)

lemma same_work_results:
  assumes "same_work s t"
  shows "set (results s) = set (results t)" and "sum_list (map br_success (results s)) = sum_list (map br_success (results t))"
  using assms unfolding same_work_def by (metis set_mset_mset, metis mset_map sum_mset_sum_list)

lemma fetch_inv_same_work:
  assumes "fetch_inv n par mc s" and same: "same_work s t"
    and "\<forall>b \<in> set (f_queue t) \<union> set (f_busy t). b \<noteq> []"
    and "f_count t + int (rounds_left (f_sending t)) \<le> mc + int par"
  shows "fetch_inv n par mc t"
proof -
  have eqs: "f_ok t = f_ok s" "f_awaited t = f_awaited s" "f_ret t = f_ret s"
    using same unfolding same_work_def by auto
  show ?thesis
    using assms(1,3,4) unfolding fetch_inv_def eqs
    by (simp add: same_work_pending [OF same] same_work_results [OF same])
qed

section \<open>Every action keeps the invariant\<close>

lemma inv_Send:
  assumes "0 < b" and inv: "fetch_inv n par mc s" and "fetch_do par b mc Send s = Some t"
  shows "fetch_inv n par mc t"
proof -
  define rest where "rest = drop b (f_requests s)"
  define batch where "batch = take b (f_requests s)"
  from assms(3) obtain k where k: "f_sending s = Some (Suc k)" "f_requests s \<noteq> []"
    and t: "t = s\<lparr>f_requests := rest, f_queue := f_queue s @ [batch], f_count := f_count s + 1, f_sending := Some k\<rparr>"
    unfolding rest_def batch_def
    by (auto simp: Let_def split: option.splits nat.splits if_splits)
  have req: "f_requests s = batch @ rest" and "batch \<noteq> []"
    using k \<open>0 < b\<close> by (simp_all add: batch_def rest_def)
  have "same_work s t" by (simp add: same_work_def t results_def req)
  moreover have "\<forall>x \<in> set (f_queue t) \<union> set (f_busy t). x \<noteq> []"
    using inv \<open>batch \<noteq> []\<close> unfolding fetch_inv_def t by auto
  moreover have "f_count s + 1 + int k \<le> mc + int par"
    using inv k(1) unfolding fetch_inv_def by auto
  ultimately show ?thesis
    using fetch_inv_same_work [OF inv, of t] by (simp add: t)
qed

lemma inv_SendEnd:
  "fetch_inv n par mc s \<Longrightarrow> fetch_do par b mc SendEnd s = Some t \<Longrightarrow> fetch_inv n par mc t"
  by (auto simp: fetch_inv_def pending_def results_def split: option.splits if_splits)

lemma inv_Tick:
  "fetch_inv n par mc s \<Longrightarrow> fetch_do par b mc Tick s = Some t \<Longrightarrow> fetch_inv n par mc t"
  by (auto simp: fetch_inv_def in_loop_def pending_def results_def split: if_splits)

lemma inv_Cancel:
  "fetch_inv n par mc s \<Longrightarrow> fetch_do par b mc Cancel s = Some t \<Longrightarrow> fetch_inv n par mc t"
  by (auto simp: fetch_inv_def in_loop_def results_def split: if_splits)

text \<open>Nothing awaited means nothing pending and no failed batch among the results.\<close>

lemma nothing_awaited:
  assumes "fetch_inv n par mc s" and "f_ret s = None" and "f_awaited s \<le> 0" and "i < n"
  shows "i \<in> f_ok s"
proof -
  have zero: "int (size (pending s)) + int (sum_list (map br_success (results s))) \<le> 0"
    using assms unfolding fetch_inv_def by auto
  then have "size (pending s) = 0" and sum: "sum_list (map br_success (results s)) = 0" by linarith+
  then have "pending s = {#}" by (simp only: size_eq_0_iff_empty)
  moreover have "\<forall>r \<in> set (results s). br_success r = 0" using sum by simp
  then have "\<forall>r \<in> set (results s). br_err r = None"
    using assms(1) unfolding fetch_inv_def by fastforce
  ultimately show ?thesis using assms unfolding fetch_inv_def by auto
qed

lemma inv_Return:
  assumes inv: "fetch_inv n par mc s" and do: "fetch_do par b mc Return s = Some t"
  shows "fetch_inv n par mc t"
proof (cases "f_awaited s \<le> 0")
  case True
  then have "f_ret s = None" and t: "t = s\<lparr>f_ret := Some (Ok ())\<rparr>"
    using do by (auto split: if_splits)
  then have "\<forall>i < n. i \<in> f_ok s" using nothing_awaited [OF inv] True by blast
  then show ?thesis using inv unfolding fetch_inv_def t by (simp add: results_def)
next
  case False
  then have "t = s\<lparr>f_ret := Some (Err TooManyRetries)\<rparr>"
    using do by (auto split: if_splits)
  then show ?thesis using inv unfolding fetch_inv_def by (simp add: results_def)
qed

lemma inv_Recv:
  assumes inv: "fetch_inv n par mc s" and do: "fetch_do par b mc Recv s = Some t"
  shows "fetch_inv n par mc t"
proof -
  from do obtain r rs where c: "f_completed s = r # rs" and "in_loop mc s"
    by (auto split: if_splits list.splits)
  then have ret: "f_ret s = None" by (simp add: in_loop_def)
  show ?thesis
  proof (cases "br_err r")
    case None
    then have t: "t = s\<lparr>f_completed := rs, f_requests := f_requests s @ br_failed r,
        f_awaited := f_awaited s - int (br_success r)\<rparr>"
      using do c by (auto split: if_splits)
    have "pending t = pending s" by (simp add: pending_def results_def t c ac_simps)
    then have "fetch_inv n par mc t \<longleftrightarrow>
      f_awaited s - int (br_success r) = int (size (pending s)) + int (sum_list (map br_success (f_finished s @ rs))) \<and>
      (\<forall>i < n. i \<in># pending s \<or> i \<in> f_ok s \<or> (\<exists>r \<in> set (f_finished s @ rs). br_err r \<noteq> None)) \<and>
      (\<forall>b \<in> set (f_queue s) \<union> set (f_busy s). b \<noteq> []) \<and>
      (\<forall>r \<in> set (f_finished s @ rs). br_err r \<noteq> None \<longrightarrow> 0 < br_success r) \<and>
      f_count s + int (rounds_left (f_sending s)) \<le> mc + int par"
      unfolding fetch_inv_def using ret by (simp add: t results_def)
    moreover have "set (results s) = insert r (set (f_finished s @ rs))"
      and "sum_list (map br_success (results s)) = br_success r + sum_list (map br_success (f_finished s @ rs))"
      by (auto simp: results_def c)
    ultimately show ?thesis using inv ret None unfolding fetch_inv_def by auto
  next
    case (Some e)
    then have "t = s\<lparr>f_completed := rs, f_ret := Some (Err (Wrap ''batch request failed'' e))\<rparr>"
      using do c by (auto split: if_splits)
    then show ?thesis using inv unfolding fetch_inv_def by (auto simp: results_def c)
  qed
qed

lemma inv_Take:
  assumes inv: "fetch_inv n par mc s" and do: "fetch_do par b mc Take s = Some t"
  shows "fetch_inv n par mc t"
proof -
  from do obtain x xs where q: "f_queue s = x # xs" and t: "t = s\<lparr>f_queue := xs, f_busy := f_busy s @ [x]\<rparr>"
    by (auto split: if_splits list.splits)
  have "same_work s t" by (simp add: same_work_def t results_def q ac_simps)
  then show ?thesis
    using fetch_inv_same_work [OF inv, of t] inv unfolding fetch_inv_def by (auto simp: t q)
qed

lemma inv_Post:
  assumes inv: "fetch_inv n par mc s" and do: "fetch_do par b mc (Post j) s = Some t"
  shows "fetch_inv n par mc t"
proof -
  from do have j: "j < length (f_finished s)"
    and t: "t = s\<lparr>f_finished := drop_nth j (f_finished s), f_completed := f_completed s @ [f_finished s ! j]\<rparr>"
    by (auto split: if_splits)
  have "same_work s t" by (simp add: same_work_def t results_def mset_drop_nth [OF j])
  then show ?thesis
    using fetch_inv_same_work [OF inv, of t] inv unfolding fetch_inv_def by (auto simp: t)
qed

lemma batch_failed_size:
  "length (br_failed (batchRequest batch None errs)) + br_success (batchRequest batch None errs) = length batch"
  by (simp add: batchRequest_def)

lemma batch_failed_indices:
  "(\<exists>c. (i, c) \<in> set (br_failed (batchRequest batch None errs))) \<longleftrightarrow> (\<exists>c. (i, c) \<in> set batch) \<and> errs i \<noteq> None"
  by (force simp: batchRequest_def)

lemma pending_iff:
  "i \<in># pending s \<longleftrightarrow> (\<exists>c. (i, c) \<in> set (f_requests s) \<or> (i, c) \<in> set (concat (f_queue s)) \<or>
     (i, c) \<in> set (concat (f_busy s)) \<or> (i, c) \<in> set (concat (map br_failed (results s))))"
proof -
  have img: "i \<in># image_mset fst M \<longleftrightarrow> (\<exists>c. (i, c) \<in># M)" for M :: "elem multiset" by force
  show ?thesis unfolding pending_def img by auto
qed

lemma inv_Work:
  assumes inv: "fetch_inv n par mc s" and do: "fetch_do par b mc (Work j err errs) s = Some t"
  shows "fetch_inv n par mc t"
proof -
  define batch where "batch = f_busy s ! j"
  define r where "r = batchRequest batch err errs"
  from do have j: "j < length (f_busy s)"
    and t: "t = worker_effect batch err errs (s\<lparr>f_busy := drop_nth j (f_busy s), f_finished := f_finished s @ [r]\<rparr>)"
    unfolding batch_def r_def by (auto simp: Let_def split: if_splits)
  have flds: "f_requests t = f_requests s" "f_queue t = f_queue s" "f_busy t = drop_nth j (f_busy s)"
    "results t = f_finished s @ r # f_completed s" "f_awaited t = f_awaited s" "f_ret t = f_ret s"
    "f_sending t = f_sending s" "f_count t = f_count s"
    unfolding t worker_effect_def results_def by (auto split: option.splits)
  have ne: "batch \<noteq> []" using inv j unfolding fetch_inv_def batch_def by auto
  have rest: "\<forall>x \<in> set (drop_nth j (f_busy s)). x \<noteq> []"
    using inv set_drop_nth [OF j] unfolding fetch_inv_def by auto
  have size: "size (pending s) + length (br_failed r) = size (pending t) + length batch"
    unfolding pending_def flds by (simp add: results_def batch_def mset_concat_drop_nth [OF j])
  have ok: "f_ok t = f_ok s \<union> (if err = None then {i. \<exists>c. (i, c) \<in> set batch \<and> errs i = None} else {})"
    unfolding t worker_effect_def by (auto split: option.splits)
  have fin: "length (br_failed r) + br_success r = length batch"
    unfolding r_def using batch_failed_size by (cases err) (auto simp: batchRequest_def)
  have set_b: "set (concat (f_busy s)) = set batch \<union> set (concat (drop_nth j (f_busy s)))"
    using mset_concat_drop_nth [OF j] unfolding batch_def by (metis set_mset_mset set_mset_union)
  have cover: "i \<in># pending t \<or> i \<in> f_ok t \<or> (\<exists>x \<in> set (results t). br_err x \<noteq> None)"
    if old: "i \<in># pending s \<or> i \<in> f_ok s \<or> (\<exists>x \<in> set (results s). br_err x \<noteq> None)" for i
  proof (cases "\<exists>c. (i, c) \<in> set batch")
    case True
    show ?thesis
    proof (cases err)
      case None
      then show ?thesis
        using True batch_failed_indices [of i batch errs] unfolding ok pending_iff flds r_def
        by (cases "errs i") auto
    next
      case (Some e)
      then show ?thesis unfolding flds r_def by (simp add: batchRequest_def)
    qed
  next
    case False
    then have "i \<in># pending s \<Longrightarrow> i \<in># pending t"
      unfolding pending_iff flds set_b by (auto simp: results_def)
    with old show ?thesis unfolding ok flds by (auto simp: results_def)
  qed
  have err: "br_err r \<noteq> None \<Longrightarrow> 0 < br_success r"
    using ne unfolding r_def by (cases err) (auto simp: batchRequest_def Let_def)
  show ?thesis
    using inv size fin rest cover err unfolding fetch_inv_def flds ok by (auto simp: results_def)
qed

lemmas inv_labels = inv_Send inv_SendEnd inv_Tick inv_Recv inv_Return inv_Cancel inv_Take inv_Work inv_Post

lemma fetch_step_inv:
  assumes "0 < b" and "fetch_inv n par mc s" and "fetch_step par b mc s t"
  shows "fetch_inv n par mc t"
proof -
  from assms(3) obtain l where "fetch_do par b mc l s = Some t" by (auto simp: fetch_step_def)
  with assms(1,2) show ?thesis by (cases l) (blast intro: inv_labels)+
qed

section \<open>Runs of \<open>fetchBatched\<close>\<close>

text \<open>The states that a call reaches: the number of workers and the bound on batches come from the
  configuration as in the source.\<close>

definition fetch_reachable :: "nat \<Rightarrow> nat \<Rightarrow> nat \<Rightarrow> nat \<Rightarrow> fetch \<Rightarrow> bool" where
  "fetch_reachable n maxRetry maxPerBatch maxParallel t \<longleftrightarrow>
     (let par = workers n maxPerBatch maxParallel in
      (fetch_step par maxPerBatch (int (expectedBatches n maxPerBatch * maxRetry)))\<^sup>*\<^sup>* (fetch_start n par) t)"

interpretation fetching: step_invariant
  "\<lambda>x. \<exists>n par mc b. 0 < b \<and> 0 \<le> mc \<and> x = ((n, par, mc, b), fetch_start n par)"
  "\<lambda>x y. fst y = fst x \<and> (case fst x of (n, par, mc, b) \<Rightarrow> fetch_step par b mc (snd x) (snd y))"
  "\<lambda>x. case fst x of (n, par, mc, b) \<Rightarrow> 0 < b \<and> fetch_inv n par mc (snd x)"
  by unfold_locales (auto intro: fetch_inv_start fetch_step_inv)

lemma lift_steps:
  "(fetch_step par b mc)\<^sup>*\<^sup>* s t \<Longrightarrow>
   (\<lambda>x y. fst y = fst x \<and> (case fst x of (n, par, mc, b) \<Rightarrow> fetch_step par b mc (snd x) (snd y)))\<^sup>*\<^sup>*
     ((n, par, mc, b), s) ((n, par, mc, b), t)"
  by (induction rule: rtranclp_induct) (auto intro: rtranclp.rtrancl_into_rtrancl)

lemma reachable_fetch_inv:
  assumes "0 < b" and "fetch_reachable n maxRetry b maxParallel t"
  shows "fetch_inv n (workers n b maxParallel) (int (expectedBatches n b * maxRetry)) t"
proof -
  have "(fetch_step (workers n b maxParallel) b (int (expectedBatches n b * maxRetry)))\<^sup>*\<^sup>*
      (fetch_start n (workers n b maxParallel)) t"
    using assms(2) by (simp add: fetch_reachable_def Let_def)
  from fetching.reachable_inv [OF _ lift_steps [OF this, of n]] show ?thesis
    using assms(1) by fastforce
qed

lemma fetch_reachable_run:
  "fetch_run (workers n b maxParallel) b (int (expectedBatches n b * maxRetry)) ls (fetch_start n (workers n b maxParallel)) = Some t \<Longrightarrow>
   fetch_reachable n maxRetry b maxParallel t"
  unfolding fetch_reachable_def Let_def by (rule fetch_run_reachable)

lemmas run_simps = workers_def expectedBatches_def fetch_start_def in_loop_def worker_effect_def batchRequest_def drop_nth_def Let_def

text \<open>C20: \<open>fetchBatched\<close> returns \<open>nil\<close> only after every one of the \<open>n\<close> requests had a successful response:
  no interleaving of the workers, the retry timer and the main loop loses a request, and whole-batch
  errors are never taken for success.\<close>

theorem fetchBatched_complete:
  assumes "0 < maxPerBatch" and "fetch_reachable n maxRetry maxPerBatch maxParallel t" and "f_ret t = Some (Ok ())"
  shows "{0..<n} \<subseteq> f_ok t"
  using reachable_fetch_inv [OF assms(1,2)] assms(3) unfolding fetch_inv_def by auto

theorem fetchBatched_complete_witness:
  "\<exists>t. fetch_reachable 2 3 2 1 t \<and> f_ret t = Some (Ok ()) \<and> {0..<2} \<subseteq> f_ok t"
proof -
  define ls where "ls = [Send, SendEnd, Take, Work 0 None (\<lambda>i. if i = 0 then Some NotFound else None), Post 0, Recv,
     Tick, Send, SendEnd, Take, Work 0 None (\<lambda>_. None), Post 0, Recv, Return]"
  obtain t where t: "fetch_run (workers 2 2 1) 2 (int (expectedBatches 2 2 * 3)) ls (fetch_start 2 (workers 2 2 1)) = Some t"
    and r: "f_ret t = Some (Ok ())"
    by (auto simp: ls_def run_simps upt_rec)
  show ?thesis using fetchBatched_complete [OF _ fetch_reachable_run [OF t] r] fetch_reachable_run [OF t] r by auto
qed

text \<open>the number of batches that one call sends stays within \<open>expectedBatches * maxRetry\<close> plus one
  round of the workers: the retry limit is checked between rounds only.\<close>

theorem fetchBatched_request_bound:
  assumes "0 < maxPerBatch" and "fetch_reachable n maxRetry maxPerBatch maxParallel t"
  shows "f_count t \<le> int (expectedBatches n maxPerBatch * maxRetry + workers n maxPerBatch maxParallel)"
  using reachable_fetch_inv [OF assms] unfolding fetch_inv_def by auto

theorem fetchBatched_request_bound_witness:
  "\<exists>t. fetch_reachable 2 1 1 2 t \<and> f_count t = 2 \<and> f_count t \<le> int (expectedBatches 2 1 * 1 + workers 2 1 2)"
proof -
  obtain t where t: "fetch_run (workers 2 1 2) 1 (int (expectedBatches 2 1 * 1)) [Send, Send] (fetch_start 2 (workers 2 1 2)) = Some t"
    and c: "f_count t = 2"
    by (simp add: run_simps upt_rec)
  show ?thesis using fetchBatched_request_bound [OF _ fetch_reachable_run [OF t]] fetch_reachable_run [OF t] c by auto
qed

section \<open>Two behaviours that the comments of the source exclude\<close>

text \<open>A retry works on a copy of the element, so after a successful retry the caller's own element
  still carries the error of the first attempt, although \<open>fetchBatched\<close> returns \<open>nil\<close>.\<close>

theorem retried_element_keeps_error:
  "\<exists>t. fetch_reachable 1 3 1 1 t \<and> f_ret t = Some (Ok ()) \<and> 0 \<in> f_ok t \<and> f_error t 0 = Some NotFound"
proof -
  define ls where "ls = [Send, SendEnd, Take, Work 0 None (\<lambda>_. Some NotFound), Post 0, Recv,
     Tick, Send, SendEnd, Take, Work 0 None (\<lambda>_. None), Post 0, Recv, Return]"
  obtain t where t: "fetch_run (workers 1 1 1) 1 (int (expectedBatches 1 1 * 3)) ls (fetch_start 1 (workers 1 1 1)) = Some t"
    and "f_ret t = Some (Ok ())" "0 \<in> f_ok t" "f_error t 0 = Some NotFound"
    by (auto simp: ls_def run_simps upt_rec)
  then show ?thesis using fetch_reachable_run [OF t] by blast
qed

text \<open>The capacity of \<open>completed\<close> does not keep the workers from getting stuck on writing: the main
  goroutine can be blocked on a full task queue while every worker is blocked on a full result queue,
  and then no goroutine moves again, not even when the caller's context ends.\<close>

theorem fetchBatched_can_deadlock:
  "\<exists>t. fetch_reachable 4 3 1 1 t \<and> f_ret t = None \<and> (\<forall>l. fetch_do (workers 4 1 1) 1 12 l t = None)"
proof -
  define ls where "ls = [Send, SendEnd, Take, Work 0 None (\<lambda>_. None), Post 0, Tick, Send, SendEnd,
     Take, Work 0 None (\<lambda>_. None), Tick, Send, SendEnd, Tick]"
  obtain t where t: "fetch_run (workers 4 1 1) 1 (int (expectedBatches 4 1 * 3)) ls (fetch_start 4 (workers 4 1 1)) = Some t"
    and r: "f_ret t = None" and fs: "f_sending t = Some 1" "f_requests t = [(3, False)]" "length (f_queue t) = 1" "f_busy t = []"
      "length (f_finished t) = 1" "length (f_completed t) = 1"
    by (auto simp: ls_def run_simps upt_rec)
  have "fetch_do (workers 4 1 1) 1 12 l t = None" for l
    using fs r by (cases l) (auto simp: in_loop_def workers_def expectedBatches_def split: list.splits option.splits nat.splits)
  then show ?thesis using fetch_reachable_run [OF t] r by blast
qed

end
