(* ===== verification/SSZ.thy ===== *)
theory SSZ
  imports Payload
begin

text \<open>
  The SSZ codec of execution payloads (\<open>op-node/l2/ssz.go\<close>), with its 32-bit offset arithmetic, the
  buffer pool and every slice bound. \<open>MarshalSSZ\<close> takes the buffer that the pool hands out (its
  contents are whatever an earlier message left there) and \<open>UnmarshalSSZ\<close> takes the scope and the
  bytes of the reader. The lemmas give the exact layout of the encoding, independent of the pooled
  buffer, the round trip, and the inputs on which the decoder panics.
\<close>

section \<open>Definitions\<close>

definition executionPayloadFixedPart :: u32 where
  "executionPayloadFixedPart = 32 + 20 + 32 + 32 + 256 + 32 + 8 + 8 + 8 + 8 + 4 + 32 + 32 + 4"

definition maxTransactionsPerPayload :: u32 where
  "maxTransactionsPerPayload = 1048576"

definition SizeSSZ :: "ExecutionPayload \<Rightarrow> u32" where
  "SizeSSZ payload =
     foldl (\<lambda>full tx. full + of_nat (length tx))
       (executionPayloadFixedPart + of_nat (length (ep_ExtraData payload))
          + of_nat (length (ep_Transactions payload)) * 4)
       (ep_Transactions payload)"

text \<open>The limbs \<open>z[0]\<close> to \<open>z[3]\<close> of a \<open>uint256.Int\<close>, least significant first.\<close>

definition limb :: "256 word \<Rightarrow> nat \<Rightarrow> u64" where
  "limb z i = of_nat (unat z div 2 ^ (64 * i) mod 2 ^ 64)"

definition marshalBytes32LE :: "256 word \<Rightarrow> bytes" where
  "marshalBytes32LE z =
     word_le 8 (limb z 0) @ word_le 8 (limb z 1) @ word_le 8 (limb z 2) @ word_le 8 (limb z 3)"

definition unmarshalBytes32LE :: "bytes \<Rightarrow> 256 word" where
  "unmarshalBytes32LE inp =
     (let z = (\<lambda>i. unat (of_le (take 8 (drop (8 * i) inp)) :: u64))
      in of_nat (z 0 + 2 ^ 64 * z 1 + 2 ^ 128 * z 2 + 2 ^ 192 * z 3))"

text \<open>The pairs \<open>copy(buf[offset:offset+n], field); offset += n\<close> of \<open>MarshalSSZ\<close>, in order.\<close>

fun put_fields :: "bytes \<Rightarrow> u32 \<Rightarrow> bytes list \<Rightarrow> (bytes \<times> u32) res" where
  "put_fields buf offset [] = Ok (buf, offset)"
| "put_fields buf offset (f # fs) =
     (let offset' = offset + of_nat (length f) in
      bind_res (slice_copy buf (unat offset) (unat offset') f) (\<lambda>buf.
      put_fields buf offset' fs))"

definition fixed_fields :: "ExecutionPayload \<Rightarrow> bytes list" where
  "fixed_fields payload =
     [word_be 32 (ep_ParentHash payload),
      word_be 20 (ep_FeeRecipient payload),
      word_be 32 (ep_StateRoot payload),
      word_be 32 (ep_ReceiptsRoot payload),
      word_be 256 (ep_LogsBloom payload),
      word_be 32 (ep_PrevRandao payload),
      word_le 8 (ep_BlockNumber payload),
      word_le 8 (ep_GasLimit payload),
      word_le 8 (ep_GasUsed payload),
      word_le 8 (ep_Timestamp payload),
      word_le 4 executionPayloadFixedPart,
      marshalBytes32LE (ep_BaseFeePerGas payload),
      word_be 32 (ep_BlockHash payload),
      word_le 4 (executionPayloadFixedPart + of_nat (length (ep_ExtraData payload)))]"

fun marshalTransactions_loop :: "bytes \<Rightarrow> u32 \<Rightarrow> u32 \<Rightarrow> bytes list \<Rightarrow> bytes res" where
  "marshalTransactions_loop out offset txOffset [] = Ok out"
| "marshalTransactions_loop out offset txOffset (tx # txs) =
     bind_res (slice_copy out (unat offset) (unat (offset + 4)) (word_le 4 txOffset)) (\<lambda>out.
     let nextTxOffset = txOffset + of_nat (length tx) in
     bind_res (slice_copy out (unat txOffset) (unat nextTxOffset) tx) (\<lambda>out.
     marshalTransactions_loop out (offset + 4) nextTxOffset txs))"

definition marshalTransactions :: "bytes \<Rightarrow> bytes list \<Rightarrow> bytes res" where
  "marshalTransactions out txs = marshalTransactions_loop out 0 (of_nat (length txs) * 4) txs"

text \<open>\<open>pool\<close> is the backing array of the pooled buffer (its length is the capacity); the slice that
  is written in the end is its first \<open>scope\<close> bytes.\<close>

definition MarshalSSZ :: "bytes \<Rightarrow> ExecutionPayload \<Rightarrow> bytes res" where
  "MarshalSSZ pool payload =
     (let scope = SizeSSZ payload;
          buf = (if of_nat (length pool) < scope then replicate (unat scope) 0 else pool) in
      bind_res (put_fields buf 0 (fixed_fields payload)) (\<lambda>(buf, offset).
      if offset \<noteq> executionPayloadFixedPart then Panic ''fixed part size is inconsistent''
      else bind_res (put_fields buf offset [ep_ExtraData payload]) (\<lambda>(buf, offset).
      if unat scope < unat offset then Panic ''slice bounds out of range''
      else bind_res (marshalTransactions (drop (unat offset) buf) (ep_Transactions payload)) (\<lambda>out.
      Ok (take (unat scope) (take (unat offset) buf @ out))))))"

text \<open>The loop of \<open>unmarshalTransactions\<close>; the counter is the number of transactions left.\<close>

fun unmarshalTransactions_loop ::
  "bytes \<Rightarrow> u32 \<Rightarrow> nat \<Rightarrow> u32 \<Rightarrow> u32 \<Rightarrow> bytes list res" where
  "unmarshalTransactions_loop inp scope 0 offset currentTxOffset = Ok []"
| "unmarshalTransactions_loop inp scope (Suc k) offset currentTxOffset =
     bind_res (if k > 0
               then bind_res (slice inp (unat offset) (unat (offset + 4))) (\<lambda>bs. Ok (of_le bs, offset + 4))
               else Ok (scope, offset)) (\<lambda>(nextTxOffset, offset).
     if nextTxOffset < currentTxOffset \<or> nextTxOffset > scope
       then Err (ErrMsg ''tx has bad next offset'')
     else bind_res (slice inp (unat currentTxOffset) (unat nextTxOffset)) (\<lambda>tx.
     bind_res (unmarshalTransactions_loop inp scope k offset nextTxOffset) (\<lambda>txs.
     Ok (tx # txs))))"

definition unmarshalTransactions :: "bytes \<Rightarrow> bytes list res" where
  "unmarshalTransactions inp =
     (let scope = of_nat (length inp) :: u32 in
      if scope = 0 then Ok []
      else if scope < 4 then Err (ErrMsg ''not enough scope to read first tx offset'')
      else bind_res (slice inp 0 4) (\<lambda>bs.
        let firstTxOffset = of_le bs :: u32 in
        if firstTxOffset mod 4 \<noteq> 0 then Err (ErrMsg ''invalid first tx offset, not a multiple of offset size'')
        else if firstTxOffset > scope then Err (ErrMsg ''invalid first tx offset, out of scope'')
        else let txCount = firstTxOffset div 4 in
        if txCount > maxTransactionsPerPayload then Err (ErrMsg ''too many transactions'')
        else unmarshalTransactions_loop inp scope (unat txCount) 4 firstTxOffset))"

definition UnmarshalSSZ :: "u32 \<Rightarrow> bytes \<Rightarrow> ExecutionPayload res" where
  "UnmarshalSSZ scope r =
     (if scope < executionPayloadFixedPart then Err (ErrMsg ''scope too small to decode execution payload'')
      else if length r < unat scope then Err (ErrMsg ''failed to read fixed-size part of ExecutionPayload'')
      else
        let buf = take (unat scope) r;
            at = (\<lambda>a n. take n (drop a buf));
            extraDataOffset = of_le (at 436 4) :: u32;
            transactionsOffset = of_le (at 504 4) :: u32 in
        if extraDataOffset \<noteq> executionPayloadFixedPart then Err (ErrMsg ''unexpected extra data offset'')
        else if transactionsOffset > extraDataOffset + 32 \<or> transactionsOffset > scope
          then Err (ErrMsg ''extra-data is too large'')
        else bind_res (slice buf (unat extraDataOffset) (unat transactionsOffset)) (\<lambda>extra.
        bind_res (map_err (\<lambda>e. ErrMsg ''failed to unmarshal transactions list'')
                    (unmarshalTransactions (drop (unat transactionsOffset) buf))) (\<lambda>txs.
        Ok \<lparr>ep_ParentHash = of_be (at 0 32),
            ep_FeeRecipient = of_be (at 32 20),
            ep_StateRoot = of_be (at 52 32),
            ep_ReceiptsRoot = of_be (at 84 32),
            ep_LogsBloom = of_be (at 116 256),
            ep_PrevRandao = of_be (at 372 32),
            ep_BlockNumber = of_le (at 404 8),
            ep_GasLimit = of_le (at 412 8),
            ep_GasUsed = of_le (at 420 8),
            ep_Timestamp = of_le (at 428 8),
            ep_ExtraData = extra,
            ep_BaseFeePerGas = unmarshalBytes32LE (at 440 32),
            ep_BlockHash = of_be (at 472 32),
            ep_Transactions = txs\<rparr>)))"

section \<open>Layout of the encoding\<close>

text \<open>The size as a number without wrap-around, and the layout as a concatenation.\<close>

definition ssz_size :: "ExecutionPayload \<Rightarrow> nat" where
  "ssz_size p = 508 + length (ep_ExtraData p) + 4 * length (ep_Transactions p) +
     length (concat (ep_Transactions p))"

fun tx_offsets :: "nat \<Rightarrow> bytes list \<Rightarrow> bytes" where
  "tx_offsets off [] = []"
| "tx_offsets off (tx # txs) = word_le 4 (of_nat off :: u32) @ tx_offsets (off + length tx) txs"

definition txs_layout :: "bytes list \<Rightarrow> bytes" where
  "txs_layout txs = tx_offsets (4 * length txs) txs @ concat txs"

definition ssz_layout :: "ExecutionPayload \<Rightarrow> bytes" where
  "ssz_layout p = concat (fixed_fields p) @ ep_ExtraData p @ txs_layout (ep_Transactions p)"

text \<open>Payloads whose encoding the decoder accepts: the limits of the format and of its 32-bit sizes.\<close>

definition ssz_ok :: "ExecutionPayload \<Rightarrow> bool" where
  "ssz_ok p \<longleftrightarrow> ssz_size p < 2 ^ 32 \<and> length (ep_ExtraData p) \<le> 32 \<and>
     length (ep_Transactions p) \<le> 1048576"

lemma fixedPart_eq [simp]: "executionPayloadFixedPart = 508"
  by (simp add: executionPayloadFixedPart_def)

lemma length_tx_offsets [simp]: "length (tx_offsets off txs) = 4 * length txs"
  by (induction txs arbitrary: off) auto

lemma length_marshalBytes32LE [simp]: "length (marshalBytes32LE z) = 32"
  by (simp add: marshalBytes32LE_def)

lemma length_fixed_fields [simp]: "length (concat (fixed_fields p)) = 508"
  by (simp add: fixed_fields_def)

lemma length_ssz_layout [simp]: "length (ssz_layout p) = ssz_size p"
  by (simp add: ssz_layout_def txs_layout_def ssz_size_def)

lemma unat_of_nat_u32: "n < 2 ^ 32 \<Longrightarrow> unat (of_nat n :: u32) = n"
  by (simp add: unat_of_nat)

lemma SizeSSZ_eq: "SizeSSZ p = of_nat (ssz_size p)"
proof -
  have "foldl (\<lambda>full tx. full + of_nat (length tx)) a txs = a + of_nat (length (concat txs))"
    for a :: u32 and txs :: "bytes list"
    by (induction txs arbitrary: a) auto
  then show ?thesis by (simp add: SizeSSZ_def ssz_size_def)
qed

lemma unat_SizeSSZ: "ssz_size p < 2 ^ 32 \<Longrightarrow> unat (SizeSSZ p) = ssz_size p"
  by (simp add: SizeSSZ_eq unat_of_nat_u32)

lemma put_fields_eq:
  assumes "length q = length (concat fs)" and "length p + length (concat fs) < 2 ^ 32"
  shows "put_fields (p @ q @ s) (of_nat (length p)) fs =
    Ok (p @ concat fs @ s, of_nat (length p + length (concat fs)))"
  using assms
proof (induction fs arbitrary: p q)
  case (Cons f fs)
  obtain q1 q2 where q: "q = q1 @ q2" "length q1 = length f"
    using split_at [of "length f" q] Cons.prems(1) by auto
  have u: "unat (of_nat (length p) :: u32) = length p"
    "unat (of_nat (length p) + of_nat (length f) :: u32) = length p + length f"
    using Cons.prems(2) unat_of_nat_u32 [of "length p + length f"] unat_of_nat_u32 [of "length p"]
    by simp_all
  have copy: "slice_copy (p @ q @ s) (length p) (length p + length f) f = Ok ((p @ f) @ q2 @ s)"
    using slice_copy_append [of p "length p" "length p + length f" f q1 "q2 @ s"] q by simp
  have "put_fields ((p @ f) @ q2 @ s) (of_nat (length (p @ f))) fs =
      Ok ((p @ f) @ concat fs @ s, of_nat (length (p @ f) + length (concat fs)))"
    using Cons.prems q by (intro Cons.IH) auto
  then show ?case by (simp add: u copy add.assoc)
qed simp

lemma marshalTransactions_loop_eq:
  assumes "length h = 4 * length txs" and "length d = length (concat txs)"
    and "to = length a + length h + length c"
    and "to + length (concat txs) < 2 ^ 32"
  shows "marshalTransactions_loop (a @ h @ c @ d @ s) (of_nat (length a)) (of_nat to) txs =
    Ok (a @ tx_offsets to txs @ c @ concat txs @ s)"
  using assms
proof (induction txs arbitrary: a h c d to)
  case (Cons tx txs)
  obtain h1 h2 where h: "h = h1 @ h2" "length h1 = 4"
    using split_at [of 4 h] Cons.prems(1) by auto
  obtain d1 d2 where d: "d = d1 @ d2" "length d1 = length tx"
    using split_at [of "length tx" d] Cons.prems(2) by auto
  let ?o = "word_le 4 (of_nat to :: u32)"
  have u: "unat (of_nat (length a) :: u32) = length a" "unat (of_nat (length a) + 4 :: u32) = length a + 4"
    "unat (of_nat to :: u32) = to" "unat (of_nat to + of_nat (length tx) :: u32) = to + length tx"
    using Cons.prems h unat_of_nat_u32 [of "length a"] unat_of_nat_u32 [of "length a + 4"]
      unat_of_nat_u32 [of to] unat_of_nat_u32 [of "to + length tx"]
    by simp_all
  have c1: "slice_copy (a @ h @ c @ d @ s) (length a) (length a + 4) ?o = Ok (a @ ?o @ h2 @ c @ d @ s)"
    using slice_copy_append [of a "length a" "length a + 4" ?o h1 "h2 @ c @ d @ s"] h by simp
  have "length (a @ ?o @ h2 @ c) = to" using Cons.prems(3) h by simp
  then have c2: "slice_copy (a @ ?o @ h2 @ c @ d @ s) to (to + length tx) tx =
      Ok (a @ ?o @ h2 @ (c @ tx) @ d2 @ s)"
    using slice_copy_append [of "a @ ?o @ h2 @ c" to "to + length tx" tx d1 "d2 @ s"] d by simp
  have "marshalTransactions_loop ((a @ ?o) @ h2 @ (c @ tx) @ d2 @ s) (of_nat (length (a @ ?o)))
      (of_nat (to + length tx)) txs =
      Ok ((a @ ?o) @ tx_offsets (to + length tx) txs @ (c @ tx) @ concat txs @ s)"
    using Cons.prems h d by (intro Cons.IH) auto
  then show ?case by (simp add: u c1 c2 add.commute)
qed simp

lemma marshalTransactions_eq:
  assumes "length h = 4 * length txs + length (concat txs)" and "length h < 2 ^ 32"
  shows "marshalTransactions (h @ s) txs = Ok (txs_layout txs @ s)"
proof -
  obtain h1 d where h: "h = h1 @ d" "length h1 = 4 * length txs"
    using split_at [of "4 * length txs" h] assms(1) by auto
  then have d: "length d = length (concat txs)" using assms(1) by simp
  show ?thesis
    using marshalTransactions_loop_eq [of h1 txs d "4 * length txs" "[]" "[]" s] assms h d
    by (simp add: marshalTransactions_def txs_layout_def mult.commute)
qed

lemma MarshalSSZ_layout:
  assumes "ssz_size p < 2 ^ 32"
  shows "MarshalSSZ pool p = Ok (ssz_layout p) \<or> 2 ^ 32 \<le> length pool"
proof (cases "length pool < 2 ^ 32")
  case True
  let ?n = "ssz_size p"
  define buf where "buf = (if of_nat (length pool) < SizeSSZ p then replicate (unat (SizeSSZ p)) 0 else pool)"
  have us: "unat (SizeSSZ p) = ?n" by (rule unat_SizeSSZ [OF assms])
  have lb: "?n \<le> length buf"
  proof (cases "of_nat (length pool) < SizeSSZ p")
    case False
    then have "unat (SizeSSZ p) \<le> unat (of_nat (length pool) :: u32)"
      by (simp add: not_less word_le_nat_alt)
    then show ?thesis
      using False unat_SizeSSZ [OF assms] unat_of_nat_u32 [OF True] by (simp add: buf_def)
  qed (simp add: buf_def us)
  then obtain b s where bs: "buf = b @ s" "length b = ?n" using split_at by blast
  obtain q r where q: "b = q @ r" "length q = 508"
    using split_at [of 508 b] bs(2) by (auto simp: ssz_size_def)
  obtain e t where e: "r = e @ t" "length e = length (ep_ExtraData p)"
    using split_at [of "length (ep_ExtraData p)" r] bs(2) q by (auto simp: ssz_size_def)
  have t: "length t = 4 * length (ep_Transactions p) + length (concat (ep_Transactions p))"
    using bs(2) q e by (simp add: ssz_size_def)
  let ?F = "concat (fixed_fields p)" and ?x = "ep_ExtraData p"
  have f1: "put_fields buf 0 (fixed_fields p) = Ok (?F @ e @ t @ s, 508)"
    using put_fields_eq [of q "fixed_fields p" "[]" "e @ t @ s"] q e bs by simp
  have "508 + length ?x < 2 ^ 32" using assms by (simp add: ssz_size_def)
  then have f2: "put_fields (?F @ e @ t @ s) 508 [?x] = Ok (?F @ ?x @ t @ s, of_nat (508 + length ?x))"
    using put_fields_eq [of e "[?x]" ?F "t @ s"] e by (simp del: of_nat_add put_fields.simps)
  have uo: "unat (of_nat (508 + length ?x) :: u32) = 508 + length ?x"
    using \<open>508 + length ?x < 2 ^ 32\<close> by (rule unat_of_nat_u32)
  have tt: "length t < 2 ^ 32" using assms t by (simp add: ssz_size_def)
  have m: "marshalTransactions (t @ s) (ep_Transactions p) = Ok (txs_layout (ep_Transactions p) @ s)"
    using t tt by (rule marshalTransactions_eq)
  have le: "508 + length ?x \<le> ?n" by (simp add: ssz_size_def)
  have tk: "take ?n ((?F @ ?x) @ txs_layout (ep_Transactions p) @ s) = ssz_layout p"
    using length_ssz_layout [of p] by (simp add: ssz_layout_def)
  have "MarshalSSZ pool p = Ok (ssz_layout p)"
    unfolding MarshalSSZ_def Let_def buf_def [symmetric]
    using f1 f2 uo m us le tk by (simp del: put_fields.simps of_nat_add)
  then show ?thesis ..
qed simp

section \<open>Decoding\<close>

lemma tx_offsets_append:
  "tx_offsets off (xs @ ys) = tx_offsets off xs @ tx_offsets (off + length (concat xs)) ys"
  by (induction xs arbitrary: off) (auto simp: add.assoc)

lemma slice_append_u32:
  assumes "length p = a" and "length (p @ m @ r) < 2 ^ 32"
  shows "slice (p @ m @ r) (unat (of_nat a :: u32)) (unat (of_nat (a + length m) :: u32)) = Ok m"
  using assms by (simp add: unat_of_nat_u32 del: of_nat_add)

lemma of_nat_u32_less_iff:
  "m < 2 ^ 32 \<Longrightarrow> n < 2 ^ 32 \<Longrightarrow> (of_nat m :: u32) < of_nat n \<longleftrightarrow> m < n"
  by (simp add: word_less_nat_alt unat_of_nat_u32)

lemma unmarshalTransactions_loop_eq:
  assumes "inp = tx_offsets base (ps @ ts) @ concat (ps @ ts)" and "base = 4 * length (ps @ ts)"
    and "length inp < 2 ^ 32"
  shows "unmarshalTransactions_loop inp (of_nat (length inp)) (length ts)
      (of_nat (4 * (length ps + 1))) (of_nat (base + length (concat ps))) = Ok ts"
  using assms
proof (induction ts arbitrary: ps)
  case (Cons t ts)
  let ?cur = "base + length (concat ps)"
  let ?off = "4 * (length ps + 1)"
  have len: "length inp = ?cur + length t + length (concat ts)"
    using Cons.prems(1,2) by simp
  have body: "slice inp (unat (of_nat ?cur :: u32)) (unat (of_nat (?cur + length t) :: u32)) = Ok t"
  proof -
    have "inp = (tx_offsets base (ps @ t # ts) @ concat ps) @ t @ concat ts"
      using Cons.prems(1) by simp
    then show ?thesis
      using slice_append_u32 [of "tx_offsets base (ps @ t # ts) @ concat ps" ?cur t "concat ts"]
        Cons.prems(2,3) by simp
  qed
  have IH: "unmarshalTransactions_loop inp (of_nat (length inp)) (length ts)
      (of_nat (4 * (length (ps @ [t]) + 1))) (of_nat (base + length (concat (ps @ [t])))) = Ok ts"
    using Cons.prems by (intro Cons.IH) simp_all
  have ord: "\<not> (of_nat (?cur + length t) :: u32) < of_nat ?cur"
      "\<not> (of_nat (length inp) :: u32) < of_nat (?cur + length t)"
    using len Cons.prems(3) by (simp_all only: of_nat_u32_less_iff)
  show ?case
  proof (cases ts)
    case Nil
    then have "length inp = ?cur + length t" using len by simp
    with Nil body ord show ?thesis by (simp del: of_nat_add of_nat_mult)
  next
    case (Cons t2 ts2)
    let ?o = "word_le 4 (of_nat (?cur + length t) :: u32)"
    let ?A = "tx_offsets base (ps @ [t])"
    have "tx_offsets base (ps @ t # t2 # ts2) = tx_offsets base ((ps @ [t]) @ t2 # ts2)" by simp
    also have "\<dots> = ?A @ ?o @ tx_offsets (?cur + length t + length t2) ts2"
      by (subst tx_offsets_append) (simp add: add.assoc del: of_nat_add)
    finally have "inp = ?A @ ?o @ tx_offsets (?cur + length t + length t2) ts2 @ concat (ps @ t # ts)"
      using Cons.prems(1) Cons by simp
    then have rd: "slice inp (unat (of_nat ?off :: u32)) (unat (of_nat (?off + 4) :: u32)) = Ok ?o"
      using slice_append_u32 [of ?A ?off ?o "tx_offsets (?cur + length t + length t2) ts2 @ concat (ps @ t # ts)"]
        Cons.prems(3) by (simp del: of_nat_add of_nat_mult)
    define off where "off = (of_nat ?off :: u32)"
    define cur where "cur = (of_nat ?cur :: u32)"
    define nx where "nx = (of_nat (?cur + length t) :: u32)"
    have o4: "of_nat (?off + 4) = off + 4" by (simp add: off_def)
    have e: "4 * (length (ps @ [t]) + 1) = ?off + 4" "base + length (concat (ps @ [t])) = ?cur + length t"
      by simp_all
    have "length ts > 0" using Cons by simp
    then show ?thesis
      using IH [unfolded e] rd body ord
      unfolding off_def [symmetric] cur_def [symmetric] nx_def [symmetric] o4
      by simp
  qed
qed simp

lemma unmarshalTransactions_layout:
  assumes "length txs \<le> 1048576" and "length (txs_layout txs) < 2 ^ 32"
  shows "unmarshalTransactions (txs_layout txs) = Ok txs"
proof (cases txs)
  case Nil
  then show ?thesis by (simp add: unmarshalTransactions_def txs_layout_def)
next
  case (Cons t ts)
  let ?inp = "txs_layout txs" and ?n = "length txs"
  have len: "length ?inp = 4 * ?n + length (concat txs)" by (simp add: txs_layout_def)
  have n: "4 \<le> length ?inp" "4 * ?n \<le> length ?inp" using len Cons by simp_all
  have uscope: "unat (of_nat (length ?inp) :: u32) = length ?inp" using assms(2) by (rule unat_of_nat_u32)
  have u4n: "unat (of_nat (4 * ?n) :: u32) = 4 * ?n"
    using n(2) assms(2) by (intro unat_of_nat_u32) simp
  have sc: "(of_nat (length ?inp) :: u32) \<noteq> 0" "\<not> (of_nat (length ?inp) :: u32) < 4"
      "\<not> (of_nat (length ?inp) :: u32) < of_nat (4 * ?n)"
    using n uscope u4n by (auto simp: word_less_nat_alt unat_eq_0 [symmetric] simp del: of_nat_mult)
  let ?o = "word_le 4 (of_nat (4 * ?n) :: u32)"
  have "?inp = [] @ ?o @ (tx_offsets (4 * ?n + length t) ts @ concat txs)"
    unfolding txs_layout_def using Cons by simp
  then have rd: "slice ?inp 0 4 = Ok ?o"
    using slice_append [of "[]" 0 4 ?o "tx_offsets (4 * ?n + length t) ts @ concat txs"] by simp
  have m4: "(of_nat (4 * ?n) :: u32) mod 4 = 0"
  proof -
    have "unat ((of_nat (4 * ?n) :: u32) mod 4) = 0" by (simp add: unat_mod u4n del: of_nat_mult)
    then show ?thesis by (simp only: unat_eq_0)
  qed
  have cnt: "unat ((of_nat (4 * ?n) :: u32) div 4) = ?n"
    by (simp add: unat_div u4n del: of_nat_mult)
  then have mx: "\<not> maxTransactionsPerPayload < (of_nat (4 * ?n) :: u32) div 4"
    using assms(1) by (simp add: maxTransactionsPerPayload_def word_less_nat_alt del: of_nat_mult)
  have loop: "unmarshalTransactions_loop ?inp (of_nat (length ?inp)) ?n 4 (of_nat (4 * ?n)) = Ok txs"
  proof -
    have e: "4 * (length ([] :: bytes list) + 1) = 4" "4 * ?n + length (concat ([] :: bytes list)) = 4 * ?n"
      by simp_all
    have "?inp = tx_offsets (4 * ?n) ([] @ txs) @ concat ([] @ txs)" by (simp add: txs_layout_def)
    from unmarshalTransactions_loop_eq [OF this _ assms(2)] show ?thesis
      unfolding e by (simp only: append_Nil of_nat_numeral)
  qed
  define inp where "inp = ?inp"
  define scope where "scope = (of_nat (length ?inp) :: u32)"
  define first where "first = (of_nat (4 * ?n) :: u32)"
  show ?thesis
    using sc rd m4 cnt mx loop
    unfolding unmarshalTransactions_def Let_def scope_def [symmetric] first_def [symmetric]
      inp_def [symmetric]
    by simp
qed

lemma four_limbs: "2 ^ 64 * (2 ^ 64 * (2 ^ 64 * d + c) + b) + a =
    a + 2 ^ 64 * b + 2 ^ 128 * c + 2 ^ 192 * (d::nat)"
  by (simp add: algebra_simps)

lemma marshalBytes32LE_inverse: "unmarshalBytes32LE (marshalBytes32LE z) = z"
proof -
  define n where "n = unat z"
  have lim: "unat (limb z i) = n div 2 ^ (64 * i) mod 2 ^ 64" for i
    by (simp add: limb_def n_def unat_of_nat)
  have lim0: "unat (limb z 0) = n mod 2 ^ 64" and lim1: "unat (limb z 1) = n div 2 ^ 64 mod 2 ^ 64"
    and lim2: "unat (limb z 2) = n div 2 ^ 128 mod 2 ^ 64"
    and lim3: "unat (limb z 3) = n div 2 ^ 192 mod 2 ^ 64"
    by (simp_all add: lim)
  have "n < 2 ^ 256" using unsigned_less [of z] by (simp add: n_def)
  then have "n = n mod 2 ^ 256" by simp
  also have "\<dots> = n mod (2 ^ 64 * 2 ^ 192)" by simp
  also have "\<dots> = 2 ^ 64 * (n div 2 ^ 64 mod (2 ^ 64 * 2 ^ 128)) + n mod 2 ^ 64"
    by (subst mod_mult2_eq) simp
  also have "n div 2 ^ 64 mod (2 ^ 64 * 2 ^ 128) =
      2 ^ 64 * (n div 2 ^ 128 mod (2 ^ 64 * 2 ^ 64)) + n div 2 ^ 64 mod 2 ^ 64"
    by (subst mod_mult2_eq) (simp add: div_mult2_eq [symmetric])
  also have "n div 2 ^ 128 mod (2 ^ 64 * 2 ^ 64) =
      2 ^ 64 * (n div 2 ^ 192 mod 2 ^ 64) + n div 2 ^ 128 mod 2 ^ 64"
    by (subst mod_mult2_eq) (simp add: div_mult2_eq [symmetric])
  finally have "n = 2 ^ 64 * (2 ^ 64 * (2 ^ 64 * (n div 2 ^ 192 mod 2 ^ 64) +
      n div 2 ^ 128 mod 2 ^ 64) + n div 2 ^ 64 mod 2 ^ 64) + n mod 2 ^ 64" .
  then have sum: "n = n mod 2 ^ 64 + 2 ^ 64 * (n div 2 ^ 64 mod 2 ^ 64) +
      2 ^ 128 * (n div 2 ^ 128 mod 2 ^ 64) + 2 ^ 192 * (n div 2 ^ 192 mod 2 ^ 64)"
    by (simp only: four_limbs)
  have "unmarshalBytes32LE (marshalBytes32LE z) =
      of_nat (unat (limb z 0) + 2 ^ 64 * unat (limb z 1) + 2 ^ 128 * unat (limb z 2) +
        2 ^ 192 * unat (limb z 3))"
    by (simp add: unmarshalBytes32LE_def marshalBytes32LE_def Let_def
      del: of_nat_add of_nat_mult of_nat_power)
  also have "\<dots> = of_nat n"
    by (simp only: lim0 lim1 lim2 lim3 sum [symmetric])
  finally show ?thesis by (simp add: n_def)
qed

lemma fixed_fields_at:
  "take 32 (concat (fixed_fields p) @ r) = word_be 32 (ep_ParentHash p)"
  "take 20 (drop 32 (concat (fixed_fields p) @ r)) = word_be 20 (ep_FeeRecipient p)"
  "take 32 (drop 52 (concat (fixed_fields p) @ r)) = word_be 32 (ep_StateRoot p)"
  "take 32 (drop 84 (concat (fixed_fields p) @ r)) = word_be 32 (ep_ReceiptsRoot p)"
  "take 256 (drop 116 (concat (fixed_fields p) @ r)) = word_be 256 (ep_LogsBloom p)"
  "take 32 (drop 372 (concat (fixed_fields p) @ r)) = word_be 32 (ep_PrevRandao p)"
  "take 8 (drop 404 (concat (fixed_fields p) @ r)) = word_le 8 (ep_BlockNumber p)"
  "take 8 (drop 412 (concat (fixed_fields p) @ r)) = word_le 8 (ep_GasLimit p)"
  "take 8 (drop 420 (concat (fixed_fields p) @ r)) = word_le 8 (ep_GasUsed p)"
  "take 8 (drop 428 (concat (fixed_fields p) @ r)) = word_le 8 (ep_Timestamp p)"
  "take 4 (drop 436 (concat (fixed_fields p) @ r)) = word_le 4 executionPayloadFixedPart"
  "take 32 (drop 440 (concat (fixed_fields p) @ r)) = marshalBytes32LE (ep_BaseFeePerGas p)"
  "take 32 (drop 472 (concat (fixed_fields p) @ r)) = word_be 32 (ep_BlockHash p)"
  "take 4 (drop 504 (concat (fixed_fields p) @ r)) =
     word_le 4 (executionPayloadFixedPart + of_nat (length (ep_ExtraData p)))"
  by (simp_all add: fixed_fields_def)

lemma of_be_word_be_bloom [simp]: "of_be (word_be 256 (w :: 2048 word)) = w"
  by (simp add: of_be_word_be)

lemma UnmarshalSSZ_layout:
  assumes "ssz_ok p"
  shows "UnmarshalSSZ (SizeSSZ p) (ssz_layout p) = Ok p"
proof -
  define F where "F = concat (fixed_fields p)"
  define x where "x = ep_ExtraData p"
  define T where "T = txs_layout (ep_Transactions p)"
  have sz: "ssz_size p < 2 ^ 32" and xl: "length x \<le> 32" and tl: "length (ep_Transactions p) \<le> 1048576"
    using assms by (simp_all add: ssz_ok_def x_def)
  have lay: "ssz_layout p = F @ x @ T" by (simp add: ssz_layout_def F_def x_def T_def)
  have lens: "length F = 508" "508 + length x + length T = ssz_size p"
    using length_ssz_layout [of p] by (simp_all add: lay F_def)
  have us: "unat (SizeSSZ p) = ssz_size p" by (rule unat_SizeSSZ [OF sz])
  define to where "to = (508 :: u32) + of_nat (length x)"
  have "to = of_nat (508 + length x)" by (simp add: to_def)
  then have uto: "unat to = 508 + length x" using lens sz by (simp add: unat_of_nat_u32 del: of_nat_add)
  have g1: "\<not> SizeSSZ p < 508" using us lens by (simp add: word_less_nat_alt)
  have g2: "\<not> (540 < to \<or> SizeSSZ p < to)"
    using us uto lens xl by (simp add: word_less_nat_alt)
  have ex: "slice (F @ x @ T) 508 (unat to) = Ok x" using lens uto by simp
  have dr: "drop (unat to) (F @ x @ T) = T" using lens uto by simp
  have txs: "unmarshalTransactions T = Ok (ep_Transactions p)"
    unfolding T_def using tl lens sz by (intro unmarshalTransactions_layout) (simp_all add: T_def)
  have tk: "take (unat (SizeSSZ p)) (F @ x @ T) = F @ x @ T" using us lens by simp
  have to: "to = 508 + of_nat (length (ep_ExtraData p))" by (simp add: to_def x_def)
  define B where "B = F @ x @ T"
  note at = fixed_fields_at [of p "x @ T", folded F_def, folded B_def, unfolded fixedPart_eq, folded to]
  have "UnmarshalSSZ (SizeSSZ p) B = Ok (p\<lparr>ep_ExtraData := x\<rparr>)"
    unfolding UnmarshalSSZ_def Let_def tk [folded B_def] drop_0
    using g1 g2 ex [folded B_def] dr [folded B_def] txs us lens(2) length_ssz_layout [of p, unfolded lay, folded B_def]
    by (simp add: at marshalBytes32LE_inverse)
  then show ?thesis by (simp add: lay B_def x_def)
qed

section \<open>Panics of the decoder\<close>

lemma slice_not_Panic: "a \<le> b \<Longrightarrow> b \<le> length s \<Longrightarrow> \<exists>x. slice s a b = Ok x"
  by (simp add: slice_def)

lemma unmarshalTransactions_loop_returns:
  assumes "length inp < 2 ^ 32" and "scope = of_nat (length inp)"
    and "unat current \<le> length inp" and "unat offset + 4 * (k - 1) \<le> length inp"
  shows "\<exists>r. unmarshalTransactions_loop inp scope k offset current = r \<and>
     ((\<exists>txs. r = Ok txs) \<or> (\<exists>e. r = Err e))"
  using assms(3,4)
proof (induction k arbitrary: offset current)
  case (Suc k)
  have us: "unat scope = length inp" using assms(1,2) by (simp add: unat_of_nat_u32)
  have next_ok: "(\<exists>txs. R = Ok txs) \<or> (\<exists>e. R = Err e)"
    if "R = (if nx < current \<or> nx > scope then Err (ErrMsg ''tx has bad next offset'')
      else bind_res (slice inp (unat current) (unat nx)) (\<lambda>tx.
        bind_res (unmarshalTransactions_loop inp scope k off nx) (\<lambda>txs. Ok (tx # txs))))"
      and "unat off + 4 * (k - 1) \<le> length inp" for R nx off
  proof (cases "nx < current \<or> nx > scope")
    case False
    then have le: "unat current \<le> unat nx" "unat nx \<le> length inp"
      using us by (simp_all add: word_less_nat_alt not_less)
    from slice_not_Panic [OF this] obtain tx where "slice inp (unat current) (unat nx) = Ok tx" ..
    moreover from Suc.IH [OF le(2) that(2)] obtain r where
      "unmarshalTransactions_loop inp scope k off nx = r" "(\<exists>txs. r = Ok txs) \<or> (\<exists>e. r = Err e)"
      by blast
    ultimately show ?thesis using False that(1) by auto
  qed (simp add: that(1))
  show ?case
  proof (cases "k > 0")
    case True
    then have le: "unat offset + 4 \<le> length inp" using Suc.prems(2) by simp
    then have uo: "unat (offset + 4) = unat offset + 4" using assms(1) by (simp add: unat_word_ariths)
    from slice_not_Panic [of "unat offset" "unat (offset + 4)" inp] uo le obtain bs where
      "slice inp (unat offset) (unat (offset + 4)) = Ok bs" by auto
    then show ?thesis
      using True next_ok [OF refl, of "offset + 4" "of_le bs"] uo Suc.prems(2) by simp
  next
    case False
    then have k: "k = 0" by simp
    show ?thesis using next_ok [OF refl, of offset scope] Suc.prems(2) unfolding k by simp
  qed
qed simp

lemma unmarshalTransactions_returns:
  assumes "length inp < 2 ^ 32"
  shows "(\<exists>txs. unmarshalTransactions inp = Ok txs) \<or> (\<exists>e. unmarshalTransactions inp = Err e)"
proof (cases "length inp < 4")
  case True
  then have "(of_nat (length inp) :: u32) < 4"
    using unat_of_nat_u32 [OF assms] by (simp add: word_less_nat_alt)
  then show ?thesis by (simp add: unmarshalTransactions_def Let_def)
next
  case False
  then obtain bs where bs: "slice inp 0 4 = Ok bs" by (simp add: slice_def)
  define first where "first = (of_le bs :: u32)"
  define scope where "scope = (of_nat (length inp) :: u32)"
  show ?thesis
  proof (cases "first mod 4 \<noteq> 0 \<or> first > scope")
    case True
    then show ?thesis
      using bs by (auto simp: unmarshalTransactions_def Let_def first_def scope_def)
  next
    case ok: False
    then have le: "unat first \<le> length inp"
      using unat_of_nat_u32 [OF assms] by (simp add: scope_def word_less_nat_alt)
    have "4 * unat (first div 4) \<le> unat first" by (simp add: unat_div)
    then have "unat (4::u32) + 4 * (unat (first div 4) - 1) \<le> length inp"
      using le False by simp
    then have "\<exists>r. unmarshalTransactions_loop inp scope (unat (first div 4)) 4 first = r \<and>
        ((\<exists>txs. r = Ok txs) \<or> (\<exists>e. r = Err e))"
      by (intro unmarshalTransactions_loop_returns [OF assms scope_def le])
    then show ?thesis
      using bs ok unfolding unmarshalTransactions_def Let_def scope_def [symmetric]
      by (auto simp: first_def)
  qed
qed

lemma unat_of_le_4: "unat (of_le (take 4 xs) :: u32) = le_nat (take 4 xs)"
proof -
  have "le_nat (take 4 xs) < 256 ^ length (take 4 xs)" by (rule le_nat_less)
  also have "\<dots> \<le> 256 ^ 4" by (intro power_increasing) simp_all
  finally show ?thesis by (simp add: of_le_def unat_of_nat)
qed

lemma UnmarshalSSZ_outcome:
  assumes "length r < 2 ^ 32"
  shows "((\<exists>m. UnmarshalSSZ scope r = Panic m) \<longleftrightarrow>
      508 \<le> unat scope \<and> unat scope \<le> length r \<and>
      le_nat (take 4 (drop 436 r)) = 508 \<and> le_nat (take 4 (drop 504 r)) < 508) \<and>
    UnmarshalSSZ scope r \<noteq> Diverge"
proof -
  define buf where "buf = take (unat scope) r"
  define to where "to = (of_le (take 4 (drop 504 buf)) :: u32)"
  have at: "take 4 (drop 436 buf) = take 4 (drop 436 r)" "take 4 (drop 504 buf) = take 4 (drop 504 r)"
    if "508 \<le> unat scope" using that by (simp_all add: buf_def drop_take min_def)
  have lt: "length (drop (unat to) buf) < 2 ^ 32" using assms by (simp add: buf_def)
  have e508: "of_le (take 4 (drop 436 buf)) = (508::u32) \<longleftrightarrow> le_nat (take 4 (drop 436 buf)) = 508"
    using unat_of_le_4 [of "drop 436 buf"] by (simp add: word_unat_eq_iff)
  consider (short) "unat scope < 508 \<or> length r < unat scope"
    | (bad) "508 \<le> unat scope" "unat scope \<le> length r"
        "le_nat (take 4 (drop 436 buf)) \<noteq> 508 \<or> unat to > 540 \<or> unat to > unat scope"
    | (low) "508 \<le> unat scope" "unat scope \<le> length r" "le_nat (take 4 (drop 436 buf)) = 508" "unat to < 508"
    | (good) "508 \<le> unat scope" "unat scope \<le> length r" "le_nat (take 4 (drop 436 buf)) = 508"
        "508 \<le> unat to" "unat to \<le> 540" "unat to \<le> unat scope"
    by linarith
  then show ?thesis
  proof cases
    case short
    then show ?thesis by (auto simp: UnmarshalSSZ_def word_less_nat_alt)
  next
    case bad
    have "\<exists>e. UnmarshalSSZ scope r = Err e"
      using bad e508
      by (auto simp: UnmarshalSSZ_def Let_def buf_def [symmetric] to_def [symmetric] word_less_nat_alt)
    moreover have "\<not> (le_nat (take 4 (drop 436 r)) = 508 \<and> le_nat (take 4 (drop 504 r)) < 508)"
      using bad at unat_of_le_4 [of "drop 504 buf"] by (auto simp: to_def)
    ultimately show ?thesis by auto
  next
    case low
    have "slice buf 508 (unat to) = Panic ''slice bounds out of range''"
      using low by (simp add: slice_def)
    then have "UnmarshalSSZ scope r = Panic ''slice bounds out of range''"
      using low e508
      by (simp add: UnmarshalSSZ_def Let_def buf_def [symmetric] to_def [symmetric] word_less_nat_alt)
    then show ?thesis using low at unat_of_le_4 [of "drop 504 buf"] by (auto simp: to_def)
  next
    case good
    have "\<exists>x. slice buf 508 (unat to) = Ok x"
      using good by (intro slice_not_Panic) (simp_all add: buf_def)
    then obtain x where x: "slice buf 508 (unat to) = Ok x" ..
    have "(\<exists>q. UnmarshalSSZ scope r = Ok q) \<or> (\<exists>e. UnmarshalSSZ scope r = Err e)"
      using unmarshalTransactions_returns [OF lt] good e508 x
      by (auto simp: UnmarshalSSZ_def Let_def buf_def [symmetric] to_def [symmetric] word_less_nat_alt)
    then show ?thesis using good at unat_of_le_4 [of "drop 504 buf"] by (auto simp: to_def)
  qed
qed

section \<open>Properties\<close>

text \<open>C3: The SSZ codec is a round trip. For a payload within the limits of the format (size below
  4 GiB, at most 32 bytes of extra data, at most \<open>2^20\<close> transactions) \<open>MarshalSSZ\<close> succeeds whatever
  the pooled buffer contains, writes exactly \<open>SizeSSZ\<close> bytes that do not depend on the old contents
  of the buffer, and \<open>UnmarshalSSZ\<close> decodes them to the same payload.\<close>

theorem ssz_roundtrip:
  assumes "ssz_ok p" and "length pool < 2 ^ 32"
  shows "\<exists>enc. MarshalSSZ pool p = Ok enc \<and> length enc = unat (SizeSSZ p) \<and>
    UnmarshalSSZ (SizeSSZ p) enc = Ok p \<and> MarshalSSZ [] p = Ok enc"
proof -
  have sz: "ssz_size p < 2 ^ 32" using assms(1) by (simp add: ssz_ok_def)
  have "MarshalSSZ pool p = Ok (ssz_layout p)" "MarshalSSZ [] p = Ok (ssz_layout p)"
    using MarshalSSZ_layout [OF sz, of pool] MarshalSSZ_layout [OF sz, of "[]"] assms(2) by simp_all
  then show ?thesis
    using UnmarshalSSZ_layout [OF assms(1)] unat_SizeSSZ [OF sz] by simp
qed

theorem ssz_roundtrip_witness:
  "ssz_ok demo_payload \<and>
   (\<exists>enc. MarshalSSZ [1, 2, 3] demo_payload = Ok enc \<and> length enc = unat (SizeSSZ demo_payload) \<and>
    UnmarshalSSZ (SizeSSZ demo_payload) enc = Ok demo_payload \<and> MarshalSSZ [] demo_payload = Ok enc)"
proof -
  have ok: "ssz_ok demo_payload" by (simp add: ssz_ok_def ssz_size_def demo_payload_def)
  show ?thesis using ok ssz_roundtrip [OF ok, of "[1, 2, 3]"] by simp
qed

text \<open>C7: When the payload decoder panics. \<open>UnmarshalSSZ\<close> checks that the transactions offset is not
  too large, but not that it is at least the offset of the extra data: on an input that is long
  enough and has the right extra-data offset it panics exactly when the transactions offset is below
  508, the start of the extra data. In every other case it returns a payload or an error. The
  decoder runs on bytes received from the gossip network.\<close>

theorem UnmarshalSSZ_panic_iff:
  assumes "length r < 2 ^ 32"
  shows "((\<exists>m. UnmarshalSSZ scope r = Panic m) \<longleftrightarrow>
      508 \<le> unat scope \<and> unat scope \<le> length r \<and>
      le_nat (take 4 (drop 436 r)) = 508 \<and> le_nat (take 4 (drop 504 r)) < 508) \<and>
    UnmarshalSSZ scope r \<noteq> Diverge"
  using assms by (rule UnmarshalSSZ_outcome)

theorem UnmarshalSSZ_panic_iff_witness:
  "\<exists>m. UnmarshalSSZ 508 (replicate 436 0 @ word_le 4 (508 :: u32) @ replicate 68 0) = Panic m"
proof -
  have "le_nat (replicate 4 0) = 0" by (simp add: numeral_eq_Suc)
  moreover have "le_nat (word_le 4 (508 :: u32)) = 508" by (simp add: word_le_def bytes_simps)
  ultimately show ?thesis
    using UnmarshalSSZ_panic_iff [of "replicate 436 0 @ word_le 4 (508 :: u32) @ replicate 68 0" 508]
    by simp
qed

end
