(* ===== verification/Gossip.thy ===== *)
theory Gossip
  imports SSZ
begin

text \<open>
  Block gossip (\<open>op-node/p2p/gossip.go\<close>, \<open>op-node/p2p/signer.go\<close>): signing and publishing of unsafe L2
  payloads, the message validator with its memory of seen blocks, and the subscriber. Snappy,
  secp256k1, SHA-256 and the LRU cache are parameters. The validator's cache maps a height to a
  pointer to a \<open>seenBlocks\<close> object, so its state has an explicit store of these objects.
\<close>

section \<open>Libraries\<close>

record ('k, 'p, 'l) p2p_lib =
  snappy_DecodedLen :: "bytes \<Rightarrow> error + nat"
  snappy_Decode :: "bytes \<Rightarrow> error + bytes"
  snappy_Encode :: "bytes \<Rightarrow> bytes"
  crypto_Sign :: "hash \<Rightarrow> 'k \<Rightarrow> error + bytes"
  crypto_SigToPub :: "hash \<Rightarrow> bytes \<Rightarrow> error + 'p"
  crypto_PubkeyToAddress :: "'p \<Rightarrow> address"
  sha256 :: "bytes \<Rightarrow> bytes"
  lru_New :: 'l
  lru_Get :: "'l \<Rightarrow> u64 \<Rightarrow> nat option \<times> 'l"
  lru_Add :: "'l \<Rightarrow> u64 \<Rightarrow> nat \<Rightarrow> 'l"

definition snappy_ok :: "('k, 'p, 'l) p2p_lib \<Rightarrow> bool" where
  "snappy_ok L \<longleftrightarrow>
     (\<forall>d. snappy_DecodedLen L (snappy_Encode L d) = Inr (length d) \<and> snappy_Decode L (snappy_Encode L d) = Inr d) \<and>
     (\<forall>m n d. snappy_DecodedLen L m = Inr n \<longrightarrow> snappy_Decode L m = Inr d \<longrightarrow> length d = n)"

definition signs_as :: "('k, 'p, 'l) p2p_lib \<Rightarrow> 'k \<Rightarrow> address \<Rightarrow> bool" where
  "signs_as L k a \<longleftrightarrow> (\<forall>h. \<exists>sig pub. crypto_Sign L h k = Inr sig \<and> length sig = 65 \<and>
     crypto_SigToPub L h sig = Inr pub \<and> crypto_PubkeyToAddress L pub = a)"

section \<open>Signing (signer.go)\<close>

definition SigningDomainBlocksV1 :: hash where
  "SigningDomainBlocksV1 = 0"

text \<open>The last \<open>copy\<close> starts at offset 32, where the chain id has just been written.\<close>

definition SigningHash :: "geth \<Rightarrow> hash \<Rightarrow> int \<Rightarrow> bytes \<Rightarrow> hash res" where
  "SigningHash G domain chainID payloadBytes =
     bind_res (slice_copy (replicate 96 0) 0 32 (word_be 32 domain)) (\<lambda>msgInput1.
     bind_res (FillBytes 32 (Some chainID)) (\<lambda>id_bytes.
     bind_res (slice_copy msgInput1 32 64 id_bytes) (\<lambda>msgInput2.
     bind_res (slice_copy msgInput2 32 96 (word_be 32 (Keccak256 G payloadBytes))) (\<lambda>msgInput3.
     Ok (Keccak256 G msgInput3)))))"

definition BlockSigningHash :: "geth \<Rightarrow> Config \<Rightarrow> bytes \<Rightarrow> hash res" where
  "BlockSigningHash G cfg payloadBytes = SigningHash G SigningDomainBlocksV1 (cfg_L2ChainID cfg) payloadBytes"

text \<open>\<open>LocalSigner\<close>: a closed signer has no key.\<close>

definition LocalSigner_Sign :: "geth \<Rightarrow> ('k, 'p, 'l) p2p_lib \<Rightarrow> 'k option \<Rightarrow> hash \<Rightarrow> int \<Rightarrow> bytes \<Rightarrow> bytes res" where
  "LocalSigner_Sign G L priv domain chainID encodedMsg =
     (case priv of None \<Rightarrow> Err (ErrMsg ''signer is closed'')
      | Some k \<Rightarrow> bind_res (SigningHash G domain chainID encodedMsg) (\<lambda>signingHash.
          bind_res (of_sum (crypto_Sign L signingHash k)) (\<lambda>signature.
          if length signature < 65 then Panic ''cannot convert slice to array pointer'' else Ok (take 65 signature))))"

definition LocalSigner_Close :: "'k option \<Rightarrow> 'k option" where
  "LocalSigner_Close priv = None"

section \<open>Messages\<close>

definition maxGossipSize :: nat where "maxGossipSize = 2 ^ 20"

definition MessageDomainInvalidSnappy :: bytes where "MessageDomainInvalidSnappy = [0, 0, 0, 0]"
definition MessageDomainValidSnappy :: bytes where "MessageDomainValidSnappy = [1, 0, 0, 0]"

fun nat_String :: "nat \<Rightarrow> string" where
  "nat_String n = (if n < 10 then [char_of (48 + n)] else nat_String (n div 10) @ [char_of (48 + n mod 10)])"

definition int_String :: "int \<Rightarrow> string" where
  "int_String i = (if i < 0 then ''-'' @ nat_String (nat (- i)) else nat_String (nat i))"

definition blocksTopicV1 :: "Config \<Rightarrow> string" where
  "blocksTopicV1 cfg = ''/optimism/'' @ int_String (cfg_L2ChainID cfg) @ ''/0/blocks''"

definition msg_id :: "('k, 'p, 'l) p2p_lib \<Rightarrow> string \<Rightarrow> bytes \<Rightarrow> bytes" where
  "msg_id L topic raw =
     (let decoded = (case snappy_DecodedLen L raw of
            Inl e \<Rightarrow> None
          | Inr dLen \<Rightarrow> if dLen \<le> maxGossipSize
              then (case snappy_Decode L raw of Inl e \<Rightarrow> None | Inr data \<Rightarrow> Some data) else None);
          dm = (if decoded \<noteq> None then MessageDomainValidSnappy else MessageDomainInvalidSnappy);
          data = (case decoded of None \<Rightarrow> raw | Some d \<Rightarrow> d)
      in take 20 (sha256 L (dm @ word_le 8 (of_nat (length topic) :: u64) @ string_bytes topic @ data)))"

section \<open>Publishing\<close>

definition PublishL2Payload ::
  "geth \<Rightarrow> ('k, 'p, 'l) p2p_lib \<Rightarrow> Config \<Rightarrow> 'k option \<Rightarrow> bytes \<Rightarrow> ExecutionPayload \<Rightarrow> bytes res" where
  "PublishL2Payload G L cfg signer pool payload =
     bind_res (map_err (\<lambda>e. ErrMsg ''failed to encoded execution payload to publish'') (MarshalSSZ pool payload)) (\<lambda>enc.
     let data = replicate 65 0 @ enc; payloadData = drop 65 data in
     bind_res (map_err (\<lambda>e. ErrMsg ''failed to sign execution payload with signer'')
       (LocalSigner_Sign G L signer SigningDomainBlocksV1 (cfg_L2ChainID cfg) payloadData)) (\<lambda>sig.
     bind_res (slice_copy data 0 65 sig) (\<lambda>signed.
     Ok (snappy_Encode L signed))))"

section \<open>Validation\<close>

datatype ValidationResult = ValidationAccept | ValidationIgnore | ValidationReject

record 'l validator =
  v_lru :: 'l
  v_seen :: "nat \<Rightarrow> hash list"     \<comment> \<open>the \<open>seenBlocks\<close> objects by address\<close>
  v_next :: nat

definition new_validator :: "('k, 'p, 'l) p2p_lib \<Rightarrow> 'l validator" where
  "new_validator L = \<lparr>v_lru = lru_New L, v_seen = (\<lambda>_. []), v_next = 0\<rparr>"

definition hasSeen :: "hash list \<Rightarrow> hash \<Rightarrow> nat \<times> bool" where
  "hasSeen blockHashes h = (length blockHashes, h \<in> set blockHashes)"

definition markSeen :: "nat \<Rightarrow> hash \<Rightarrow> 'l validator \<Rightarrow> 'l validator" where
  "markSeen a h v = v\<lparr>v_seen := (v_seen v)(a := v_seen v a @ [h])\<rparr>"

text \<open>Lookup of the object for a height; a missing one is created empty and added.\<close>

definition seen_at :: "('k, 'p, 'l) p2p_lib \<Rightarrow> u64 \<Rightarrow> 'l validator \<Rightarrow> nat \<times> 'l validator" where
  "seen_at L height v =
     (case lru_Get L (v_lru v) height of
        (Some a, l) \<Rightarrow> (a, v\<lparr>v_lru := l\<rparr>)
      | (None, l) \<Rightarrow> (v_next v, v\<lparr>v_lru := lru_Add L l height (v_next v),
          v_seen := (v_seen v)(v_next v := []), v_next := v_next v + 1\<rparr>))"

text \<open>The stages of the validator up to the decoded payload; \<open>Ok None\<close> is a rejection.\<close>

definition decode_message :: "('k, 'p, 'l) p2p_lib \<Rightarrow> bytes \<Rightarrow> (bytes \<times> bytes \<times> ExecutionPayload) option res" where
  "decode_message L msg =
     (case snappy_DecodedLen L msg of
        Inl e \<Rightarrow> Ok None
      | Inr outLen \<Rightarrow>
          if outLen > maxGossipSize then Ok None
          else (case snappy_Decode L msg of
              Inl e \<Rightarrow> Ok None
            | Inr data \<Rightarrow>
                if length data < 65 then Panic ''slice bounds out of range''
                else let signatureBytes = take 65 data; payloadBytes = drop 65 data in
                  (case UnmarshalSSZ (of_nat (length payloadBytes)) payloadBytes of
                     Ok payload \<Rightarrow> Ok (Some (signatureBytes, payloadBytes, payload))
                   | Err e \<Rightarrow> Ok None
                   | Panic p \<Rightarrow> Panic p
                   | Diverge \<Rightarrow> Diverge)))"

definition check_author :: "geth \<Rightarrow> ('k, 'p, 'l) p2p_lib \<Rightarrow> Config \<Rightarrow> bytes \<Rightarrow> bytes \<Rightarrow> bool res" where
  "check_author G L cfg signatureBytes payloadBytes =
     bind_res (BlockSigningHash G cfg payloadBytes) (\<lambda>signingHash.
     Ok (case crypto_SigToPub L signingHash signatureBytes of
           Inl e \<Rightarrow> False
         | Inr pub \<Rightarrow> crypto_PubkeyToAddress L pub = cfg_P2PSequencerAddress cfg))"

definition validate_block ::
  "geth \<Rightarrow> header_lib \<Rightarrow> ('k, 'p, 'l) p2p_lib \<Rightarrow> Config \<Rightarrow> u64 \<Rightarrow> bytes \<Rightarrow> 'l validator \<Rightarrow>
   (ValidationResult \<times> ExecutionPayload option) res \<times> 'l validator" where
  "validate_block G H L cfg now msg v =
     (case decode_message L msg of
        Panic p \<Rightarrow> (Panic p, v)
      | Diverge \<Rightarrow> (Diverge, v)
      | Err e \<Rightarrow> (Err e, v)
      | Ok None \<Rightarrow> (Ok (ValidationReject, None), v)
      | Ok (Some (signatureBytes, payloadBytes, payload)) \<Rightarrow>
          if ep_Timestamp payload < now - 20 then (Ok (ValidationReject, None), v)
          else if ep_Timestamp payload > now + 5 then (Ok (ValidationReject, None), v)
          else if \<not> snd (ExecutionPayload_CheckBlockHash H payload) then (Ok (ValidationReject, None), v)
          else (case seen_at L (ep_BlockNumber payload) v of (a, v1) \<Rightarrow>
            (case hasSeen (v_seen v1 a) (ep_BlockHash payload) of (count, seen) \<Rightarrow>
               if count > 5 then (Ok (ValidationReject, None), v1)
               else if seen then (Ok (ValidationIgnore, None), v1)
               else (case check_author G L cfg signatureBytes payloadBytes of
                   Panic p \<Rightarrow> (Panic p, v1)
                 | Diverge \<Rightarrow> (Diverge, v1)
                 | Err e \<Rightarrow> (Err e, v1)
                 | Ok False \<Rightarrow> (Ok (ValidationReject, None), v1)
                 | Ok True \<Rightarrow> (Ok (ValidationAccept, Some payload), markSeen a (ep_BlockHash payload) v1)))))"

text \<open>The subscriber hands the payloads that the validator attached to the node, and skips messages
  without one; an error of the handler is only logged.\<close>

fun subscriber :: "(ExecutionPayload \<Rightarrow> ('w, unit) rpc) \<Rightarrow> ExecutionPayload option list \<Rightarrow> ('w, unit) rpc" where
  "subscriber onBlock [] = ret ()"
| "subscriber onBlock (None # ms) = subscriber onBlock ms"
| "subscriber onBlock (Some payload # ms) = rcatch (onBlock payload) (\<lambda>err. subscriber onBlock ms) (\<lambda>_. subscriber onBlock ms)"

section \<open>Signing hash\<close>

lemma SigningHash_eq:
  "SigningHash G dm chainID pl =
     (if nat \<bar>chainID\<bar> < 256 ^ 32 then Ok (Keccak256 G (word_be 32 dm @ word_be 32 (Keccak256 G pl) @ replicate 32 0))
      else Panic ''math/big: buffer too small to fit value'')"
proof -
  have "replicate 96 (0::byte) = replicate 32 0 @ replicate 64 0" by (simp add: replicate_add [symmetric])
  then have 1: "slice_copy (replicate 96 0) 0 32 (word_be 32 dm) = Ok (word_be 32 dm @ replicate 64 0)"
    by (simp add: slice_copy_def)
  have 2: "slice_copy (word_be 32 dm @ replicate 64 0) 32 64 c = Ok (word_be 32 dm @ c @ replicate 32 0)" if "length c = 32" for c
    using that by (simp add: slice_copy_def)
  have 3: "slice_copy (word_be 32 dm @ c @ replicate 32 0) 32 96 k = Ok (word_be 32 dm @ k @ replicate 32 0)"
    if "length c = 32" "length k = 32" for c k
    using that by (simp add: slice_copy_def)
  show ?thesis
    unfolding SigningHash_def 1 by (simp add: FillBytes_def 2 3)
qed

text \<open>The chain id is no part of the signed message, against the specification of block signatures: a
  signature for one chain is valid on every other.\<close>

theorem signing_hash_ignores_chain_id:
  assumes "0 \<le> c" and "c < 2 ^ 256" and "0 \<le> c'" and "c' < 2 ^ 256"
  shows "SigningHash G dm c pl = SigningHash G dm c' pl"
proof -
  have "(256::nat) ^ 32 = 2 ^ 256" by simp
  then have "nat \<bar>c\<bar> < 256 ^ 32" "nat \<bar>c'\<bar> < 256 ^ 32"
    using assms by (simp_all add: nat_less_iff)
  then show ?thesis by (simp only: SigningHash_eq if_True)
qed

section \<open>The validator\<close>

lemma validate_accepted:
  assumes "validate_block G H L cfg now msg v = (Ok (ValidationAccept, r), v')"
  shows "\<exists>sig pb pl a v1. decode_message L msg = Ok (Some (sig, pb, pl)) \<and> r = Some pl \<and>
    now - 20 \<le> ep_Timestamp pl \<and> ep_Timestamp pl \<le> now + 5 \<and> snd (ExecutionPayload_CheckBlockHash H pl) \<and>
    seen_at L (ep_BlockNumber pl) v = (a, v1) \<and> length (v_seen v1 a) \<le> 5 \<and> ep_BlockHash pl \<notin> set (v_seen v1 a) \<and>
    check_author G L cfg sig pb = Ok True \<and> v' = markSeen a (ep_BlockHash pl) v1"
  using assms unfolding validate_block_def hasSeen_def
  by (auto simp: not_less split: res.splits option.splits prod.splits if_splits bool.splits)

lemma check_author_True:
  assumes "check_author G L cfg sig pb = Ok True"
  shows "\<exists>pub. crypto_SigToPub L (Keccak256 G (word_be 32 (0::hash) @ word_be 32 (Keccak256 G pb) @ replicate 32 0)) sig = Inr pub \<and>
    crypto_PubkeyToAddress L pub = cfg_P2PSequencerAddress cfg"
  using assms
  by (auto simp: check_author_def BlockSigningHash_def SigningHash_eq SigningDomainBlocksV1_def split: if_splits sum.splits)


subsection \<open>Invariant of the memory of seen blocks\<close>

definition seen_ok :: "'l validator \<Rightarrow> bool" where
  "seen_ok v \<longleftrightarrow> (\<forall>a. distinct (v_seen v a) \<and> length (v_seen v a) \<le> 6)"

lemma seen_at_ok: "seen_ok v \<Longrightarrow> seen_at L n v = (a, v1) \<Longrightarrow> seen_ok v1"
  by (auto simp: seen_ok_def seen_at_def split: prod.splits option.splits)

lemma markSeen_ok:
  "seen_ok v \<Longrightarrow> length (v_seen v a) \<le> 5 \<Longrightarrow> h \<notin> set (v_seen v a) \<Longrightarrow> seen_ok (markSeen a h v)"
  by (auto simp: seen_ok_def markSeen_def)

lemma validate_state:
  assumes "snd (validate_block G H L cfg now msg v) = v'"
  shows "v' = v \<or> (\<exists>n a. seen_at L n v = (a, v')) \<or> (\<exists>r. validate_block G H L cfg now msg v = (Ok (ValidationAccept, r), v'))"
  using assms unfolding validate_block_def hasSeen_def
  by (auto split: res.splits option.splits prod.splits if_splits bool.splits)

lemma validate_seen_ok: "seen_ok v \<Longrightarrow> seen_ok (snd (validate_block G H L cfg now msg v))"
proof -
  assume ok: "seen_ok v"
  let ?v' = "snd (validate_block G H L cfg now msg v)"
  consider "?v' = v" | n a where "seen_at L n v = (a, ?v')" | r where "validate_block G H L cfg now msg v = (Ok (ValidationAccept, r), ?v')"
    using validate_state [of G H L cfg now msg v ?v'] by blast
  then show "seen_ok ?v'"
  proof cases
    case 3
    from validate_accepted [OF 3] show ?thesis using seen_at_ok [OF ok] markSeen_ok by metis
  qed (use ok seen_at_ok in auto)
qed

definition gossip_step :: "geth \<Rightarrow> header_lib \<Rightarrow> ('k, 'p, 'l) p2p_lib \<Rightarrow> Config \<Rightarrow> 'l validator \<Rightarrow> 'l validator \<Rightarrow> bool" where
  "gossip_step G H L cfg v v' \<longleftrightarrow> (\<exists>now msg. v' = snd (validate_block G H L cfg now msg v))"

interpretation gossip: step_invariant "\<lambda>v. v = new_validator L" "gossip_step G H L cfg" seen_ok
  by unfold_locales (auto simp: seen_ok_def new_validator_def gossip_step_def validate_seen_ok [unfolded seen_ok_def])

text \<open>Whatever messages are validated one after the other, at whatever times, no object of the validator's memory ever holds a
  block hash twice or more than six hashes: at one height at most six blocks are accepted while the
  height stays in the cache, so the memory of the validator is bounded by the cache.\<close>

theorem seen_blocks_bounded:
  assumes "(gossip_step G H L cfg)\<^sup>*\<^sup>* (new_validator L) v"
  shows "distinct (v_seen v a) \<and> length (v_seen v a) \<le> 6"
  using gossip.reachable_inv [OF _ assms] by (auto simp: seen_ok_def)

subsection \<open>Crashes\<close>

text \<open>C31: When a gossip message crashes the validator. With a chain id of at most 256 bits it panics exactly
  on messages that decompress to fewer than 65 bytes, or to a payload whose transactions offset lies
  before its extra data; every other message is accepted, ignored or rejected. The check comes
  before the signature check, so any peer can send such a message.\<close>

theorem validator_panics_iff:
  assumes "snappy_ok L" and "0 \<le> cfg_L2ChainID cfg" and "cfg_L2ChainID cfg < 2 ^ 256"
  shows "(\<exists>m. fst (validate_block G H L cfg now msg v) = Panic m) \<longleftrightarrow>
    (\<exists>n data. snappy_DecodedLen L msg = Inr n \<and> n \<le> maxGossipSize \<and> snappy_Decode L msg = Inr data \<and>
       (length data < 65 \<or>
        (573 \<le> length data \<and> le_nat (take 4 (drop 501 data)) = 508 \<and> le_nat (take 4 (drop 569 data)) < 508)))"
proof -
  have "(256::nat) ^ 32 = 2 ^ 256" by simp
  then have fits: "nat \<bar>cfg_L2ChainID cfg\<bar> < 256 ^ 32" using assms(2,3) by (simp add: nat_less_iff)
  have author: "\<exists>b. check_author G L cfg sig pb = Ok b" for sig pb
    using fits unfolding check_author_def BlockSigningHash_def SigningHash_eq by (simp only: if_True bind_res.simps) blast
  have "(\<exists>m. fst (validate_block G H L cfg now msg v) = Panic m) \<longleftrightarrow> (\<exists>m. decode_message L msg = Panic m)"
    unfolding validate_block_def hasSeen_def using author
    by (auto split: res.splits option.splits prod.splits if_splits bool.splits) (metis res.distinct)+
  also have "\<dots> \<longleftrightarrow> (\<exists>n data. snappy_DecodedLen L msg = Inr n \<and> n \<le> maxGossipSize \<and> snappy_Decode L msg = Inr data \<and>
      (length data < 65 \<or> (65 \<le> length data \<and> (\<exists>m. UnmarshalSSZ (of_nat (length data - 65)) (drop 65 data) = Panic m))))"
    unfolding decode_message_def Let_def by (auto split: sum.splits if_splits res.splits)
  also have "\<dots> \<longleftrightarrow> (\<exists>n data. snappy_DecodedLen L msg = Inr n \<and> n \<le> maxGossipSize \<and> snappy_Decode L msg = Inr data \<and>
       (length data < 65 \<or>
        (573 \<le> length data \<and> le_nat (take 4 (drop 501 data)) = 508 \<and> le_nat (take 4 (drop 569 data)) < 508)))"
  proof -
    have ssz: "(65 \<le> length data \<and> (\<exists>m. UnmarshalSSZ (of_nat (length data - 65)) (drop 65 data) = Panic m)) \<longleftrightarrow>
        573 \<le> length data \<and> le_nat (take 4 (drop 501 data)) = 508 \<and> le_nat (take 4 (drop 569 data)) < 508"
      if "snappy_DecodedLen L msg = Inr n" "n \<le> maxGossipSize" "snappy_Decode L msg = Inr data" for n data
    proof -
      have len: "length data \<le> 2 ^ 20" using assms(1) that unfolding snappy_ok_def maxGossipSize_def by metis
      then have "unat (of_nat (length data - 65) :: u32) = length data - 65" by (intro unat_of_nat_u32) simp
      moreover have "length (drop 65 data) < 2 ^ 32" using len by simp
      ultimately show ?thesis using UnmarshalSSZ_outcome [of "drop 65 data" "of_nat (length data - 65)"] by auto
    qed
    show ?thesis by (rule iffI; elim exE conjE; (intro exI conjI, assumption, assumption, assumption); use ssz in blast)
  qed
  finally show ?thesis .
qed

subsection \<open>From the sequencer to the other nodes\<close>

lemma publish_message:
  assumes "ssz_ok p" and "length pool < 2 ^ 32" and "signs_as L k addr"
    and "0 \<le> cfg_L2ChainID cfg" and "cfg_L2ChainID cfg < 2 ^ 256"
  shows "\<exists>sig pub. PublishL2Payload G L cfg (Some k) pool p = Ok (snappy_Encode L (sig @ ssz_layout p)) \<and> length sig = 65 \<and>
    BlockSigningHash G cfg (ssz_layout p) = Ok (Keccak256 G (word_be 32 (0::hash) @ word_be 32 (Keccak256 G (ssz_layout p)) @ replicate 32 0)) \<and>
    crypto_SigToPub L (Keccak256 G (word_be 32 (0::hash) @ word_be 32 (Keccak256 G (ssz_layout p)) @ replicate 32 0)) sig = Inr pub \<and>
    crypto_PubkeyToAddress L pub = addr"
proof -
  have sz: "ssz_size p < 2 ^ 32" using assms(1) by (simp add: ssz_ok_def)
  have enc: "MarshalSSZ pool p = Ok (ssz_layout p)" using MarshalSSZ_layout [OF sz, of pool] assms(2) by simp
  have "(256::nat) ^ 32 = 2 ^ 256" by simp
  then have fits: "nat \<bar>cfg_L2ChainID cfg\<bar> < 256 ^ 32" using assms(4,5) by (simp add: nat_less_iff)
  define h where "h = Keccak256 G (word_be 32 (0::hash) @ word_be 32 (Keccak256 G (ssz_layout p)) @ replicate 32 0)"
  have hash: "SigningHash G SigningDomainBlocksV1 (cfg_L2ChainID cfg) (ssz_layout p) = Ok h"
    using fits by (simp only: SigningHash_eq if_True SigningDomainBlocksV1_def h_def)
  obtain sig pub where sig: "crypto_Sign L h k = Inr sig" "length sig = 65" "crypto_SigToPub L h sig = Inr pub" "crypto_PubkeyToAddress L pub = addr"
    using assms(3) unfolding signs_as_def by blast
  have "slice_copy (replicate 65 0 @ ssz_layout p) 0 65 sig = Ok (sig @ ssz_layout p)"
    using sig(2) by (simp add: slice_copy_def)
  then have "PublishL2Payload G L cfg (Some k) pool p = Ok (snappy_Encode L (sig @ ssz_layout p))"
    using enc hash sig by (simp add: PublishL2Payload_def LocalSigner_Sign_def Let_def)
  then show ?thesis using sig hash unfolding BlockSigningHash_def h_def by blast
qed

lemma publish_accepted:
  assumes "ssz_ok p" and "length pool < 2 ^ 32" and "ssz_size p + 65 \<le> maxGossipSize"
    and "snappy_ok L" and "signs_as L k (cfg_P2PSequencerAddress cfg)" and "0 \<le> cfg_L2ChainID cfg" and "cfg_L2ChainID cfg < 2 ^ 256"
    and time: "now - 20 \<le> ep_Timestamp p" "ep_Timestamp p \<le> now + 5" and valid: "snd (ExecutionPayload_CheckBlockHash H p)"
    and seen: "seen_at L (ep_BlockNumber p) v = (a, v1)" "length (v_seen v1 a) \<le> 5" "ep_BlockHash p \<notin> set (v_seen v1 a)"
  shows "\<exists>msg. PublishL2Payload G L cfg (Some k) pool p = Ok msg \<and>
    validate_block G H L cfg now msg v = (Ok (ValidationAccept, Some p), markSeen a (ep_BlockHash p) v1)"
proof -
  obtain sig pub where pub: "PublishL2Payload G L cfg (Some k) pool p = Ok (snappy_Encode L (sig @ ssz_layout p))" "length sig = 65"
    and author: "BlockSigningHash G cfg (ssz_layout p) = Ok (Keccak256 G (word_be 32 (0::hash) @ word_be 32 (Keccak256 G (ssz_layout p)) @ replicate 32 0))"
      "crypto_SigToPub L (Keccak256 G (word_be 32 (0::hash) @ word_be 32 (Keccak256 G (ssz_layout p)) @ replicate 32 0)) sig = Inr pub"
      "crypto_PubkeyToAddress L pub = cfg_P2PSequencerAddress cfg"
    using publish_message [OF assms(1,2,5,6,7)] by blast
  let ?msg = "snappy_Encode L (sig @ ssz_layout p)"
  have len: "length (sig @ ssz_layout p) = 65 + ssz_size p" using pub(2) by simp
  have "snappy_DecodedLen L ?msg = Inr (65 + ssz_size p)" "snappy_Decode L ?msg = Inr (sig @ ssz_layout p)"
    using assms(4) len unfolding snappy_ok_def by metis+
  moreover have "UnmarshalSSZ (of_nat (ssz_size p)) (ssz_layout p) = Ok p"
    using UnmarshalSSZ_layout [OF assms(1)] by (simp add: SizeSSZ_eq)
  ultimately have "decode_message L ?msg = Ok (Some (sig, ssz_layout p, p))"
    using assms(3) pub(2) by (simp add: decode_message_def)
  moreover have "check_author G L cfg sig (ssz_layout p) = Ok True"
    using author by (simp add: check_author_def)
  ultimately have "validate_block G H L cfg now ?msg v = (Ok (ValidationAccept, Some p), markSeen a (ep_BlockHash p) v1)"
    using time valid seen by (simp add: validate_block_def hasSeen_def not_less [symmetric])
  with pub(1) show ?thesis by blast
qed

text \<open>C28: Honest gossip gets through. The message that the sequencer publishes for a well-formed payload with
  the right block hash is accepted by every node whose clock is close enough and that has not seen the block or
  too many others at its height; the node is handed exactly the published payload.\<close>

theorem published_payload_accepted:
  assumes "ssz_ok p" and "length pool < 2 ^ 32" and "ssz_size p + 65 \<le> maxGossipSize"
    and "snappy_ok L" and "signs_as L k (cfg_P2PSequencerAddress cfg)" and "0 \<le> cfg_L2ChainID cfg" and "cfg_L2ChainID cfg < 2 ^ 256"
    and "now - 20 \<le> ep_Timestamp p" and "ep_Timestamp p \<le> now + 5" and "snd (ExecutionPayload_CheckBlockHash H p)"
    and "seen_at L (ep_BlockNumber p) v = (a, v1)" and "length (v_seen v1 a) \<le> 5" and "ep_BlockHash p \<notin> set (v_seen v1 a)"
  shows "\<exists>msg. PublishL2Payload G L cfg (Some k) pool p = Ok msg \<and>
    validate_block G H L cfg now msg v = (Ok (ValidationAccept, Some p), markSeen a (ep_BlockHash p) v1)"
  by (rule publish_accepted [OF assms])

section \<open>A concrete network\<close>

definition demo_p2p :: "(unit, unit, u64 \<rightharpoonup> nat) p2p_lib" where
  "demo_p2p = \<lparr>snappy_DecodedLen = (\<lambda>m. Inr (length m)), snappy_Decode = Inr, snappy_Encode = (\<lambda>d. d),
     crypto_Sign = (\<lambda>h k. Inr (replicate 65 1)), crypto_SigToPub = (\<lambda>h s. Inr ()), crypto_PubkeyToAddress = (\<lambda>p. 5),
     sha256 = (\<lambda>b. replicate 32 0), lru_New = Map.empty, lru_Get = (\<lambda>l k. (l k, l)), lru_Add = (\<lambda>l k a. l(k \<mapsto> a))\<rparr>"

definition gossip_hlib :: header_lib where
  "gossip_hlib = \<lparr>DeriveSha_raw = (\<lambda>t. 0), DeriveSha_txs = (\<lambda>t. 0), DeriveSha_receipts = (\<lambda>r. 0),
     Header_Hash = (\<lambda>h. 14), EmptyUncleHash = 0, EmptyRootHash = 0, FromBig = (\<lambda>x. Ok (0, False))\<rparr>"

lemma demo_p2p_ok: "snappy_ok demo_p2p" "signs_as demo_p2p () (cfg_P2PSequencerAddress demo_config)"
  by (auto simp: snappy_ok_def signs_as_def demo_p2p_def demo_config_def)

lemma demo_gossip_facts:
  "ssz_ok demo_payload" "ssz_size demo_payload + 65 \<le> maxGossipSize" "snd (ExecutionPayload_CheckBlockHash gossip_hlib demo_payload)"
  "(20::u64) - 20 \<le> ep_Timestamp demo_payload" "ep_Timestamp demo_payload \<le> (20::u64) + 5"
  "0 \<le> cfg_L2ChainID demo_config" "cfg_L2ChainID demo_config < 2 ^ 256"
  by (simp_all add: ssz_ok_def ssz_size_def demo_payload_def maxGossipSize_def ExecutionPayload_CheckBlockHash_def gossip_hlib_def Let_def demo_config_def)

lemma demo_seen: "\<exists>v1. seen_at demo_p2p (ep_BlockNumber demo_payload) (new_validator demo_p2p) = (0, v1) \<and> v_seen v1 0 = []"
  by (simp add: seen_at_def new_validator_def demo_p2p_def)

lemma demo_accepted: "\<exists>msg v'. validate_block demo_geth gossip_hlib demo_p2p demo_config 20 msg (new_validator demo_p2p) = (Ok (ValidationAccept, Some demo_payload), v')"
proof -
  obtain v1 where v1: "seen_at demo_p2p (ep_BlockNumber demo_payload) (new_validator demo_p2p) = (0, v1)" "v_seen v1 0 = []"
    using demo_seen by blast
  from publish_accepted [OF demo_gossip_facts(1) _ demo_gossip_facts(2) demo_p2p_ok demo_gossip_facts(6,7,4,5,3) v1(1), of "[]" demo_geth] v1(2)
  show ?thesis by auto
qed

theorem published_payload_accepted_witness:
  "\<exists>msg v'. PublishL2Payload demo_geth demo_p2p demo_config (Some ()) [] demo_payload = Ok msg \<and>
     validate_block demo_geth gossip_hlib demo_p2p demo_config 20 msg (new_validator demo_p2p) = (Ok (ValidationAccept, Some demo_payload), v')"
proof -
  obtain v1 where v1: "seen_at demo_p2p (ep_BlockNumber demo_payload) (new_validator demo_p2p) = (0, v1)" "v_seen v1 0 = []"
    using demo_seen by blast
  from published_payload_accepted [OF demo_gossip_facts(1) _ demo_gossip_facts(2) demo_p2p_ok demo_gossip_facts(6,7,4,5,3) v1(1), of "[]" demo_geth] v1(2)
  show ?thesis by auto
qed


theorem seen_blocks_bounded_witness:
  "\<exists>v. (gossip_step demo_geth gossip_hlib demo_p2p demo_config)\<^sup>*\<^sup>* (new_validator demo_p2p) v \<and> distinct (v_seen v 0) \<and> length (v_seen v 0) \<le> 6"
proof -
  obtain msg v' where run: "validate_block demo_geth gossip_hlib demo_p2p demo_config 20 msg (new_validator demo_p2p) = (Ok (ValidationAccept, Some demo_payload), v')"
    using demo_accepted by blast
  then have "v' = snd (validate_block demo_geth gossip_hlib demo_p2p demo_config 20 msg (new_validator demo_p2p))" by simp
  then have "(gossip_step demo_geth gossip_hlib demo_p2p demo_config)\<^sup>*\<^sup>* (new_validator demo_p2p) v'"
    unfolding gossip_step_def by (intro r_into_rtranclp) blast
  then show ?thesis using seen_blocks_bounded [of demo_geth gossip_hlib demo_p2p demo_config v' 0] by blast
qed

theorem validator_panics_iff_witness:
  "\<exists>m. fst (validate_block demo_geth gossip_hlib demo_p2p demo_config 20 [1, 2, 3] (new_validator demo_p2p)) = Panic m"
proof -
  have "snappy_DecodedLen demo_p2p [1, 2, 3] = Inr 3" "snappy_Decode demo_p2p [1, 2, 3] = Inr [1, 2, 3]" "(3::nat) \<le> maxGossipSize"
    by (simp_all add: demo_p2p_def maxGossipSize_def)
  then show ?thesis
    using validator_panics_iff [OF demo_p2p_ok(1) demo_gossip_facts(6,7), of demo_geth gossip_hlib 20 "[1, 2, 3]" "new_validator demo_p2p"] by auto
qed

end
