(* ===== verification/GossipNet.thy ===== *)
theory GossipNet
  imports Gossip "HOL-Library.Multiset"
begin

text \<open>
  The network side of block gossip (\<open>op-node/p2p/gossip.go\<close>): the options of gossipsub, the joining of the blocks topic, and the validator under the
  concurrency that \<open>JoinGossip\<close> allows. Up to four goroutines run the validator at once; they share the cache and the \<open>seenBlocks\<close> objects, whose
  methods hold a mutex, so that a validation is a sequence of atomic steps that others may interleave: the lookup in the cache, the insertion of a new object, the
  question whether the block was seen, and the mark. The pubsub package is a parameter.
\<close>

section \<open>Options and topics\<close>

definition maxOutboundQueue :: int where "maxOutboundQueue = 256"
definition maxValidateQueue :: int where "maxValidateQueue = 256"
definition globalValidateThrottle :: int where "globalValidateThrottle = 512"

text \<open>The parameters that are set; the others keep their defaults. Durations are in milliseconds.\<close>

record GossipSubParams =
  gp_D :: int
  gp_Dlo :: int
  gp_Dhi :: int
  gp_Dlazy :: int
  gp_HeartbeatInterval :: int
  gp_FanoutTTL :: int
  gp_HistoryLength :: int
  gp_HistoryGossip :: int

definition BuildGlobalGossipParams :: "GossipSubParams \<Rightarrow> GossipSubParams" where
  "BuildGlobalGossipParams defaults =
     defaults\<lparr>gp_D := 8, gp_Dlo := 6, gp_Dhi := 12, gp_Dlazy := 6, gp_HeartbeatInterval := 500, gp_FanoutTTL := 24 * 1000, gp_HistoryLength := 12, gp_HistoryGossip := 3\<rparr>"

definition BuildSubscriptionFilter :: "Config \<Rightarrow> string list" where
  "BuildSubscriptionFilter cfg = [blocksTopicV1 cfg]"

datatype gossip_option =
    WithMaxMessageSize nat | WithMessageIdFn "string \<Rightarrow> bytes \<Rightarrow> bytes" | WithNoAuthor | WithStrictNoSign | WithSubscriptionFilter "string list"
  | WithValidateQueueSize int | WithPeerOutboundQueueSize int | WithValidateThrottle int | WithPeerExchange bool | WithBlacklist nat
  | WithGossipSubParams GossipSubParams

record 'w pubsub_lib =
  ps_NewTimeCachedBlacklist :: "int \<Rightarrow> error + nat"
  ps_DefaultGossipSubParams :: GossipSubParams
  ps_NewGossipSub :: "nat \<Rightarrow> gossip_option list \<Rightarrow> ('w, nat) rpc"
  ps_RegisterTopicValidator :: "nat \<Rightarrow> string \<Rightarrow> int \<Rightarrow> nat \<Rightarrow> ('w, unit) rpc"
  ps_Join :: "nat \<Rightarrow> string \<Rightarrow> ('w, nat) rpc"
  topic_EventHandler :: "nat \<Rightarrow> ('w, nat) rpc"
  topic_Subscribe :: "nat \<Rightarrow> ('w, nat) rpc"
  topic_Publish :: "nat \<Rightarrow> bytes \<Rightarrow> ('w, unit) rpc"
  topic_Close :: "nat \<Rightarrow> ('w, unit) rpc"

definition NewGossipSub :: "('k, 'p, 'l) p2p_lib \<Rightarrow> 'w pubsub_lib \<Rightarrow> nat \<Rightarrow> Config \<Rightarrow> ('w, nat) rpc" where
  "NewGossipSub L P h cfg =
     rbind (lift_res (of_sum (ps_NewTimeCachedBlacklist P (30 * 1000)))) (\<lambda>denyList.
     ps_NewGossipSub P h
       [WithMaxMessageSize maxGossipSize, WithMessageIdFn (msg_id L), WithNoAuthor, WithStrictNoSign, WithSubscriptionFilter (BuildSubscriptionFilter cfg),
        WithValidateQueueSize maxValidateQueue, WithPeerOutboundQueueSize maxOutboundQueue, WithValidateThrottle globalValidateThrottle,
        WithPeerExchange False, WithBlacklist denyList, WithGossipSubParams (BuildGlobalGossipParams (ps_DefaultGossipSubParams P))])"

section \<open>Joining the topic\<close>

definition validatorConcurrency :: nat where "validatorConcurrency = 4"

text \<open>What \<open>JoinGossip\<close> leaves running: the topic of the publisher, the event log and the subscriber.\<close>

record publisher =
  pub_blocksTopic :: nat
  pub_events :: nat
  pub_subscription :: nat

definition JoinGossip :: "'w pubsub_lib \<Rightarrow> nat \<Rightarrow> Config \<Rightarrow> ('w, publisher) rpc" where
  "JoinGossip P ps cfg =
     (let blocksTopicName = blocksTopicV1 cfg in
     rbind (rmap_err (\<lambda>e. ErrMsg ''failed to register blocks gossip topic'') (ps_RegisterTopicValidator P ps blocksTopicName (3 * 1000) validatorConcurrency)) (\<lambda>_.
     rbind (rmap_err (\<lambda>e. ErrMsg ''failed to join blocks gossip topic'') (ps_Join P ps blocksTopicName)) (\<lambda>blocksTopic.
     rbind (rmap_err (\<lambda>e. ErrMsg ''failed to create blocks gossip topic handler'') (topic_EventHandler P blocksTopic)) (\<lambda>events.
     rbind (rmap_err (\<lambda>e. ErrMsg ''failed to subscribe to blocks gossip topic'') (topic_Subscribe P blocksTopic)) (\<lambda>subscription.
     ret \<lparr>pub_blocksTopic = blocksTopic, pub_events = events, pub_subscription = subscription\<rparr>)))))"

definition publisher_Close :: "'w pubsub_lib \<Rightarrow> publisher \<Rightarrow> ('w, unit) rpc" where
  "publisher_Close P p = topic_Close P (pub_blocksTopic p)"

definition publisher_Publish ::
  "geth \<Rightarrow> ('k, 'p, 'l) p2p_lib \<Rightarrow> 'w pubsub_lib \<Rightarrow> Config \<Rightarrow> publisher \<Rightarrow> 'k option \<Rightarrow> bytes \<Rightarrow> ExecutionPayload \<Rightarrow> ('w, unit) rpc" where
  "publisher_Publish G L P cfg p signer pool payload =
     rbind (lift_res (PublishL2Payload G L cfg signer pool payload)) (\<lambda>out. topic_Publish P (pub_blocksTopic p) out)"

section \<open>The validator under concurrency\<close>

text \<open>The stages before the cache: \<open>None\<close> is a rejection.\<close>

definition fresh_message :: "header_lib \<Rightarrow> ('k, 'p, 'l) p2p_lib \<Rightarrow> u64 \<Rightarrow> bytes \<Rightarrow> (bytes \<times> bytes \<times> ExecutionPayload) option" where
  "fresh_message H L now msg =
     (case decode_message L msg of
        Ok (Some (sig, pb, payload)) \<Rightarrow>
          if ep_Timestamp payload < now - 20 \<or> ep_Timestamp payload > now + 5 \<or> \<not> snd (ExecutionPayload_CheckBlockHash H payload) then None
          else Some (sig, pb, payload)
      | _ \<Rightarrow> None)"

text \<open>Where a goroutine is: before the lookup, after a miss, with the object for its height, before the mark.\<close>

datatype vphase = Looking bytes bytes ExecutionPayload | Missing bytes bytes ExecutionPayload | Holding nat bytes bytes ExecutionPayload | Marking nat ExecutionPayload

record 'l gossip_net =
  gn_v :: "'l validator"
  gn_running :: "vphase multiset"
  gn_queue :: "ExecutionPayload list"      \<comment> \<open>accepted, not yet taken by the subscriber\<close>
  gn_handled :: "ExecutionPayload list"    \<comment> \<open>handed to \<open>OnUnsafeL2Payload\<close>\<close>

definition new_object :: "('k, 'p, 'l) p2p_lib \<Rightarrow> u64 \<Rightarrow> 'l validator \<Rightarrow> 'l validator" where
  "new_object L height v = v\<lparr>v_lru := lru_Add L (v_lru v) height (v_next v), v_seen := (v_seen v)(v_next v := []), v_next := v_next v + 1\<rparr>"

inductive net_step :: "geth \<Rightarrow> header_lib \<Rightarrow> ('k, 'p, 'l) p2p_lib \<Rightarrow> Config \<Rightarrow> 'l gossip_net \<Rightarrow> 'l gossip_net \<Rightarrow> bool" for G H L cfg s where
  arrive: "size (gn_running s) < validatorConcurrency \<Longrightarrow> fresh_message H L now msg = Some (sig, pb, pl) \<Longrightarrow>
    net_step G H L cfg s (s\<lparr>gn_running := add_mset (Looking sig pb pl) (gn_running s)\<rparr>)"
| hit: "gn_running s = add_mset (Looking sig pb pl) R \<Longrightarrow> lru_Get L (v_lru (gn_v s)) (ep_BlockNumber pl) = (Some a, l) \<Longrightarrow>
    net_step G H L cfg s (s\<lparr>gn_v := (gn_v s)\<lparr>v_lru := l\<rparr>, gn_running := add_mset (Holding a sig pb pl) R\<rparr>)"
| miss: "gn_running s = add_mset (Looking sig pb pl) R \<Longrightarrow> lru_Get L (v_lru (gn_v s)) (ep_BlockNumber pl) = (None, l) \<Longrightarrow>
    net_step G H L cfg s (s\<lparr>gn_v := (gn_v s)\<lparr>v_lru := l\<rparr>, gn_running := add_mset (Missing sig pb pl) R\<rparr>)"
| create: "gn_running s = add_mset (Missing sig pb pl) R \<Longrightarrow>
    net_step G H L cfg s (s\<lparr>gn_v := new_object L (ep_BlockNumber pl) (gn_v s), gn_running := add_mset (Holding (v_next (gn_v s)) sig pb pl) R\<rparr>)"
| refuse: "gn_running s = add_mset (Holding a sig pb pl) R \<Longrightarrow>
    length (v_seen (gn_v s) a) > 5 \<or> ep_BlockHash pl \<in> set (v_seen (gn_v s) a) \<or> check_author G L cfg sig pb = Ok False \<Longrightarrow>
    net_step G H L cfg s (s\<lparr>gn_running := R\<rparr>)"
| pass: "gn_running s = add_mset (Holding a sig pb pl) R \<Longrightarrow> length (v_seen (gn_v s) a) \<le> 5 \<Longrightarrow> ep_BlockHash pl \<notin> set (v_seen (gn_v s) a) \<Longrightarrow>
    check_author G L cfg sig pb = Ok True \<Longrightarrow> net_step G H L cfg s (s\<lparr>gn_running := add_mset (Marking a pl) R\<rparr>)"
| mark: "gn_running s = add_mset (Marking a pl) R \<Longrightarrow>
    net_step G H L cfg s (s\<lparr>gn_v := markSeen a (ep_BlockHash pl) (gn_v s), gn_running := R, gn_queue := gn_queue s @ [pl]\<rparr>)"
| handle: "gn_queue s = pl # q \<Longrightarrow> net_step G H L cfg s (s\<lparr>gn_queue := q, gn_handled := gn_handled s @ [pl]\<rparr>)"

definition net_start :: "('k, 'p, 'l) p2p_lib \<Rightarrow> 'l gossip_net" where
  "net_start L = \<lparr>gn_v = new_validator L, gn_running = {#}, gn_queue = [], gn_handled = []\<rparr>"

subsection \<open>Invariant\<close>

text \<open>A payload that the validator may let through: decoded from a message that was fresh when it arrived, with its own block hash, and signed by the sequencer.\<close>

definition authentic :: "geth \<Rightarrow> header_lib \<Rightarrow> ('k, 'p, 'l) p2p_lib \<Rightarrow> Config \<Rightarrow> ExecutionPayload \<Rightarrow> bool" where
  "authentic G H L cfg pl \<longleftrightarrow> (\<exists>now msg sig pb. fresh_message H L now msg = Some (sig, pb, pl) \<and> check_author G L cfg sig pb = Ok True)"

fun vphase_ok :: "geth \<Rightarrow> header_lib \<Rightarrow> ('k, 'p, 'l) p2p_lib \<Rightarrow> Config \<Rightarrow> vphase \<Rightarrow> bool" where
  "vphase_ok G H L cfg (Looking sig pb pl) \<longleftrightarrow> (\<exists>now msg. fresh_message H L now msg = Some (sig, pb, pl))"
| "vphase_ok G H L cfg (Missing sig pb pl) \<longleftrightarrow> (\<exists>now msg. fresh_message H L now msg = Some (sig, pb, pl))"
| "vphase_ok G H L cfg (Holding a sig pb pl) \<longleftrightarrow> (\<exists>now msg. fresh_message H L now msg = Some (sig, pb, pl))"
| "vphase_ok G H L cfg (Marking a pl) \<longleftrightarrow> authentic G H L cfg pl"

fun marks :: "nat \<Rightarrow> vphase \<Rightarrow> bool" where
  "marks a (Marking b pl) \<longleftrightarrow> a = b"
| "marks a ph \<longleftrightarrow> False"

text \<open>The hashes of an object and the goroutines that are about to add one.\<close>

definition load_of :: "'l gossip_net \<Rightarrow> nat \<Rightarrow> nat" where
  "load_of s a = length (v_seen (gn_v s) a) + size (filter_mset (marks a) (gn_running s))"

definition net_inv :: "geth \<Rightarrow> header_lib \<Rightarrow> ('k, 'p, 'l) p2p_lib \<Rightarrow> Config \<Rightarrow> 'l gossip_net \<Rightarrow> bool" where
  "net_inv G H L cfg s \<longleftrightarrow> size (gn_running s) \<le> validatorConcurrency \<and> (\<forall>a. load_of s a \<le> 5 + validatorConcurrency) \<and>
     (\<forall>ph\<in>#gn_running s. vphase_ok G H L cfg ph) \<and> (\<forall>pl\<in>set (gn_queue s @ gn_handled s). authentic G H L cfg pl)"

lemma load_pass:
  assumes "gn_running s = add_mset (Holding a sig pb pl) R" and "size (gn_running s) \<le> validatorConcurrency" and "length (v_seen (gn_v s) a) \<le> 5"
  shows "length (v_seen (gn_v s) a) + Suc (size (filter_mset (marks a) R)) \<le> 5 + validatorConcurrency"
proof -
  have "size (filter_mset (marks a) R) \<le> size R" by (rule size_filter_mset_lesseq)
  moreover have "Suc (size R) \<le> validatorConcurrency" using assms(1,2) by simp
  ultimately show ?thesis using assms(3) by linarith
qed

lemma net_inv_step: "net_inv G H L cfg s \<Longrightarrow> net_step G H L cfg s t \<Longrightarrow> net_inv G H L cfg t"
proof -
  assume inv: "net_inv G H L cfg s" and step: "net_step G H L cfg s t"
  have size: "size (gn_running s) \<le> validatorConcurrency" and load: "\<And>a. load_of s a \<le> 5 + validatorConcurrency"
    and phases: "\<And>ph. ph \<in># gn_running s \<Longrightarrow> vphase_ok G H L cfg ph" and ok: "\<And>pl. pl \<in> set (gn_queue s @ gn_handled s) \<Longrightarrow> authentic G H L cfg pl"
    using inv by (auto simp: net_inv_def)
  from step show ?thesis
  proof (cases rule: net_step.cases)
    case (arrive now msg sig pb pl)
    then show ?thesis using load phases ok by (auto simp: net_inv_def load_of_def)
  next
    case (hit sig pb pl R a l)
    then show ?thesis using size load phases phases [of "Looking sig pb pl"] ok by (auto simp: net_inv_def load_of_def)
  next
    case (miss sig pb pl R l)
    then show ?thesis using size load phases phases [of "Looking sig pb pl"] ok by (auto simp: net_inv_def load_of_def)
  next
    case (create sig pb pl R)
    have "load_of t a \<le> 5 + validatorConcurrency" for a
      using create load [of a] by (auto simp: load_of_def new_object_def)
    with create show ?thesis using size phases phases [of "Missing sig pb pl"] ok by (auto simp: net_inv_def)
  next
    case (refuse a sig pb pl R)
    then show ?thesis using size load phases ok by (auto simp: net_inv_def load_of_def)
  next
    case (pass a sig pb pl R)
    have "load_of t b \<le> 5 + validatorConcurrency" for b
      using pass load [of b] load_pass [OF pass(2) size pass(3)] by (auto simp: load_of_def)
    moreover have "authentic G H L cfg pl" using phases [of "Holding a sig pb pl"] pass(2,5) by (auto simp: authentic_def)
    ultimately show ?thesis using pass size phases ok by (auto simp: net_inv_def)
  next
    case (mark a pl R)
    have "load_of t b \<le> 5 + validatorConcurrency" for b using mark load [of b] by (auto simp: load_of_def markSeen_def)
    moreover have "authentic G H L cfg pl" using phases [of "Marking a pl"] mark(2) by simp
    ultimately show ?thesis using mark size phases ok by (auto simp: net_inv_def)
  next
    case (handle pl q)
    then show ?thesis using size load phases ok by (auto simp: net_inv_def load_of_def)
  qed
qed

interpretation gossip_net: step_invariant "\<lambda>s. s = net_start L" "net_step G H L cfg" "net_inv G H L cfg"
proof
  show "net_inv G H L cfg s" if "s = net_start L" for s using that by (simp add: net_inv_def net_start_def load_of_def new_validator_def)
qed (rule net_inv_step)

lemma authentic_facts:
  assumes "authentic G H L cfg pl"
  shows "\<exists>now msg sig pb pub. decode_message L msg = Ok (Some (sig, pb, pl)) \<and>
    crypto_SigToPub L (Keccak256 G (word_be 32 (0::hash) @ word_be 32 (Keccak256 G pb) @ replicate 32 0)) sig = Inr pub \<and>
    crypto_PubkeyToAddress L pub = cfg_P2PSequencerAddress cfg \<and> snd (ExecutionPayload_CheckBlockHash H pl) \<and>
    now - 20 \<le> ep_Timestamp pl \<and> ep_Timestamp pl \<le> now + 5"
proof -
  from assms obtain now msg sig pb where fresh: "fresh_message H L now msg = Some (sig, pb, pl)" and author: "check_author G L cfg sig pb = Ok True"
    by (auto simp: authentic_def)
  from fresh have "decode_message L msg = Ok (Some (sig, pb, pl))" "snd (ExecutionPayload_CheckBlockHash H pl)"
    "now - 20 \<le> ep_Timestamp pl" "ep_Timestamp pl \<le> now + 5"
    by (auto simp: fresh_message_def not_less split: res.splits option.splits if_splits)
  with check_author_True [OF author] show ?thesis by blast
qed


subsection \<open>One message at a time\<close>

text \<open>A goroutine that is not interrupted does what \<open>validate_block\<close> describes: the same verdict, the same memory, and an accepted payload is queued.\<close>

lemma validate_fresh:
  assumes "fresh_message H L now msg = Some (sig, pb, pl)" and "check_author G L cfg sig pb = Ok ok" and "seen_at L (ep_BlockNumber pl) v = (a, v1)"
  shows "validate_block G H L cfg now msg v =
    (if length (v_seen v1 a) > 5 then (Ok (ValidationReject, None), v1) else if ep_BlockHash pl \<in> set (v_seen v1 a) then (Ok (ValidationIgnore, None), v1)
     else if ok then (Ok (ValidationAccept, Some pl), markSeen a (ep_BlockHash pl) v1) else (Ok (ValidationReject, None), v1))"
proof -
  from assms(1) have "decode_message L msg = Ok (Some (sig, pb, pl))" "\<not> ep_Timestamp pl < now - 20" "\<not> ep_Timestamp pl > now + 5" "snd (ExecutionPayload_CheckBlockHash H pl)"
    by (auto simp: fresh_message_def split: res.splits option.splits if_splits)
  then show ?thesis using assms(2,3) by (simp add: validate_block_def hasSeen_def)
qed

lemma net_lookup:
  assumes "seen_at L (ep_BlockNumber pl) (gn_v s) = (a, v1)"
  shows "(net_step G H L cfg)\<^sup>*\<^sup>* (s\<lparr>gn_running := {#Looking sig pb pl#}\<rparr>) (s\<lparr>gn_v := v1, gn_running := {#Holding a sig pb pl#}\<rparr>)"
proof (cases "lru_Get L (v_lru (gn_v s)) (ep_BlockNumber pl)")
  case (Pair r l)
  show ?thesis
  proof (cases r)
    case None
    let ?s1 = "s\<lparr>gn_v := (gn_v s)\<lparr>v_lru := l\<rparr>, gn_running := {#Missing sig pb pl#}\<rparr>"
    have "net_step G H L cfg (s\<lparr>gn_running := {#Looking sig pb pl#}\<rparr>) ?s1"
      using net_step.miss [of "s\<lparr>gn_running := {#Looking sig pb pl#}\<rparr>" sig pb pl "{#}" L l] Pair None by simp
    moreover have "net_step G H L cfg ?s1 (s\<lparr>gn_v := v1, gn_running := {#Holding a sig pb pl#}\<rparr>)"
      using net_step.create [of ?s1 sig pb pl "{#}" G H L cfg] assms Pair None by (auto simp: seen_at_def new_object_def)
    ultimately show ?thesis by auto
  next
    case (Some b)
    then have "net_step G H L cfg (s\<lparr>gn_running := {#Looking sig pb pl#}\<rparr>) (s\<lparr>gn_v := v1, gn_running := {#Holding a sig pb pl#}\<rparr>)"
      using net_step.hit [of "s\<lparr>gn_running := {#Looking sig pb pl#}\<rparr>" sig pb pl "{#}" L a l] Pair assms by (simp add: seen_at_def)
    then show ?thesis by auto
  qed
qed

lemma net_verdict:
  assumes "check_author G L cfg sig pb = Ok ok"
  shows "(net_step G H L cfg)\<^sup>*\<^sup>* (s\<lparr>gn_v := v1, gn_running := {#Holding a sig pb pl#}\<rparr>)
    (if length (v_seen v1 a) \<le> 5 \<and> ep_BlockHash pl \<notin> set (v_seen v1 a) \<and> ok
     then s\<lparr>gn_v := markSeen a (ep_BlockHash pl) v1, gn_running := {#}, gn_queue := gn_queue s @ [pl]\<rparr> else s\<lparr>gn_v := v1, gn_running := {#}\<rparr>)"
proof (cases "length (v_seen v1 a) \<le> 5 \<and> ep_BlockHash pl \<notin> set (v_seen v1 a) \<and> ok")
  case True
  let ?s = "s\<lparr>gn_v := v1, gn_running := {#Holding a sig pb pl#}\<rparr>" and ?m = "s\<lparr>gn_v := v1, gn_running := {#Marking a pl#}\<rparr>"
  have "net_step G H L cfg ?s ?m" using net_step.pass [of ?s a sig pb pl "{#}" G L cfg H] True assms by simp
  moreover have "net_step G H L cfg ?m (s\<lparr>gn_v := markSeen a (ep_BlockHash pl) v1, gn_running := {#}, gn_queue := gn_queue s @ [pl]\<rparr>)"
    using net_step.mark [of ?m a pl "{#}" G H L cfg] by simp
  ultimately show ?thesis using True by auto
next
  case False
  let ?s = "s\<lparr>gn_v := v1, gn_running := {#Holding a sig pb pl#}\<rparr>"
  have "net_step G H L cfg ?s (s\<lparr>gn_v := v1, gn_running := {#}\<rparr>)"
    using net_step.refuse [of ?s a sig pb pl "{#}" G L cfg H] False assms by (cases ok) auto
  then show ?thesis using False by auto
qed

theorem validation_alone:
  assumes "fresh_message H L now msg = Some (sig, pb, pl)" and "check_author G L cfg sig pb = Ok ok" and "gn_running s = {#}"
  shows "\<exists>verdict r t. validate_block G H L cfg now msg (gn_v s) = (Ok (verdict, r), gn_v t) \<and> (net_step G H L cfg)\<^sup>*\<^sup>* s t \<and> gn_running t = {#} \<and>
    gn_queue t = gn_queue s @ (case r of None \<Rightarrow> [] | Some p \<Rightarrow> [p]) \<and> gn_handled t = gn_handled s"
proof -
  obtain a v1 where seen: "seen_at L (ep_BlockNumber pl) (gn_v s) = (a, v1)" by fastforce
  have "net_step G H L cfg s (s\<lparr>gn_running := {#Looking sig pb pl#}\<rparr>)"
    using net_step.arrive [of s H L now msg sig pb pl G cfg] assms(1,3) by (simp add: validatorConcurrency_def)
  from converse_rtranclp_into_rtranclp [OF this rtranclp_trans [OF net_lookup [OF seen] net_verdict [OF assms(2)]]]
  show ?thesis unfolding validate_fresh [OF assms(1,2) seen] by (force split: if_splits)
qed

subsection \<open>A concrete run\<close>

lemma demo_fresh: "\<exists>msg sig pb. fresh_message gossip_hlib demo_p2p 20 msg = Some (sig, pb, demo_payload) \<and> check_author demo_geth demo_p2p demo_config sig pb = Ok True"
proof -
  obtain msg v' where "validate_block demo_geth gossip_hlib demo_p2p demo_config 20 msg (new_validator demo_p2p) = (Ok (ValidationAccept, Some demo_payload), v')"
    using demo_accepted by blast
  from validate_accepted [OF this] obtain sig pb where "decode_message demo_p2p msg = Ok (Some (sig, pb, demo_payload))" "(20::u64) - 20 \<le> ep_Timestamp demo_payload"
    "ep_Timestamp demo_payload \<le> 20 + 5" "snd (ExecutionPayload_CheckBlockHash gossip_hlib demo_payload)" "check_author demo_geth demo_p2p demo_config sig pb = Ok True"
    by blast
  then have "fresh_message gossip_hlib demo_p2p 20 msg = Some (sig, pb, demo_payload)" by (simp add: fresh_message_def not_less)
  with \<open>check_author demo_geth demo_p2p demo_config sig pb = Ok True\<close> show ?thesis by blast
qed


end
