(* ===== verification/NodeAPI.thy ===== *)
theory NodeAPI
  imports L2Source "HOL-Library.Sublist"
begin

text \<open>
  The public API of the rollup node (\<open>op-node/node/api.go\<close>, \<open>op-node/node/bundle_builder.go\<close>) and the
  verification of account proofs (\<open>op-node/l2/util.go\<close>): output roots for the proposer and bundles of
  batches for the batch submitter. The API calls its L2 client through the interface \<open>l2EthClient\<close>,
  a record here; \<open>readonly_client\<close> is the implementation that the node wires in.
\<close>

section \<open>Bundle builder\<close>

record BundleCandidate =
  cand_ID :: BlockID
  cand_Batch :: "BatchData option"

record BundleBuilder =
  bb_prevBlockID :: BlockID
  bb_candidates :: "BundleCandidate list"
  bb_numNonEmpty :: int

record BatchBundleRequest =
  req_L2History :: "hash list"
  req_MinSize :: u64
  req_MaxSize :: u64

record BatchBundleResponse =
  rsp_PrevL2BlockHash :: hash
  rsp_PrevL2BlockNum :: u64
  rsp_LastL2BlockHash :: hash
  rsp_LastL2BlockNum :: u64
  rsp_Bundle :: bytes

definition NewBundleBuilder :: "BlockID \<Rightarrow> BundleBuilder" where
  "NewBundleBuilder prevBlockID = \<lparr>bb_prevBlockID = prevBlockID, bb_candidates = [], bb_numNonEmpty = 0\<rparr>"

definition AddCandidate :: "BundleBuilder \<Rightarrow> BundleCandidate \<Rightarrow> BundleBuilder" where
  "AddCandidate b cand =
     b\<lparr>bb_candidates := bb_candidates b @ [cand],
       bb_numNonEmpty := (if cand_Batch cand \<noteq> None then bb_numNonEmpty b + 1 else bb_numNonEmpty b)\<rparr>"

definition HasNonEmptyCandidate :: "BundleBuilder \<Rightarrow> bool" where
  "HasNonEmptyCandidate b \<longleftrightarrow> bb_numNonEmpty b > 0"

fun prune_loop :: "BundleBuilder \<Rightarrow> nat \<Rightarrow> BundleBuilder" where
  "prune_loop b 0 = b"
| "prune_loop b (Suc i) =
     (if cand_Batch (bb_candidates b ! i) \<noteq> None
      then b\<lparr>bb_candidates := take i (bb_candidates b), bb_numNonEmpty := bb_numNonEmpty b - 1\<rparr>
      else prune_loop b i)"

definition PruneLastNonEmpty :: "BundleBuilder \<Rightarrow> BundleBuilder" where
  "PruneLastNonEmpty b =
     (if bb_numNonEmpty b = 0 then b else prune_loop b (length (bb_candidates b)))"

definition Builder_Batches :: "BundleBuilder \<Rightarrow> BatchData list" where
  "Builder_Batches b = List.map_filter cand_Batch (bb_candidates b)"

definition Builder_Response :: "BundleBuilder \<Rightarrow> bytes \<Rightarrow> BatchBundleResponse" where
  "Builder_Response b bundle =
     (let lastBlockID = (if bb_candidates b \<noteq> [] then cand_ID (last (bb_candidates b)) else bb_prevBlockID b) in
      \<lparr>rsp_PrevL2BlockHash = id_Hash (bb_prevBlockID b), rsp_PrevL2BlockNum = id_Number (bb_prevBlockID b),
       rsp_LastL2BlockHash = id_Hash lastBlockID, rsp_LastL2BlockNum = id_Number lastBlockID,
       rsp_Bundle = bundle\<rparr>)"

section \<open>The L2 client of the API\<close>

record 'w l2EthClient =
  ec_GetBlockHeader :: "string \<Rightarrow> ('w, Header option) rpc"
  ec_GetProof :: "address \<Rightarrow> string \<Rightarrow> ('w, AccountResult option) rpc"
  ec_BlockByNumber :: "int option \<Rightarrow> ('w, Block) rpc"
  ec_L2BlockRefByNumber :: "int option \<Rightarrow> ('w, L2BlockRef) rpc"
  ec_L2BlockRefByHash :: "hash \<Rightarrow> ('w, L2BlockRef) rpc"

definition readonly_client :: "header_lib \<Rightarrow> 'w l2_client \<Rightarrow> Genesis \<Rightarrow> 'w l2EthClient" where
  "readonly_client H c genesis = \<lparr>ec_GetBlockHeader = ReadOnlySource_GetBlockHeader c,
     ec_GetProof = ReadOnlySource_GetProof c, ec_BlockByNumber = ReadOnlySource_BlockByNumber c,
     ec_L2BlockRefByNumber = ReadOnlySource_L2BlockRefByNumber H c genesis,
     ec_L2BlockRefByHash = ReadOnlySource_L2BlockRefByHash H c genesis\<rparr>"

section \<open>GetBatchBundle\<close>

definition MaxL2BlocksPerBatchResponse :: u64 where
  "MaxL2BlocksPerBatchResponse = 100"

text \<open>The search for the common point with the history of the request.\<close>

fun find_common :: "'w l2EthClient \<Rightarrow> hash list \<Rightarrow> ('w, BlockID) rpc" where
  "find_common c [] = ret BlockID_zero"
| "find_common c (h # hs) =
     rcatch (ec_L2BlockRefByHash c h)
       (\<lambda>err. if errors_Is err NotFound then find_common c hs
              else lift_res (Err (ErrMsg ''failed to check L2 history for block hash in request'')))
       (\<lambda>l2Ref. rcatch (ec_L2BlockRefByNumber c (Some (sint (l2_Number l2Ref))))
          (\<lambda>err. if errors_Is err NotFound then find_common c hs
                 else lift_res (Err (ErrMsg ''failed to check L2 history for block number'')))
          (\<lambda>canonBlock. if l2_Hash canonBlock = h
             then ret \<lparr>id_Hash = l2_Hash canonBlock, id_Number = l2_Number canonBlock\<rparr>
             else find_common c hs))"

lemma count_up_decreases:
  fixes i bound :: u64
  assumes "i < bound"
  shows "unat bound - unat (i + 1) < unat bound - unat i"
proof -
  have "unat i < unat bound" using assms by (simp add: word_less_nat_alt)
  moreover have "unat bound < 2 ^ 64" using unsigned_less [of bound] by simp
  ultimately have "unat i < unat bound" "unat (i + 1) = unat i + 1"
    using unat_add_no_wrap [of i 1] by simp_all
  then show ?thesis by simp
qed

text \<open>The loop over the next blocks. It stops before \<open>bound\<close>, at the end of the chain, or at the first
  batch that would make the bundle too large; the flag is \<open>hasLargeNextBatch\<close>.\<close>

function collect_loop ::
  "geth \<Rightarrow> header_lib \<Rightarrow> rlp_lib \<Rightarrow> 'w l2EthClient \<Rightarrow> BatchBundleRequest \<Rightarrow> u64 \<Rightarrow> u64 \<Rightarrow> BundleBuilder \<Rightarrow> u64 \<Rightarrow>
   ('w, BundleBuilder \<times> bool) rpc" where
  "collect_loop G H R c req bound i builder totalBatchSizeBytes =
     (if i < bound then
        rcatch (ec_BlockByNumber c (Some (sint i)))
          (\<lambda>err. if errors_Is err NotFound then ret (builder, False)
                 else lift_res (Err (ErrMsg ''failed to retrieve L2 block by number'')))
          (\<lambda>l2Block.
             let blockID = \<lparr>id_Hash = Block_Hash H l2Block, id_Number = Block_NumberU64 l2Block\<rparr> in
             case BlockToBatch G l2Block of
               Inl e \<Rightarrow> lift_res (Err (ErrMsg ''failed to convert L2 block to batch''))
             | Inr None \<Rightarrow> collect_loop G H R c req bound (i + 1)
                 (AddCandidate builder \<lparr>cand_ID = blockID, cand_Batch = None\<rparr>) totalBatchSizeBytes
             | Inr (Some batch) \<Rightarrow> (case EncodeBatches R [batch] of
                 Inl e \<Rightarrow> lift_res (Err (ErrMsg ''failed to encode batch for size estimate''))
               | Inr buf \<Rightarrow>
                   let nextBatchSizeBytes = of_nat (length buf) in
                   if totalBatchSizeBytes + nextBatchSizeBytes > req_MaxSize req
                   then ret (builder, totalBatchSizeBytes < req_MinSize req)
                   else collect_loop G H R c req bound (i + 1)
                     (AddCandidate builder \<lparr>cand_ID = blockID, cand_Batch = Some batch\<rparr>) (totalBatchSizeBytes + nextBatchSizeBytes)))
      else ret (builder, False))"
  by pat_completeness auto
termination
  by (relation "measure (\<lambda>(G, H, R, c, req, bound, i, builder, totalBatchSizeBytes). unat bound - unat i)")
     (auto simp: count_up_decreases)

declare collect_loop.simps [simp del]

text \<open>The final loop: encode, prune while the bundle is too large, and check the minimum size.
  A builder whose counter is wrong would make it run forever, so a run that does not end is \<open>None\<close>.\<close>

partial_function (option) bundle_loop ::
  "rlp_lib \<Rightarrow> BatchBundleRequest \<Rightarrow> bool \<Rightarrow> nat \<Rightarrow> BundleBuilder \<Rightarrow> BatchBundleResponse option res option" where
  "bundle_loop R req hasLargeNextBatch pruneCount builder =
     (if \<not> HasNonEmptyCandidate builder then Some (Ok (Some (Builder_Response builder [])))
      else (case EncodeBatches R (Builder_Batches builder) of
          Inl e \<Rightarrow> Some (Err (ErrMsg ''failed to encode selected batches as bundle''))
        | Inr buf \<Rightarrow>
            if (of_nat (length buf) :: u64) > req_MaxSize req
            then bundle_loop R req hasLargeNextBatch (pruneCount + 1) (PruneLastNonEmpty builder)
            else if \<not> (pruneCount > 0 \<or> hasLargeNextBatch) \<and> (of_nat (length buf) :: u64) < req_MinSize req
            then Some (Ok None)
            else Some (Ok (Some (Builder_Response builder buf)))))"

definition GetBatchBundle ::
  "geth \<Rightarrow> header_lib \<Rightarrow> rlp_lib \<Rightarrow> 'w l2EthClient \<Rightarrow> BatchBundleRequest \<Rightarrow> ('w, BatchBundleResponse option) rpc" where
  "GetBatchBundle G H R c req =
     rbind (find_common c (req_L2History req)) (\<lambda>found.
     if found = BlockID_zero then lift_res (Err NotFound)
     else rbind (collect_loop G H R c req (id_Number found + MaxL2BlocksPerBatchResponse + 1) (id_Number found + 1)
                   (NewBundleBuilder found) 0) (\<lambda>(builder, hasLargeNextBatch).
     lift_res (case bundle_loop R req hasLargeNextBatch 0 builder of None \<Rightarrow> Diverge | Some r \<Rightarrow> r)))"

section \<open>The builder keeps its counter\<close>

definition builder_ok :: "BundleBuilder \<Rightarrow> bool" where
  "builder_ok b \<longleftrightarrow> bb_numNonEmpty b = int (length (Builder_Batches b))"

lemma map_filter_append: "List.map_filter f (xs @ ys) = List.map_filter f xs @ List.map_filter f ys"
  by (simp add: List.map_filter_def)

lemma map_filter_Nil_iff: "List.map_filter f xs = [] \<longleftrightarrow> (\<forall>x \<in> set xs. f x = None)"
  by (induction xs) (auto simp: map_filter_simps split: option.splits)

lemma builder_ok_new: "builder_ok (NewBundleBuilder prev)"
  by (simp add: builder_ok_def NewBundleBuilder_def Builder_Batches_def map_filter_simps)

lemma builder_ok_add: "builder_ok b \<Longrightarrow> builder_ok (AddCandidate b x)"
  by (auto simp: builder_ok_def AddCandidate_def Builder_Batches_def map_filter_append map_filter_simps)

lemma prune_loop_spec:
  assumes "i \<le> length (bb_candidates b)" and "\<exists>x \<in> set (take i (bb_candidates b)). cand_Batch x \<noteq> None"
    and "\<forall>x \<in> set (drop i (bb_candidates b)). cand_Batch x = None"
  shows "\<exists>p c s. bb_candidates b = p @ c # s \<and> cand_Batch c \<noteq> None \<and> (\<forall>x \<in> set s. cand_Batch x = None) \<and>
    prune_loop b i = b\<lparr>bb_candidates := p, bb_numNonEmpty := bb_numNonEmpty b - 1\<rparr>"
  using assms
proof (induction i)
  case (Suc i)
  let ?cs = "bb_candidates b"
  have split: "?cs = take i ?cs @ ?cs ! i # drop (Suc i) ?cs"
    using Suc.prems(1) by (simp add: id_take_nth_drop)
  show ?case
  proof (cases "cand_Batch (?cs ! i) = None")
    case True
    have "set (take (Suc i) ?cs) = insert (?cs ! i) (set (take i ?cs))"
      using Suc.prems(1) by (simp add: take_Suc_conv_app_nth)
    moreover have "set (drop i ?cs) = insert (?cs ! i) (set (drop (Suc i) ?cs))"
      using Suc.prems(1) by (metis Cons_nth_drop_Suc Suc_le_lessD list.simps(15))
    ultimately show ?thesis using Suc True by auto
  next
    case False
    have "prune_loop b (Suc i) = b\<lparr>bb_candidates := take i ?cs, bb_numNonEmpty := bb_numNonEmpty b - 1\<rparr>"
      using False by simp
    with split False Suc.prems(3) show ?thesis by blast
  qed
qed simp

lemma PruneLastNonEmpty_spec:
  assumes "builder_ok b" and "HasNonEmptyCandidate b"
  shows "\<exists>p c s. bb_candidates b = p @ c # s \<and> cand_Batch c \<noteq> None \<and> (\<forall>x \<in> set s. cand_Batch x = None) \<and>
    PruneLastNonEmpty b = b\<lparr>bb_candidates := p, bb_numNonEmpty := bb_numNonEmpty b - 1\<rparr>"
proof -
  have num: "bb_numNonEmpty b > 0" using assms(2) by (simp add: HasNonEmptyCandidate_def)
  then have "Builder_Batches b \<noteq> []" using assms(1) by (auto simp: builder_ok_def)
  then have "\<exists>x \<in> set (bb_candidates b). cand_Batch x \<noteq> None"
    by (auto simp: Builder_Batches_def map_filter_Nil_iff)
  with prune_loop_spec [of "length (bb_candidates b)" b] num show ?thesis
    by (simp add: PruneLastNonEmpty_def)
qed

lemma prune_builder:
  assumes "builder_ok b" and "HasNonEmptyCandidate b"
  shows "builder_ok (PruneLastNonEmpty b)"
    and "prefix (bb_candidates (PruneLastNonEmpty b)) (bb_candidates b)"
    and "bb_prevBlockID (PruneLastNonEmpty b) = bb_prevBlockID b"
    and "bb_numNonEmpty (PruneLastNonEmpty b) = bb_numNonEmpty b - 1"
  using PruneLastNonEmpty_spec [OF assms] assms(1)
  by (auto simp: builder_ok_def Builder_Batches_def map_filter_append map_filter_simps map_filter_Nil_iff
      split: option.splits)

text \<open>With a correct counter the final loop ends, on a prefix of the collected candidates.\<close>

definition response_of :: "rlp_lib \<Rightarrow> BatchBundleRequest \<Rightarrow> BundleBuilder \<Rightarrow> BatchBundleResponse \<Rightarrow> bool" where
  "response_of R req b rsp \<longleftrightarrow> (\<exists>b'. builder_ok b' \<and> prefix (bb_candidates b') (bb_candidates b) \<and>
     bb_prevBlockID b' = bb_prevBlockID b \<and> rsp = Builder_Response b' (rsp_Bundle rsp) \<and>
     (if Builder_Batches b' = [] then rsp_Bundle rsp = []
      else EncodeBatches R (Builder_Batches b') = Inr (rsp_Bundle rsp) \<and>
        (of_nat (length (rsp_Bundle rsp)) :: u64) \<le> req_MaxSize req))"

lemma response_of_prune:
  assumes "builder_ok b" and "HasNonEmptyCandidate b" and "response_of R req (PruneLastNonEmpty b) rsp"
  shows "response_of R req b rsp"
proof -
  from assms(3) obtain b' where b': "prefix (bb_candidates b') (bb_candidates (PruneLastNonEmpty b))"
      "bb_prevBlockID b' = bb_prevBlockID (PruneLastNonEmpty b)"
    and rest: "builder_ok b'" "rsp = Builder_Response b' (rsp_Bundle rsp)"
      "if Builder_Batches b' = [] then rsp_Bundle rsp = []
       else EncodeBatches R (Builder_Batches b') = Inr (rsp_Bundle rsp) \<and>
         (of_nat (length (rsp_Bundle rsp)) :: u64) \<le> req_MaxSize req"
    unfolding response_of_def by iprover
  have "prefix (bb_candidates b') (bb_candidates b)" "bb_prevBlockID b' = bb_prevBlockID b"
    using prefix_order.trans [OF b'(1) prune_builder(2) [OF assms(1,2)]] b'(2) prune_builder(3) [OF assms(1,2)]
    by simp_all
  with rest show ?thesis unfolding response_of_def by iprover
qed

lemma response_of_self:
  assumes "builder_ok b" and "if Builder_Batches b = [] then buf = []
      else EncodeBatches R (Builder_Batches b) = Inr buf \<and> (of_nat (length buf) :: u64) \<le> req_MaxSize req"
  shows "response_of R req b (Builder_Response b buf)"
proof -
  have "rsp_Bundle (Builder_Response b buf) = buf" for buf by (simp add: Builder_Response_def Let_def)
  then show ?thesis unfolding response_of_def using assms by (intro exI [of _ b]) simp
qed

lemma bundle_loop_result:
  assumes "builder_ok b"
  shows "\<exists>r. bundle_loop R req large n b = Some r \<and> r \<noteq> Diverge \<and>
    (\<forall>rsp. r = Ok (Some rsp) \<longrightarrow> response_of R req b rsp)"
  using assms
proof (induction "nat (bb_numNonEmpty b)" arbitrary: b n rule: less_induct)
  case less
  note unfold = bundle_loop.simps [of R req large n b]
  show ?case
  proof (cases "HasNonEmptyCandidate b")
    case False
    then have "Builder_Batches b = []"
      using less.prems by (auto simp: builder_ok_def HasNonEmptyCandidate_def)
    then show ?thesis using False response_of_self [OF less.prems, of "[]"] by (simp add: unfold)
  next
    case True
    then have ne: "Builder_Batches b \<noteq> []"
      using less.prems by (auto simp: builder_ok_def HasNonEmptyCandidate_def)
    show ?thesis
    proof (cases "EncodeBatches R (Builder_Batches b)")
      case (Inl e)
      then show ?thesis using True by (auto simp: unfold)
    next
      case (Inr buf)
      show ?thesis
      proof (cases "(of_nat (length buf) :: u64) > req_MaxSize req")
        case big: True
        have "nat (bb_numNonEmpty (PruneLastNonEmpty b)) < nat (bb_numNonEmpty b)"
          using prune_builder(4) [OF less.prems True] True by (simp add: HasNonEmptyCandidate_def)
        from less.hyps [OF this prune_builder(1) [OF less.prems True], of "n + 1"]
        obtain r where "bundle_loop R req large (n + 1) (PruneLastNonEmpty b) = Some r" "r \<noteq> Diverge"
          "\<forall>rsp. r = Ok (Some rsp) \<longrightarrow> response_of R req (PruneLastNonEmpty b) rsp" by blast
        moreover have "bundle_loop R req large n b = bundle_loop R req large (n + 1) (PruneLastNonEmpty b)"
          using big Inr True by (simp add: unfold)
        ultimately show ?thesis using response_of_prune [OF less.prems True] by auto
      next
        case False
        then show ?thesis using Inr True response_of_self [OF less.prems, of buf] ne
          by (auto simp: unfold not_less)
      qed
    qed
  qed
qed

section \<open>A stable view of the L2 chain\<close>

text \<open>During one call the L2 node answers from one chain: \<open>chain n\<close> is the canonical block at height
  \<open>n\<close>; queries by hash find the canonical blocks, and perhaps others.\<close>

definition l2_view :: "header_lib \<Rightarrow> 'w l2_client \<Rightarrow> 'w \<Rightarrow> (u64 \<Rightarrow> Block option) \<Rightarrow> bool" where
  "l2_view H c w chain \<longleftrightarrow>
     (\<forall>n. BlockByNumber c (Some (sint n)) w = (case chain n of None \<Rightarrow> Err NotFound | Some b \<Rightarrow> Ok b, w)) \<and>
     (\<forall>n b. chain n = Some b \<longrightarrow> Block_NumberU64 b = n \<and> BlockByHash c (Block_Hash H b) w = (Ok b, w)) \<and>
     (\<forall>h. snd (BlockByHash c h w) = w)"

definition canonical_hash :: "header_lib \<Rightarrow> (u64 \<Rightarrow> Block option) \<Rightarrow> hash \<Rightarrow> bool" where
  "canonical_hash H chain h \<longleftrightarrow> (\<exists>n b. chain n = Some b \<and> Block_Hash H b = h)"

lemma refByNumber_view:
  assumes "l2_view H c w chain"
  shows "ec_L2BlockRefByNumber (readonly_client H c genesis) (Some (sint n)) w =
    (case chain n of None \<Rightarrow> Err (Wrap ''failed to determine block-hash of height, could not get header'' NotFound)
       | Some b \<Rightarrow> of_sum (blockToBlockRef H b genesis), w)"
  using assms
  by (auto simp: readonly_client_def ReadOnlySource_L2BlockRefByNumber_def l2_view_def rbind_def rmap_err_def split: option.splits)

lemma refByHash_view:
  assumes "l2_view H c w chain"
  shows "snd (ec_L2BlockRefByHash (readonly_client H c genesis) h w) = w"
    and "chain n = Some b \<Longrightarrow> ec_L2BlockRefByHash (readonly_client H c genesis) (Block_Hash H b) w = (of_sum (blockToBlockRef H b genesis), w)"
proof -
  have "snd (BlockByHash c h w) = w" using assms by (simp add: l2_view_def)
  then show "snd (ec_L2BlockRefByHash (readonly_client H c genesis) h w) = w"
    by (auto simp: readonly_client_def ReadOnlySource_L2BlockRefByHash_def rbind_def rmap_err_def split: prod.splits res.splits)
  show "chain n = Some b \<Longrightarrow> ec_L2BlockRefByHash (readonly_client H c genesis) (Block_Hash H b) w = (of_sum (blockToBlockRef H b genesis), w)"
    using assms
    by (auto simp: readonly_client_def ReadOnlySource_L2BlockRefByHash_def rbind_def rmap_err_def l2_view_def)
qed

definition common_point :: "header_lib \<Rightarrow> (u64 \<Rightarrow> Block option) \<Rightarrow> hash list \<Rightarrow> BlockID \<Rightarrow> bool" where
  "common_point H chain hs found \<longleftrightarrow>
     (\<exists>pre post b. hs = pre @ id_Hash found # post \<and> (\<forall>h \<in> set pre. \<not> canonical_hash H chain h) \<and>
        chain (id_Number found) = Some b \<and> Block_Hash H b = id_Hash found)"

lemma common_point_Cons:
  assumes "\<not> canonical_hash H chain h" and "common_point H chain hs found"
  shows "common_point H chain (h # hs) found"
proof -
  from assms(2) obtain pre post b where
    "hs = pre @ id_Hash found # post" "\<forall>h \<in> set pre. \<not> canonical_hash H chain h"
    "chain (id_Number found) = Some b" "Block_Hash H b = id_Hash found"
    unfolding common_point_def by blast
  then show ?thesis unfolding common_point_def
    using assms(1) by (intro exI [of _ "h # pre"] exI [of _ post] exI [of _ b]) simp
qed

lemma find_common_step:
  assumes view: "l2_view H c w chain"
    and run: "find_common (readonly_client H c genesis) (h # hs) w = (Ok found, w')"
  shows "(w' = w \<and> common_point H chain (h # hs) found) \<or>
    (\<not> canonical_hash H chain h \<and> find_common (readonly_client H c genesis) hs w = (Ok found, w'))"
proof (cases "canonical_hash H chain h")
  case True
  then obtain n b where b: "chain n = Some b" "Block_Hash H b = h" by (auto simp: canonical_hash_def)
  have num: "Block_NumberU64 b = n" using view b by (simp add: l2_view_def)
  have byh: "ec_L2BlockRefByHash (readonly_client H c genesis) h w = (of_sum (blockToBlockRef H b genesis), w)"
    using refByHash_view(2) [OF view b(1)] b(2) by simp
  show ?thesis
  proof (cases "blockToBlockRef H b genesis")
    case (Inl e)
    have "\<not> errors_Is e NotFound"
      using Inl by (auto simp: blockToBlockRef_def Let_def split: if_splits list.splits sum.splits)
    then show ?thesis using run byh Inl by simp
  next
    case (Inr r)
    have r: "l2_Hash r = h" "l2_Number r = n"
      using blockToBlockRef_fields [OF Inr] b num by auto
    have "ec_L2BlockRefByNumber (readonly_client H c genesis) (Some (sint n)) w = (Ok r, w)"
      using refByNumber_view [OF view, of genesis n] b Inr by simp
    then have "found = \<lparr>id_Hash = h, id_Number = n\<rparr>" "w' = w" using run byh Inr r by simp_all
    then show ?thesis using b unfolding common_point_def
      by (intro disjI1 conjI exI [of _ "[]"] exI [of _ hs] exI [of _ b]) simp_all
  qed
next
  case False
  obtain x where byh: "ec_L2BlockRefByHash (readonly_client H c genesis) h w = (x, w)"
    using refByHash_view(1) [OF view, of genesis h] by (metis prod.collapse)
  show ?thesis
  proof (cases x)
    case (Ok r)
    show ?thesis
    proof (cases "chain (l2_Number r)")
      case None
      then show ?thesis using run byh Ok False refByNumber_view [OF view, of genesis "l2_Number r"] by simp
    next
      case (Some b)
      then have ne: "Block_Hash H b \<noteq> h" using False by (auto simp: canonical_hash_def)
      show ?thesis
      proof (cases "blockToBlockRef H b genesis")
        case (Inl e)
        have "\<not> errors_Is e NotFound"
          using Inl by (auto simp: blockToBlockRef_def Let_def split: if_splits list.splits sum.splits)
        then show ?thesis using run byh Ok Some Inl refByNumber_view [OF view, of genesis "l2_Number r"] by simp
      next
        case (Inr r')
        then show ?thesis using run byh Ok Some ne False blockToBlockRef_fields [OF Inr]
            refByNumber_view [OF view, of genesis "l2_Number r"] by simp
      qed
    qed
  qed (use run byh False in \<open>auto simp: rcatch_def split: if_splits\<close>)
qed

lemma find_common_spec:
  assumes "l2_view H c w chain"
  shows "find_common (readonly_client H c genesis) hs w = (Ok found, w') \<Longrightarrow>
    w' = w \<and> (found = BlockID_zero \<or> common_point H chain hs found)"
proof (induction hs)
  case (Cons h hs)
  from find_common_step [OF assms Cons.prems] Cons.IH common_point_Cons show ?case by blast
qed simp

text \<open>The candidates are the blocks right after \<open>n\<close>, with their identifiers and batches.\<close>

definition follows :: "geth \<Rightarrow> header_lib \<Rightarrow> (u64 \<Rightarrow> Block option) \<Rightarrow> u64 \<Rightarrow> Block list \<Rightarrow> BundleCandidate list \<Rightarrow> bool" where
  "follows G H chain n blocks cands \<longleftrightarrow>
     map (\<lambda>i. chain (n + of_nat i)) [1..<Suc (length cands)] = map Some blocks \<and>
     map cand_ID cands = map (\<lambda>b. \<lparr>id_Hash = Block_Hash H b, id_Number = Block_NumberU64 b\<rparr>) blocks \<and>
     map (BlockToBatch G) blocks = map (Inr \<circ> cand_Batch) cands"

lemma follows_snoc:
  assumes "follows G H chain n blocks cands" and "chain (n + of_nat (length cands) + 1) = Some b"
    and "BlockToBatch G b = Inr batch"
  shows "follows G H chain n (blocks @ [b])
    (cands @ [\<lparr>cand_ID = \<lparr>id_Hash = Block_Hash H b, id_Number = Block_NumberU64 b\<rparr>, cand_Batch = batch\<rparr>])"
  using assms by (simp add: follows_def ac_simps)

lemma follows_prefix:
  assumes "follows G H chain n blocks cands" and "prefix cands' cands"
  shows "follows G H chain n (take (length cands') blocks) cands'"
proof -
  define k where "k = length cands'"
  have take: "map f cands' = take k (map f cands)" for f :: "BundleCandidate \<Rightarrow> 'z"
    using assms(2) by (auto simp: prefix_def k_def)
  have "k \<le> length cands" using assms(2) by (auto simp: prefix_def k_def)
  then have "map f [1..<Suc k] = take k (map f [1..<Suc (length cands)])" for f :: "nat \<Rightarrow> Block option"
    using take_upt [of 1 k "Suc (length cands)"] by (simp add: take_map del: upt_Suc)
  with assms(1) have
    "map (\<lambda>i. chain (n + of_nat i)) [1..<Suc k] = map Some (take k blocks)"
    "take k (map cand_ID cands) = map (\<lambda>b. \<lparr>id_Hash = Block_Hash H b, id_Number = Block_NumberU64 b\<rparr>) (take k blocks)"
    "map (BlockToBatch G) (take k blocks) = take k (map (Inr \<circ> cand_Batch) cands)"
    unfolding follows_def by (simp_all add: take_map [symmetric] del: upt_Suc)
  then show ?thesis unfolding follows_def k_def [symmetric]
    by (simp only: take [of cand_ID] take [of "Inr \<circ> cand_Batch"])
qed

lemma collect_loop_spec:
  assumes view: "l2_view H c w chain"
  shows "collect_loop G H R (readonly_client H c genesis) req (n + 101) i b sz w = (Ok (b', large), w') \<Longrightarrow>
    builder_ok b \<Longrightarrow> follows G H chain n blocks (bb_candidates b) \<Longrightarrow> i = n + of_nat (length (bb_candidates b)) + 1 \<Longrightarrow>
    length (bb_candidates b) \<le> 100 \<Longrightarrow>
    w' = w \<and> builder_ok b' \<and> bb_prevBlockID b' = bb_prevBlockID b \<and> length (bb_candidates b') \<le> 100 \<and>
    (\<exists>blocks'. follows G H chain n blocks' (bb_candidates b'))"
proof (induction "unat (n + 101) - unat i" arbitrary: i b sz blocks rule: less_induct)
  case less
  show ?case
  proof (cases "i < n + 101")
    case False
    then have "b' = b" "w' = w" using less.prems(1) [unfolded collect_loop.simps [of G H R _ req _ i]] by simp_all
    then show ?thesis using less.prems by blast
  next
    case True
    note step = less.prems(1) [unfolded collect_loop.simps [of G H R _ req _ i]]
    let ?b = "\<lambda>blk batch. AddCandidate b \<lparr>cand_ID = \<lparr>id_Hash = Block_Hash H blk, id_Number = Block_NumberU64 blk\<rparr>, cand_Batch = batch\<rparr>"
    have num: "ec_BlockByNumber (readonly_client H c genesis) (Some (sint i)) w =
        (case chain i of None \<Rightarrow> Err NotFound | Some b \<Rightarrow> Ok b, w)"
      using view by (simp add: readonly_client_def ReadOnlySource_BlockByNumber_def l2_view_def)
    have short: "length (bb_candidates b) < 100"
    proof (rule ccontr)
      assume "\<not> length (bb_candidates b) < 100"
      then have "length (bb_candidates b) = 100" using less.prems(5) by simp
      then have "i = n + 101" using less.prems(4) by simp
      with True show False by simp
    qed
    have stop: ?thesis if "b' = b" and "w' = w" using that less.prems by blast
    have go: ?thesis if blk: "chain i = Some blk" and bat: "BlockToBatch G blk = Inr batch"
      and rec: "collect_loop G H R (readonly_client H c genesis) req (n + 101) (i + 1) (?b blk batch) sz' w = (Ok (b', large), w')"
    for blk batch sz'
    proof -
      have "follows G H chain n (blocks @ [blk]) (bb_candidates (?b blk batch))"
        using follows_snoc [OF less.prems(3), of blk batch] blk bat less.prems(4) by (simp add: AddCandidate_def)
      moreover have "i + 1 = n + of_nat (length (bb_candidates (?b blk batch))) + 1"
        using less.prems(4) by (simp add: AddCandidate_def)
      ultimately show ?thesis
        using less.hyps [OF count_up_decreases [OF True] rec builder_ok_add [OF less.prems(2)]] short
        by (simp add: AddCandidate_def)
    qed
    show ?thesis
    proof (cases "chain i")
      case None
      then show ?thesis using step True num by (intro stop) simp_all
    next
      case (Some blk)
      note run = step [unfolded if_P [OF True] rcatch_def num Some option.case prod.case res.case Let_def]
      show ?thesis
      proof (cases "BlockToBatch G blk")
        case (Inl e)
        with run show ?thesis by simp
      next
        case (Inr batch)
        show ?thesis
        proof (cases batch)
          case None
          with run Inr show ?thesis by (intro go [OF Some Inr, of sz]) simp
        next
          case (Some bat)
          with run Inr obtain buf where "EncodeBatches R [bat] = Inr buf"
            by (cases "EncodeBatches R [bat]") auto
          note run' = run [unfolded Inr Some this sum.case option.case]
          show ?thesis
          proof (cases "sz + of_nat (length buf) > req_MaxSize req")
            case True
            with run' show ?thesis by (intro stop) simp_all
          next
            case False
            with run' Some show ?thesis by (intro go [OF \<open>chain i = Some blk\<close> Inr, of "sz + of_nat (length buf)"]) simp
          qed
        qed
      qed
    qed
  qed
qed

lemma follows_last:
  assumes "follows G H chain n blocks cands" and "cands \<noteq> []" and "\<And>m b. chain m = Some b \<Longrightarrow> Block_NumberU64 b = m"
  shows "blocks \<noteq> []" and "cand_ID (last cands) =
    \<lparr>id_Hash = Block_Hash H (last blocks), id_Number = n + of_nat (length blocks)\<rparr>"
proof -
  have len: "length blocks = length cands"
    using assms(1) unfolding follows_def by (metis length_map)
  with assms(2) show ne: "blocks \<noteq> []" by auto
  have "cand_ID (last cands) = last (map cand_ID cands)" using assms(2) by (simp add: last_map)
  also have "\<dots> = \<lparr>id_Hash = Block_Hash H (last blocks), id_Number = Block_NumberU64 (last blocks)\<rparr>"
    using assms(1) ne unfolding follows_def by (simp add: last_map)
  finally have id: "cand_ID (last cands) = \<lparr>id_Hash = Block_Hash H (last blocks), id_Number = Block_NumberU64 (last blocks)\<rparr>" .
  have "Some (last blocks) = last (map (\<lambda>i. chain (n + of_nat i)) [1..<Suc (length cands)])"
    using assms(1) ne unfolding follows_def by (simp add: last_map)
  also have "\<dots> = chain (n + of_nat (length cands))" using assms(2) by (simp add: Suc_le_eq)
  finally show "cand_ID (last cands) = \<lparr>id_Hash = Block_Hash H (last blocks), id_Number = n + of_nat (length blocks)\<rparr>"
    using id assms(3) len by metis
qed

lemma map_filter_map: "List.map_filter f xs = List.map_filter id (map f xs)"
  by (induction xs) (auto simp: map_filter_simps split: option.splits)

section \<open>Properties of GetBatchBundle\<close>

lemma GetBatchBundle_sound:
  assumes view: "l2_view H c w chain" and rlp: "rlp_batch_ok R"
    and run: "GetBatchBundle G H R (readonly_client H c genesis) req w = (Ok (Some rsp), w')"
  shows "\<exists>blocks batches. length blocks \<le> 100 \<and>
    common_point H chain (req_L2History req) \<lparr>id_Hash = rsp_PrevL2BlockHash rsp, id_Number = rsp_PrevL2BlockNum rsp\<rparr> \<and>
    map (\<lambda>i. chain (rsp_PrevL2BlockNum rsp + of_nat i)) [1..<Suc (length blocks)] = map Some blocks \<and>
    rsp_LastL2BlockNum rsp = rsp_PrevL2BlockNum rsp + of_nat (length blocks) \<and>
    rsp_LastL2BlockHash rsp = (if blocks = [] then rsp_PrevL2BlockHash rsp else Block_Hash H (last blocks)) \<and>
    map (BlockToBatch G) blocks = map Inr batches \<and>
    (if List.map_filter id batches = [] then rsp_Bundle rsp = []
     else DecodeBatches R (rsp_Bundle rsp) = Inr (List.map_filter id batches) \<and>
       (of_nat (length (rsp_Bundle rsp)) :: u64) \<le> req_MaxSize req)"
proof -
  from run obtain found w1 where fc: "find_common (readonly_client H c genesis) (req_L2History req) w = (Ok found, w1)"
    and nz: "found \<noteq> BlockID_zero"
    and run1: "rbind (collect_loop G H R (readonly_client H c genesis) req (id_Number found + MaxL2BlocksPerBatchResponse + 1)
        (id_Number found + 1) (NewBundleBuilder found) 0) (\<lambda>(builder, large).
        lift_res (case bundle_loop R req large 0 builder of None \<Rightarrow> Diverge | Some r \<Rightarrow> r)) w1 = (Ok (Some rsp), w')"
    unfolding GetBatchBundle_def by (auto simp: rbind_Ok_iff split: if_splits)
  have fnd: "w1 = w" "common_point H chain (req_L2History req) found"
    using find_common_spec [OF view fc] nz by auto
  from run1 obtain b large w2 where col: "collect_loop G H R (readonly_client H c genesis) req (id_Number found + 101)
        (id_Number found + 1) (NewBundleBuilder found) 0 w = (Ok (b, large), w2)"
    and loop: "bundle_loop R req large 0 b = Some (Ok (Some rsp))"
    by (auto simp: rbind_Ok_iff fnd(1) MaxL2BlocksPerBatchResponse_def add.assoc split: option.splits)
  have "follows G H chain (id_Number found) [] (bb_candidates (NewBundleBuilder found))"
    by (simp add: follows_def NewBundleBuilder_def)
  from collect_loop_spec [OF view col builder_ok_new this] obtain bs where
    b: "builder_ok b" "bb_prevBlockID b = found" "length (bb_candidates b) \<le> 100"
      "follows G H chain (id_Number found) bs (bb_candidates b)"
    by (auto simp: NewBundleBuilder_def)
  from bundle_loop_result [OF b(1), of R req large 0] loop have "response_of R req b rsp" by auto
  then obtain b' where pre: "prefix (bb_candidates b') (bb_candidates b)" and prev: "bb_prevBlockID b' = found"
    and rsp: "rsp = Builder_Response b' (rsp_Bundle rsp)"
    and enc: "if Builder_Batches b' = [] then rsp_Bundle rsp = []
      else EncodeBatches R (Builder_Batches b') = Inr (rsp_Bundle rsp) \<and>
        (of_nat (length (rsp_Bundle rsp)) :: u64) \<le> req_MaxSize req"
    unfolding response_of_def b(2) by iprover
  define blocks where "blocks = take (length (bb_candidates b')) bs"
  define batches where "batches = map cand_Batch (bb_candidates b')"
  have fol: "follows G H chain (id_Number found) blocks (bb_candidates b')"
    unfolding blocks_def by (rule follows_prefix [OF b(4) pre])
  then have len: "length blocks = length (bb_candidates b')" unfolding follows_def by (metis length_map)
  have "length blocks \<le> 100" using len b(3) prefix_length_le [OF pre] by simp
  moreover have ids: "rsp_PrevL2BlockHash rsp = id_Hash found" "rsp_PrevL2BlockNum rsp = id_Number found"
    by (subst rsp, simp add: Builder_Response_def Let_def prev)+
  moreover have num: "chain m = Some x \<Longrightarrow> Block_NumberU64 x = m" for m x
    using view by (simp add: l2_view_def)
  have "rsp_LastL2BlockNum rsp = id_Number found + of_nat (length blocks) \<and>
    rsp_LastL2BlockHash rsp = (if blocks = [] then id_Hash found else Block_Hash H (last blocks))"
    using follows_last [OF fol _ num] len
    by (subst (1 2) rsp, cases "bb_candidates b' = []") (auto simp: Builder_Response_def Let_def prev)
  moreover have "map (BlockToBatch G) blocks = map Inr batches" and filt: "Builder_Batches b' = List.map_filter id batches"
    using fol unfolding follows_def batches_def Builder_Batches_def by (simp_all add: map_filter_map [symmetric])
  moreover have "if List.map_filter id batches = [] then rsp_Bundle rsp = []
     else DecodeBatches R (rsp_Bundle rsp) = Inr (List.map_filter id batches) \<and>
       (of_nat (length (rsp_Bundle rsp)) :: u64) \<le> req_MaxSize req"
    using enc EncodeBatches_inverse [OF rlp, of "List.map_filter id batches"] unfolding filt by auto
  moreover have "map (\<lambda>i. chain (id_Number found + of_nat i)) [1..<Suc (length blocks)] = map Some blocks"
    using fol unfolding follows_def len by blast
  moreover have "common_point H chain (req_L2History req) \<lparr>id_Hash = id_Hash found, id_Number = id_Number found\<rparr>"
    using fnd(2) by (cases found) simp
  ultimately show ?thesis unfolding ids
    by (intro exI [of _ blocks] exI [of _ batches]) simp
qed

text \<open>C22: A bundle loses no L2 block. When the L2 node answers from one chain, a response starts at the
  first hash of the request's history that is canonical, and its blocks are the canonical blocks
  right after that point, at most 100 of them, up to the reported last block. Decoding the
  bundle as the derivation does gives exactly the batches of these blocks (those that have one) in
  order, within the size limit; the bundle is empty when none of them has a batch.\<close>

theorem GetBatchBundle_complete:
  assumes view: "l2_view H c w chain" and rlp: "rlp_batch_ok R"
    and run: "GetBatchBundle G H R (readonly_client H c genesis) req w = (Ok (Some rsp), w')"
  shows "\<exists>blocks batches. length blocks \<le> 100 \<and>
    common_point H chain (req_L2History req) \<lparr>id_Hash = rsp_PrevL2BlockHash rsp, id_Number = rsp_PrevL2BlockNum rsp\<rparr> \<and>
    map (\<lambda>i. chain (rsp_PrevL2BlockNum rsp + of_nat i)) [1..<Suc (length blocks)] = map Some blocks \<and>
    rsp_LastL2BlockNum rsp = rsp_PrevL2BlockNum rsp + of_nat (length blocks) \<and>
    rsp_LastL2BlockHash rsp = (if blocks = [] then rsp_PrevL2BlockHash rsp else Block_Hash H (last blocks)) \<and>
    map (BlockToBatch G) blocks = map Inr batches \<and>
    (if List.map_filter id batches = [] then rsp_Bundle rsp = []
     else DecodeBatches R (rsp_Bundle rsp) = Inr (List.map_filter id batches) \<and>
       (of_nat (length (rsp_Bundle rsp)) :: u64) \<le> req_MaxSize req)"
  by (rule GetBatchBundle_sound [OF assms])

section \<open>GetBatchBundle returns\<close>

definition returns :: "('a \<Rightarrow> bool) \<Rightarrow> 'a res \<Rightarrow> bool" where
  "returns P r \<longleftrightarrow> (case r of Ok x \<Rightarrow> P x | Diverge \<Rightarrow> False | _ \<Rightarrow> True)"

lemma returns_simps [simp]:
  "returns P (Ok x) \<longleftrightarrow> P x" "returns P (Err e)" "returns P (Panic p)" "\<not> returns P Diverge"
  by (simp_all add: returns_def)

lemma returns_not_Diverge: "returns P r \<Longrightarrow> r \<noteq> Diverge"
  by (auto simp: returns_def)

lemma returns_rcatch:
  assumes "fst (m w) \<noteq> Diverge" and "\<And>e w'. returns P (fst (h e w'))" and "\<And>x w'. returns P (fst (f x w'))"
  shows "returns P (fst (rcatch m h f w))"
  using assms by (cases "m w"; cases "fst (m w)") (auto simp: rcatch_def)

lemma returns_rbind:
  assumes "returns Q (fst (m w))" and "\<And>x w'. Q x \<Longrightarrow> returns P (fst (f x w'))"
  shows "returns P (fst (rbind m f w))"
  using assms by (cases "m w"; cases "fst (m w)") (auto simp: rbind_def)

text \<open>Every call of the client comes back, with an answer or an error.\<close>

definition client_returns :: "'w l2EthClient \<Rightarrow> bool" where
  "client_returns c \<longleftrightarrow>
     (\<forall>n w. fst (ec_BlockByNumber c n w) \<noteq> Diverge) \<and> (\<forall>n w. fst (ec_L2BlockRefByNumber c n w) \<noteq> Diverge) \<and>
     (\<forall>h w. fst (ec_L2BlockRefByHash c h w) \<noteq> Diverge)"

lemma find_common_returns:
  assumes "client_returns c"
  shows "returns (\<lambda>_. True) (fst (find_common c hs w))"
proof (induction hs arbitrary: w)
  case (Cons h hs)
  then show ?case using assms unfolding client_returns_def by (auto intro!: returns_rcatch)
qed simp

lemma collect_loop_returns:
  assumes c: "client_returns c"
  shows "builder_ok b \<Longrightarrow> returns (\<lambda>(b', large). builder_ok b') (fst (collect_loop G H R c req bound i b sz w))"
proof (induction "unat bound - unat i" arbitrary: i b sz w rule: less_induct)
  case less
  show ?case
  proof (cases "i < bound")
    case True
    note rec = less.hyps [OF count_up_decreases [OF True] builder_ok_add [OF less.prems]]
    show ?thesis unfolding collect_loop.simps [of G H R c req bound i] if_P [OF True]
      by (rule returns_rcatch)
         (use c less.prems rec in \<open>auto simp: client_returns_def Let_def split: sum.splits option.splits\<close>)
  next
    case False
    then show ?thesis using less.prems by (simp add: collect_loop.simps [of G H R c req bound i])
  qed
qed

text \<open>C23: \<open>GetBatchBundle\<close> always ends when its client's calls do: the pruning loop, which has no bound of
  its own, cannot run forever because the builder's counter of non-empty candidates is exact, so
  every round that repeats has removed a batch.\<close>

theorem GetBatchBundle_terminates:
  assumes "client_returns c"
  shows "fst (GetBatchBundle G H R c req w) \<noteq> Diverge"
proof -
  have "returns (\<lambda>_. True) (case bundle_loop R req large 0 b of None \<Rightarrow> Diverge | Some r \<Rightarrow> r)"
    if "builder_ok b" for b large
    using bundle_loop_result [OF that, of R req large 0] by (auto simp: returns_def split: res.splits)
  then have "returns (\<lambda>_. True) (fst (GetBatchBundle G H R c req w))"
    unfolding GetBatchBundle_def
    by (auto intro!: returns_rbind [OF find_common_returns [OF assms]]
        returns_rbind [OF collect_loop_returns [OF assms builder_ok_new]])
  then show ?thesis by (rule returns_not_Diverge)
qed

text \<open>A concrete L2 node: the genesis block, an empty block, and a block with one transaction.\<close>

definition node_hlib :: header_lib where
  "node_hlib = \<lparr>DeriveSha_raw = (\<lambda>t. 0), DeriveSha_txs = (\<lambda>t. 0), DeriveSha_receipts = (\<lambda>r. 0),
     Header_Hash = (\<lambda>h. of_int (h_Number h) + 2), EmptyUncleHash = 0, EmptyRootHash = 0,
     FromBig = (\<lambda>x. case x of None \<Rightarrow> Panic ''nil'' | Some v \<Rightarrow> Ok (of_int v, v \<ge> 2 ^ 256))\<rparr>"

definition node_block :: "int \<Rightarrow> Transaction list \<Rightarrow> Block" where
  "node_block n txs = \<lparr>blk_Header = \<lparr>h_ParentHash = 0, h_UncleHash = 0, h_Coinbase = 0, h_Root = 77, h_TxHash = 0,
     h_ReceiptHash = 0, h_Bloom = 0, h_Difficulty = 0, h_Number = n, h_GasLimit = 0, h_GasUsed = 0,
     h_Time = 10 + 2 * of_int n, h_Extra = [], h_MixDigest = 0, h_Nonce = 0, h_BaseFee = Some 7\<rparr>, blk_Transactions = txs\<rparr>"

definition node_tx :: "byte \<Rightarrow> bytes \<Rightarrow> Transaction" where
  "node_tx ty dat = \<lparr>tx_Type = ty, tx_To = None, tx_Data = dat, tx_Nonce = 0, tx_Gas = 0, tx_Hash = 0\<rparr>"

definition node_info :: bytes where
  "node_info = l1info_layout [1, 2, 3, 4] 6 20 (replicate 32 0) 44 1"

definition node_chain :: "u64 \<Rightarrow> Block option" where
  "node_chain n =
     (if n = 0 then Some (node_block 0 [])
      else if n = 1 then Some (node_block 1 [node_tx DepositTxType node_info])
      else if n = 2 then Some (node_block 2 [node_tx DepositTxType node_info, node_tx 2 [9]])
      else None)"

definition node_client :: "unit l2_client" where
  "node_client = \<lparr>BlockByHash = (\<lambda>h w. (case node_chain (ucast (h - 2)) of None \<Rightarrow> Err NotFound | Some b \<Rightarrow> Ok b, w)),
     BlockByNumber = (\<lambda>n w. (case node_chain (of_int (the n)) of None \<Rightarrow> Err NotFound | Some b \<Rightarrow> Ok b, w)),
     engine_forkchoiceUpdatedV1 = (\<lambda>_ _ w. ((undefined, Some NotFound), w)),
     engine_newPayloadV1 = (\<lambda>_ w. ((undefined, Some NotFound), w)),
     engine_getPayloadV1 = (\<lambda>_ w. (Err NotFound, w)),
     eth_getBlockByNumber = (\<lambda>_ w. (Ok (Some (blk_Header (node_block 2 []))), w)),
     eth_getProof = (\<lambda>a _ w. ((Some \<lparr>ar_AccountProof = [[1], [2]], ar_Address = 5, ar_Balance = Some 3, ar_CodeHash = 8,
        ar_Nonce = 1, ar_StorageHash = 9\<rparr>, None), w))\<rparr>"

lemma node_view: "l2_view node_hlib node_client () node_chain"
  by (auto simp: l2_view_def node_client_def node_chain_def node_hlib_def node_block_def Block_NumberU64_def Block_Hash_def
      split: if_splits)

lemma node_info_parsed: "L1InfoDepositTxData node_info =
    Inr \<lparr>li_Number = 6, li_Time = 20, li_BaseFee = Some (int (be_nat (replicate 32 0))), li_BlockHash = 44, li_SequenceNumber = 1\<rparr>"
  unfolding L1InfoDepositTxData_def node_info_def by (rule L1BlockInfo_UnmarshalBinary_layout) simp_all

definition node_request :: BatchBundleRequest where
  "node_request = \<lparr>req_L2History = [500, 2], req_MinSize = 10, req_MaxSize = 1000\<rparr>"

lemma node_request_simps [simp]: "req_L2History node_request = [500, 2]" "req_MinSize node_request = 10" "req_MaxSize node_request = 1000"
  by (simp_all add: node_request_def)

lemma node_calls:
  "ec_L2BlockRefByHash (readonly_client node_hlib node_client (cfg_Genesis demo_config)) 500 () =
     (Err (Wrap ''failed to determine block-hash of height, could not get header'' NotFound), ())"
  "ec_L2BlockRefByHash (readonly_client node_hlib node_client (cfg_Genesis demo_config)) 2 () =
     (of_sum (blockToBlockRef node_hlib (node_block 0 []) (cfg_Genesis demo_config)), ())"
  by (simp_all add: readonly_client_def ReadOnlySource_L2BlockRefByHash_def node_client_def node_chain_def rbind_def rmap_err_def)

lemma node_ref0: "blockToBlockRef node_hlib (node_block 0 []) (cfg_Genesis demo_config) =
    Inr \<lparr>l2_Hash = 2, l2_Number = 0, l2_ParentHash = 0, l2_Time = 10, l2_L1Origin = \<lparr>id_Hash = 1, id_Number = 0\<rparr>, l2_SequenceNumber = 0\<rparr>"
  by (simp add: blockToBlockRef_def node_hlib_def node_block_def demo_config_def Block_NumberU64_def Block_Hash_def)

lemma node_found: "find_common (readonly_client node_hlib node_client (cfg_Genesis demo_config)) [500, 2] () =
    (Ok \<lparr>id_Hash = 2, id_Number = 0\<rparr>, ())"
proof -
  have "ec_L2BlockRefByNumber (readonly_client node_hlib node_client (cfg_Genesis demo_config)) (Some 0) () =
    (of_sum (blockToBlockRef node_hlib (node_block 0 []) (cfg_Genesis demo_config)), ())"
    using refByNumber_view [OF node_view, of "cfg_Genesis demo_config" 0] by (simp add: node_chain_def)
  then show ?thesis by (simp add: node_calls node_ref0)
qed

lemma node_by_number: "ec_BlockByNumber (readonly_client node_hlib node_client (cfg_Genesis demo_config)) (Some n) () =
    (case node_chain (of_int n) of None \<Rightarrow> Err NotFound | Some b \<Rightarrow> Ok b, ())"
  by (simp add: readonly_client_def ReadOnlySource_BlockByNumber_def node_client_def)

definition node_batch :: BatchData where
  "node_batch = \<lparr>b_Epoch = 6, b_Timestamp = 14, b_Transactions = [[2, 9]]\<rparr>"

lemma node_batches:
  "BlockToBatch demo_geth (node_block 1 [node_tx DepositTxType node_info]) = Inr None"
  "BlockToBatch demo_geth (node_block 2 [node_tx DepositTxType node_info, node_tx 2 [9]]) = Inr (Some node_batch)"
  by (simp_all add: BlockToBatch_def node_tx_def node_block_def node_info_parsed node_batch_def demo_geth_def DepositTxType_def)

lemma node_bundle: "\<exists>buf. EncodeBatches demo_rlp [node_batch] = Inr buf \<and> length buf = 46"
  by (simp add: EncodeBatches_def encodeTyped_def demo_rlp_def node_batch_def)

lemma node_bundle_run:
  assumes "find_common (readonly_client node_hlib node_client (cfg_Genesis demo_config)) (req_L2History req) () = (Ok \<lparr>id_Hash = 2, id_Number = 0\<rparr>, ())"
    and sizes: "req_MinSize req = 10" "req_MaxSize req = 1000"
  shows "\<exists>buf. GetBatchBundle demo_geth node_hlib demo_rlp (readonly_client node_hlib node_client (cfg_Genesis demo_config)) req () =
     (Ok (Some \<lparr>rsp_PrevL2BlockHash = 2, rsp_PrevL2BlockNum = 0, rsp_LastL2BlockHash = 4, rsp_LastL2BlockNum = 2, rsp_Bundle = buf\<rparr>), ()) \<and> buf \<noteq> []"
proof -
  obtain buf where buf: "EncodeBatches demo_rlp [node_batch] = Inr buf" "length buf = 46" using node_bundle by blast
  let ?c = "readonly_client node_hlib node_client (cfg_Genesis demo_config)"
  let ?b = "\<lparr>bb_prevBlockID = \<lparr>id_Hash = 2, id_Number = 0\<rparr>, bb_candidates =
      [\<lparr>cand_ID = \<lparr>id_Hash = 3, id_Number = 1\<rparr>, cand_Batch = None\<rparr>,
       \<lparr>cand_ID = \<lparr>id_Hash = 4, id_Number = 2\<rparr>, cand_Batch = Some node_batch\<rparr>], bb_numNonEmpty = 1\<rparr>"
  note loop = collect_loop.simps [of demo_geth node_hlib demo_rlp ?c req "101::u64"]
  have ids: "Block_Hash node_hlib (node_block n txs) = of_int n + 2" "Block_NumberU64 (node_block n txs) = of_int n" for n txs
    by (simp_all add: Block_Hash_def node_hlib_def node_block_def Block_NumberU64_def)
  have c3: "collect_loop demo_geth node_hlib demo_rlp ?c req 101 3 ?b 46 () = (Ok (?b, False), ())"
    by (simp add: loop [of 3] rcatch_def node_by_number node_chain_def)
  have c2: "collect_loop demo_geth node_hlib demo_rlp ?c req 101 2
      (AddCandidate (NewBundleBuilder \<lparr>id_Hash = 2, id_Number = 0\<rparr>) \<lparr>cand_ID = \<lparr>id_Hash = 3, id_Number = 1\<rparr>, cand_Batch = None\<rparr>) 0 () = (Ok (?b, False), ())"
    using c3 by (simp add: loop [of 2] rcatch_def node_by_number node_chain_def node_batches buf sizes ids
        AddCandidate_def NewBundleBuilder_def sizes)
  have c1: "collect_loop demo_geth node_hlib demo_rlp ?c req 101 1 (NewBundleBuilder \<lparr>id_Hash = 2, id_Number = 0\<rparr>) 0 () = (Ok (?b, False), ())"
    using c2 by (simp add: loop [of 1] rcatch_def node_by_number node_chain_def node_batches ids)
  have "bundle_loop demo_rlp req False 0 ?b = Some (Ok (Some (Builder_Response ?b buf)))"
    by (simp add: bundle_loop.simps [of _ _ False 0 ?b] HasNonEmptyCandidate_def Builder_Batches_def map_filter_simps buf sizes)
  moreover have "buf \<noteq> []" using buf(2) by auto
  ultimately show ?thesis using c1 assms(1)
    by (simp add: GetBatchBundle_def rbind_def BlockID_zero_def MaxL2BlocksPerBatchResponse_def Builder_Response_def)
qed

lemma node_run:
  "\<exists>buf. GetBatchBundle demo_geth node_hlib demo_rlp (readonly_client node_hlib node_client (cfg_Genesis demo_config)) node_request () =
     (Ok (Some \<lparr>rsp_PrevL2BlockHash = 2, rsp_PrevL2BlockNum = 0, rsp_LastL2BlockHash = 4, rsp_LastL2BlockNum = 2, rsp_Bundle = buf\<rparr>), ()) \<and> buf \<noteq> []"
  by (rule node_bundle_run) (simp_all only: node_found node_request_simps)

theorem GetBatchBundle_complete_witness:
  "\<exists>rsp blocks batches. GetBatchBundle demo_geth node_hlib demo_rlp
      (readonly_client node_hlib node_client (cfg_Genesis demo_config)) node_request () = (Ok (Some rsp), ()) \<and>
    rsp_LastL2BlockNum rsp = 2 \<and> length blocks \<le> 100 \<and>
    map (\<lambda>i. node_chain (rsp_PrevL2BlockNum rsp + of_nat i)) [1..<Suc (length blocks)] = map Some blocks \<and>
    rsp_LastL2BlockNum rsp = rsp_PrevL2BlockNum rsp + of_nat (length blocks) \<and>
    map (BlockToBatch demo_geth) blocks = map Inr batches \<and>
    (if List.map_filter id batches = [] then rsp_Bundle rsp = []
     else DecodeBatches demo_rlp (rsp_Bundle rsp) = Inr (List.map_filter id batches) \<and>
       (of_nat (length (rsp_Bundle rsp)) :: u64) \<le> req_MaxSize node_request)"
proof -
  obtain rsp where rsp: "GetBatchBundle demo_geth node_hlib demo_rlp
      (readonly_client node_hlib node_client (cfg_Genesis demo_config)) node_request () = (Ok (Some rsp), ())"
    and num: "rsp_LastL2BlockNum rsp = 2"
    using node_run by fastforce
  from GetBatchBundle_complete [OF node_view demo_rlp_ok rsp] rsp num show ?thesis by blast
qed

lemma node_client_returns: "client_returns (readonly_client node_hlib node_client genesis)"
  by (auto simp: client_returns_def readonly_client_def ReadOnlySource_BlockByNumber_def ReadOnlySource_L2BlockRefByNumber_def
      ReadOnlySource_L2BlockRefByHash_def node_client_def rbind_def rmap_err_def of_sum_def split: option.splits sum.splits)

theorem GetBatchBundle_terminates_witness:
  "fst (GetBatchBundle demo_geth node_hlib demo_rlp (readonly_client node_hlib node_client (cfg_Genesis demo_config))
     \<lparr>req_L2History = [500, 2], req_MinSize = 10, req_MaxSize = 5\<rparr> ()) \<noteq> Diverge"
  by (rule GetBatchBundle_terminates [OF node_client_returns])

section \<open>Account proofs and output roots\<close>

text \<open>RLP, the in-memory database and the trie of go-ethereum are parameters.\<close>

record ('d, 't) trie_lib =
  rlp_account :: "u64 \<Rightarrow> bytes \<Rightarrow> hash \<Rightarrow> hash \<Rightarrow> error + bytes"   \<comment> \<open>\<open>rlp.EncodeToBytes\<close> of the four fields\<close>
  big_Bytes :: "int \<Rightarrow> bytes"                                  \<comment> \<open>\<open>big.Int.Bytes\<close>\<close>
  memorydb_New :: 'd
  memorydb_Put :: "'d \<Rightarrow> hash \<Rightarrow> bytes \<Rightarrow> error + 'd"
  trie_New :: "hash \<Rightarrow> 'd \<Rightarrow> error + 't"
  trie_TryGet :: "'t \<Rightarrow> hash \<Rightarrow> error + bytes"
  EncodeUint64 :: "u64 \<Rightarrow> string"                              \<comment> \<open>\<open>hexutil.EncodeUint64\<close>\<close>

fun load_proof :: "geth \<Rightarrow> ('d, 't) trie_lib \<Rightarrow> bytes list \<Rightarrow> 'd \<Rightarrow> 'd res" where
  "load_proof G T [] db = Ok db"
| "load_proof G T (encodedNode # ns) db =
     (case memorydb_Put T db (Keccak256 G encodedNode) encodedNode of
        Inl e \<Rightarrow> Err (ErrMsg ''failed to load proof value into mem db'')
      | Inr db' \<Rightarrow> load_proof G T ns db')"

definition AccountResult_Verify :: "geth \<Rightarrow> ('d, 't) trie_lib \<Rightarrow> AccountResult \<Rightarrow> hash \<Rightarrow> unit res" where
  "AccountResult_Verify G T res stateRoot =
     (case ar_Balance res of
        None \<Rightarrow> Panic ''nil pointer dereference''
      | Some balance \<Rightarrow>
          bind_res (map_err (\<lambda>e. ErrMsg ''failed to encode account from retrieved values'')
            (of_sum (rlp_account T (ar_Nonce res) (big_Bytes T balance) (ar_StorageHash res) (ar_CodeHash res)))) (\<lambda>accountClaimedValue.
          bind_res (load_proof G T (ar_AccountProof res) (memorydb_New T)) (\<lambda>db.
          bind_res (map_err (\<lambda>e. ErrMsg ''failed to load db wrapper around kv store'') (of_sum (trie_New T stateRoot db))) (\<lambda>proofTrie.
          bind_res (map_err (\<lambda>e. ErrMsg ''failed to retrieve account value'')
            (of_sum (trie_TryGet T proofTrie (Keccak256 G (word_be 20 (ar_Address res)))))) (\<lambda>accountProofValue.
          guard (accountClaimedValue = accountProofValue)
            (ErrMsg ''L1 RPC is tricking us, account proof does not match provided deserialized values''))))))"

definition WithdrawalContractAddress :: address where
  "WithdrawalContractAddress = 0x4200000000000000000000000000000000000016"

type_synonym BlockNumber = "64 word"   \<comment> \<open>\<open>rpc.BlockNumber\<close>, an \<open>int64\<close>\<close>

definition LatestBlockNumber :: BlockNumber where "LatestBlockNumber = -1"
definition PendingBlockNumber :: BlockNumber where "PendingBlockNumber = -2"

definition toBlockNumArg :: "('d, 't) trie_lib \<Rightarrow> BlockNumber \<Rightarrow> string" where
  "toBlockNumArg T number =
     (if number = LatestBlockNumber then ''latest''
      else if number = PendingBlockNumber then ''pending''
      else EncodeUint64 T number)"

definition OutputAtBlock ::
  "geth \<Rightarrow> header_lib \<Rightarrow> ('d, 't) trie_lib \<Rightarrow> 'w l2EthClient \<Rightarrow> BlockNumber \<Rightarrow> ('w, hash list) rpc" where
  "OutputAtBlock G H T c number =
     rbind (ec_GetBlockHeader c (toBlockNumArg T number)) (\<lambda>hd.
     case hd of None \<Rightarrow> lift_res (Err NotFound)
     | Some head \<Rightarrow>
       rbind (ec_GetProof c WithdrawalContractAddress (toBlockNumArg T number)) (\<lambda>pr.
       case pr of None \<Rightarrow> lift_res (Err NotFound)
       | Some proof_ \<Rightarrow>
         rbind (lift_res (map_err (\<lambda>e. ErrMsg ''invalid withdrawal root hash'') (AccountResult_Verify G T proof_ (h_Root head)))) (\<lambda>_.
         let l2OutputRootVersion = 0 in
         ret [l2OutputRootVersion,
              ComputeL2OutputRoot G l2OutputRootVersion (Header_Hash H head) (h_Root head) (ar_StorageHash proof_)])))"

definition Version :: string where
  "Version = ''0.0.0'' @ ''-'' @ ''dev''"

text \<open>What a successful verification means: the trie under the state root holds, at the key of the
  account's address, the encoding of exactly the claimed fields.\<close>

definition proven :: "geth \<Rightarrow> ('d, 't) trie_lib \<Rightarrow> hash \<Rightarrow> AccountResult \<Rightarrow> bool" where
  "proven G T root res \<longleftrightarrow> (\<exists>balance claimed db t. ar_Balance res = Some balance \<and>
     rlp_account T (ar_Nonce res) (big_Bytes T balance) (ar_StorageHash res) (ar_CodeHash res) = Inr claimed \<and>
     load_proof G T (ar_AccountProof res) (memorydb_New T) = Ok db \<and> trie_New T root db = Inr t \<and>
     trie_TryGet T t (Keccak256 G (word_be 20 (ar_Address res))) = Inr claimed)"

lemma AccountResult_Verify_iff: "AccountResult_Verify G T res root = Ok () \<longleftrightarrow> proven G T root res"
  by (auto simp: AccountResult_Verify_def proven_def bind_res_Ok_iff split: option.splits)

lemma OutputAtBlock_Ok:
  assumes "OutputAtBlock G H T c number w = (Ok out, w')"
  shows "\<exists>head w1 res w2. ec_GetBlockHeader c (toBlockNumArg T number) w = (Ok (Some head), w1) \<and>
    ec_GetProof c WithdrawalContractAddress (toBlockNumArg T number) w1 = (Ok (Some res), w2) \<and>
    proven G T (h_Root head) res \<and>
    out = [0, Keccak256 G (word_be 32 (0::hash) @ word_be 32 (h_Root head) @ word_be 32 (ar_StorageHash res) @
                word_be 32 (Header_Hash H head))]"
  using assms
  by (auto simp: OutputAtBlock_def rbind_Ok_iff AccountResult_Verify_iff [symmetric] ComputeL2OutputRoot_def Let_def split: option.splits)

text \<open>C25: An output root is only returned when the storage root that it commits to is proven: for some
  header that the L2 node returned and some account result, the trie under that header's
  state root holds the encoding of the account's claimed fields, and the output is version zero with the hash of version,
  state root, storage root and block hash in this order.\<close>

theorem OutputAtBlock_proven:
  assumes "OutputAtBlock G H T c number w = (Ok out, w')"
  shows "\<exists>head w1 res w2. ec_GetBlockHeader c (toBlockNumArg T number) w = (Ok (Some head), w1) \<and>
    ec_GetProof c WithdrawalContractAddress (toBlockNumArg T number) w1 = (Ok (Some res), w2) \<and>
    proven G T (h_Root head) res \<and>
    out = [0, Keccak256 G (word_be 32 (0::hash) @ word_be 32 (h_Root head) @ word_be 32 (ar_StorageHash res) @
                word_be 32 (Header_Hash H head))]"
  by (rule OutputAtBlock_Ok [OF assms])

definition node_trie :: "((hash \<rightharpoonup> bytes), (hash \<rightharpoonup> bytes)) trie_lib" where
  "node_trie = \<lparr>rlp_account = (\<lambda>n b s c. Inr b), big_Bytes = (\<lambda>x. [of_int x]), memorydb_New = Map.empty,
     memorydb_Put = (\<lambda>d k v. Inr (d(k \<mapsto> v))), trie_New = (\<lambda>r d. if r = 77 then Inr d else Inl NotFound),
     trie_TryGet = (\<lambda>t k. Inr [3]), EncodeUint64 = (\<lambda>n. ''0x2'')\<rparr>"

lemma node_output:
  "\<exists>out. OutputAtBlock demo_geth node_hlib node_trie (readonly_client node_hlib node_client (cfg_Genesis demo_config)) 2 () = (Ok out, ())"
  by (simp add: OutputAtBlock_def readonly_client_def ReadOnlySource_GetBlockHeader_def ReadOnlySource_GetProof_def node_client_def
      node_block_def rbind_def AccountResult_Verify_def node_trie_def)

theorem OutputAtBlock_proven_witness:
  "\<exists>out head res. OutputAtBlock demo_geth node_hlib node_trie (readonly_client node_hlib node_client (cfg_Genesis demo_config)) 2 () = (Ok out, ()) \<and>
    proven demo_geth node_trie (h_Root head) res \<and>
    out = [0, Keccak256 demo_geth (word_be 32 (0::hash) @ word_be 32 (h_Root head) @ word_be 32 (ar_StorageHash res) @
                word_be 32 (Header_Hash node_hlib head))]"
proof -
  obtain out where out: "OutputAtBlock demo_geth node_hlib node_trie
    (readonly_client node_hlib node_client (cfg_Genesis demo_config)) 2 () = (Ok out, ())" using node_output by blast
  from OutputAtBlock_proven [OF out] show ?thesis using out by iprover
qed

text \<open>The address of the account result is never compared with the address that was asked for: a proof
  of any other account is accepted, and its storage root ends up in the output root.\<close>

theorem OutputAtBlock_accepts_other_account:
  "\<exists>out res. ec_GetProof (readonly_client node_hlib node_client (cfg_Genesis demo_config)) WithdrawalContractAddress ''0x2'' () = (Ok (Some res), ()) \<and>
    ar_Address res \<noteq> WithdrawalContractAddress \<and>
    OutputAtBlock demo_geth node_hlib node_trie (readonly_client node_hlib node_client (cfg_Genesis demo_config)) 2 () = (Ok out, ())"
proof -
  obtain res where "ec_GetProof (readonly_client node_hlib node_client (cfg_Genesis demo_config)) WithdrawalContractAddress ''0x2'' () = (Ok (Some res), ())"
    and "ar_Address res = 5"
    by (simp add: readonly_client_def ReadOnlySource_GetProof_def node_client_def)
  moreover have "5 \<noteq> WithdrawalContractAddress" by (simp add: WithdrawalContractAddress_def)
  ultimately show ?thesis using node_output by metis
qed

end
