(* ===== verification/Withdrawals.thy ===== *)
theory Withdrawals
  imports NodeAPI
begin

text \<open>
  Withdrawals (\<open>op-node/withdrawals/proof.go\<close>, \<open>op-node/withdrawals/utils.go\<close>): the proof of a withdrawal
  against an L2 state root, the parameters of its finalization on L1, and the wait for the
  finalization period. RLP, ABI packing, trie proofs, hex text and the generated contract bindings
  are parameters. The two polling loops take the outcomes of their \<open>select\<close> statements as a list;
  a list that ends before the loop does is a loop that has not returned.
\<close>

record WithdrawalInitiated =
  wi_Nonce :: int
  wi_Sender :: address
  wi_Target :: address
  wi_Value :: int
  wi_GasLimit :: int
  wi_Data :: bytes

record StorageResult =
  sr_Key :: string
  sr_Value :: "int option"
  sr_Proof :: "string list"

record ProofResult =               \<comment> \<open>\<open>gethclient.AccountResult\<close>\<close>
  pr_Address :: address
  pr_AccountProof :: "string list"
  pr_Balance :: "int option"
  pr_CodeHash :: hash
  pr_Nonce :: u64
  pr_StorageHash :: hash
  pr_StorageProof :: "StorageResult list"

record withdrawal_lib =
  wl_FromHex :: "string \<Rightarrow> bytes"
  wl_Hash_String :: "hash \<Rightarrow> string"
  wl_big_Bytes :: "int \<Rightarrow> bytes"
  wl_rlp_account :: "u64 \<Rightarrow> int option \<Rightarrow> hash \<Rightarrow> bytes \<Rightarrow> error + bytes"
  wl_rlp_nodes :: "bytes list \<Rightarrow> error + bytes"
  wl_VerifyProof :: "hash \<Rightarrow> bytes \<Rightarrow> (bytes \<rightharpoonup> bytes) \<Rightarrow> error + bytes"
  wl_abi_Pack :: "WithdrawalInitiated \<Rightarrow> error + bytes"
  wl_ParseLog :: "Log \<Rightarrow> error + WithdrawalInitiated"

section \<open>Proofs (proof.go)\<close>

definition proofDB_Has :: "(bytes \<rightharpoonup> bytes) \<Rightarrow> bytes \<Rightarrow> bool" where
  "proofDB_Has m key = (m key \<noteq> None)"

definition proofDB_Get :: "(bytes \<rightharpoonup> bytes) \<Rightarrow> bytes \<Rightarrow> bytes res" where
  "proofDB_Get m key = (case m key of None \<Rightarrow> Err (ErrMsg ''not found'') | Some v \<Rightarrow> Ok v)"

definition GenerateProofDB :: "geth \<Rightarrow> withdrawal_lib \<Rightarrow> string list \<Rightarrow> (bytes \<rightharpoonup> bytes)" where
  "GenerateProofDB G L pf = foldl (\<lambda>m s. m(word_be 32 (Keccak256 G (wl_FromHex L s)) \<mapsto> wl_FromHex L s)) Map.empty pf"

definition VerifyAccountProof ::
  "geth \<Rightarrow> withdrawal_lib \<Rightarrow> hash \<Rightarrow> address \<Rightarrow> u64 \<Rightarrow> int option \<Rightarrow> hash \<Rightarrow> hash \<Rightarrow> string list \<Rightarrow> unit res" where
  "VerifyAccountProof G L root addr nonce balance storageRoot codeHash pf =
     bind_res (map_err (Wrap ''failed to encode rlp'') (of_sum (wl_rlp_account L nonce balance storageRoot (word_be 32 codeHash)))) (\<lambda>expected.
     bind_res (map_err (Wrap ''failed to verify proof'')
       (of_sum (wl_VerifyProof L root (word_be 32 (Keccak256 G (word_be 20 addr))) (GenerateProofDB G L pf)))) (\<lambda>value.
     guard (value = expected) (ErrMsg ''proved value is not the same as the expected value'')))"

definition VerifyStorageProof :: "geth \<Rightarrow> withdrawal_lib \<Rightarrow> hash \<Rightarrow> StorageResult \<Rightarrow> unit res" where
  "VerifyStorageProof G L root pf =
     bind_res (map_err (Wrap ''failed to verify proof'')
       (of_sum (wl_VerifyProof L root (word_be 32 (Keccak256 G (wl_FromHex L (sr_Key pf)))) (GenerateProofDB G L (sr_Proof pf))))) (\<lambda>value.
     case sr_Value pf of
       None \<Rightarrow> Panic ''nil pointer dereference''
     | Some v \<Rightarrow> guard (value = wl_big_Bytes L v) (ErrMsg ''proved value is not the same as the expected value''))"

fun verify_storage :: "geth \<Rightarrow> withdrawal_lib \<Rightarrow> hash \<Rightarrow> StorageResult list \<Rightarrow> unit res" where
  "verify_storage G L root [] = Ok ()"
| "verify_storage G L root (p # ps) =
     bind_res (map_err (Wrap ''failed to validate storage proof'') (VerifyStorageProof G L root p)) (\<lambda>_. verify_storage G L root ps)"

definition Withdrawal_VerifyProof :: "geth \<Rightarrow> withdrawal_lib \<Rightarrow> hash \<Rightarrow> ProofResult \<Rightarrow> unit res" where
  "Withdrawal_VerifyProof G L stateRoot pf =
     bind_res (map_err (Wrap ''failed to validate account'')
       (VerifyAccountProof G L stateRoot (pr_Address pf) (pr_Nonce pf) (pr_Balance pf) (pr_StorageHash pf) (pr_CodeHash pf) (pr_AccountProof pf)))
       (\<lambda>_. verify_storage G L (pr_StorageHash pf) (pr_StorageProof pf))"

section \<open>Parameters of the finalization (utils.go)\<close>

definition WithdrawalHash :: "geth \<Rightarrow> withdrawal_lib \<Rightarrow> WithdrawalInitiated \<Rightarrow> hash res" where
  "WithdrawalHash G L ev =
     bind_res (map_err (Wrap ''failed to pack for withdrawal hash'') (of_sum (wl_abi_Pack L ev))) (\<lambda>enc. Ok (Keccak256 G enc))"

definition ParseWithdrawalInitiated :: "withdrawal_lib \<Rightarrow> Receipt \<Rightarrow> WithdrawalInitiated res" where
  "ParseWithdrawalInitiated L receipt =
     (case rcp_Logs receipt of
        [lg] \<Rightarrow> map_err (Wrap ''failed to parse log'') (of_sum (wl_ParseLog L lg))
      | _ \<Rightarrow> Err (ErrMsg ''invalid length of logs''))"

definition StorageSlotOfWithdrawalHash :: "geth \<Rightarrow> hash \<Rightarrow> hash" where
  "StorageSlotOfWithdrawalHash G h = Keccak256 G ((word_be 32 h @ replicate 32 0)[63 := 1])"

record OutputRootProof =
  orp_Version :: hash
  orp_StateRoot :: hash
  orp_WithdrawerStorageRoot :: hash
  orp_LatestBlockhash :: hash

record FinalizedWithdrawalParameters =
  fw_Event :: WithdrawalInitiated      \<comment> \<open>\<open>Nonce\<close>, \<open>Sender\<close>, \<open>Target\<close>, \<open>Value\<close>, \<open>GasLimit\<close>, \<open>Data\<close>\<close>
  fw_Timestamp :: int
  fw_OutputRootProof :: OutputRootProof
  fw_WithdrawalProof :: bytes

record 'w ProofClient =
  pc_TransactionReceipt :: "hash \<Rightarrow> ('w, Receipt) rpc"
  pc_GetProof :: "address \<Rightarrow> string list \<Rightarrow> int \<Rightarrow> ('w, ProofResult) rpc"

definition FinalizeWithdrawalParameters ::
  "geth \<Rightarrow> header_lib \<Rightarrow> withdrawal_lib \<Rightarrow> 'w ProofClient \<Rightarrow> hash \<Rightarrow> Header \<Rightarrow> ('w, FinalizedWithdrawalParameters) rpc" where
  "FinalizeWithdrawalParameters G H L c txHash header =
     rbind (pc_TransactionReceipt c txHash) (\<lambda>receipt.
     rbind (lift_res (ParseWithdrawalInitiated L receipt)) (\<lambda>ev.
     rbind (lift_res (WithdrawalHash G L ev)) (\<lambda>withdrawalHash.
     let slot = StorageSlotOfWithdrawalHash G withdrawalHash in
     rbind (pc_GetProof c WithdrawalContractAddress [wl_Hash_String L slot] (h_Number header)) (\<lambda>p.
     rbind (lift_res (Withdrawal_VerifyProof G L (h_Root header) p)) (\<lambda>_.
     case pr_StorageProof p of
       [sp] \<Rightarrow>
         rbind (lift_res (of_sum (wl_rlp_nodes L (map (wl_FromHex L) (sr_Proof sp))))) (\<lambda>withdrawalProof.
         ret \<lparr>fw_Event = ev, fw_Timestamp = uint (h_Time header),
              fw_OutputRootProof = \<lparr>orp_Version = 0, orp_StateRoot = h_Root header,
                orp_WithdrawerStorageRoot = pr_StorageHash p, orp_LatestBlockhash = Header_Hash H header\<rparr>,
              fw_WithdrawalProof = withdrawalProof\<rparr>)
     | _ \<Rightarrow> lift_res (Err (ErrMsg ''invalid amount of storage proofs'')))))))"

section \<open>Waiting for the finalization period\<close>

datatype wake = TickerFires | ContextEnds

record 'w portal_client =
  po_L2ORACLE :: "('w, address) rpc"
  po_FINALIZATIONPERIOD :: "('w, int) rpc"
  oo_LatestBlockTimestamp :: "address \<Rightarrow> ('w, int) rpc"
  oo_GetL2Output :: "address \<Rightarrow> int \<Rightarrow> ('w, hash \<times> int) rpc"     \<comment> \<open>output root and timestamp\<close>
  l1_HeaderByNumber :: "('w, Header) rpc"

fun wait_submitted :: "'w portal_client \<Rightarrow> address \<Rightarrow> int \<Rightarrow> wake list \<Rightarrow> ('w, int \<times> wake list) rpc" where
  "wait_submitted c oo timestampBig [] = lift_res Diverge"
| "wait_submitted c oo timestampBig (ContextEnds # ws) = lift_res (Err ContextCanceled)"
| "wait_submitted c oo timestampBig (TickerFires # ws) =
     rbind (oo_LatestBlockTimestamp c oo) (\<lambda>nxt. if nxt > timestampBig then ret (nxt, ws) else wait_submitted c oo timestampBig ws)"

fun wait_final :: "'w portal_client \<Rightarrow> int \<Rightarrow> wake list \<Rightarrow> ('w, unit) rpc" where
  "wait_final c targetTimestamp [] = lift_res Diverge"
| "wait_final c targetTimestamp (ContextEnds # ws) = lift_res (Err ContextCanceled)"
| "wait_final c targetTimestamp (TickerFires # ws) =
     rbind (l1_HeaderByNumber c) (\<lambda>header. if h_Time header > of_int targetTimestamp then ret () else wait_final c targetTimestamp ws)"

definition WaitForFinalizationPeriod :: "'w portal_client \<Rightarrow> u64 \<Rightarrow> wake list \<Rightarrow> ('w, u64) rpc" where
  "WaitForFinalizationPeriod c timestamp ws =
     rbind (po_L2ORACLE c) (\<lambda>l2OOAddress.
     rbind (po_FINALIZATIONPERIOD c) (\<lambda>finalizationPeriod.
     rbind (oo_LatestBlockTimestamp c l2OOAddress) (\<lambda>_.
     rbind (wait_submitted c l2OOAddress (uint timestamp) ws) (\<lambda>(nxt, ws').
     rbind (oo_GetL2Output c l2OOAddress nxt) (\<lambda>(root, outTimestamp).
     rbind (wait_final c (outTimestamp + finalizationPeriod) ws') (\<lambda>_.
     ret (of_int nxt)))))))"

section \<open>Properties\<close>

lemma GenerateProofDB_keys:
  "GenerateProofDB G L pf k = Some v \<Longrightarrow> k = word_be 32 (Keccak256 G v) \<and> v \<in> set (map (wl_FromHex L) pf)"
proof (induction pf rule: rev_induct)
  case (snoc s pf)
  then show ?case by (auto simp: GenerateProofDB_def split: if_splits)
qed (simp add: GenerateProofDB_def)

definition account_proven :: "geth \<Rightarrow> withdrawal_lib \<Rightarrow> hash \<Rightarrow> ProofResult \<Rightarrow> bool" where
  "account_proven G L root p \<longleftrightarrow> (\<exists>enc. wl_rlp_account L (pr_Nonce p) (pr_Balance p) (pr_StorageHash p) (word_be 32 (pr_CodeHash p)) = Inr enc \<and>
     wl_VerifyProof L root (word_be 32 (Keccak256 G (word_be 20 (pr_Address p)))) (GenerateProofDB G L (pr_AccountProof p)) = Inr enc)"

definition slot_proven :: "geth \<Rightarrow> withdrawal_lib \<Rightarrow> hash \<Rightarrow> StorageResult \<Rightarrow> bool" where
  "slot_proven G L root sp \<longleftrightarrow> (\<exists>v. sr_Value sp = Some v \<and>
     wl_VerifyProof L root (word_be 32 (Keccak256 G (wl_FromHex L (sr_Key sp)))) (GenerateProofDB G L (sr_Proof sp)) = Inr (wl_big_Bytes L v))"

lemma VerifyStorageProof_iff: "VerifyStorageProof G L root sp = Ok u \<longleftrightarrow> slot_proven G L root sp"
  by (auto simp: VerifyStorageProof_def slot_proven_def bind_res_Ok_iff split: option.splits)

lemma verify_storage_iff: "verify_storage G L root ps = Ok () \<longleftrightarrow> (\<forall>sp \<in> set ps. slot_proven G L root sp)"
  by (induction ps) (auto simp: bind_res_Ok_iff VerifyStorageProof_iff)

lemma Withdrawal_VerifyProof_iff:
  "Withdrawal_VerifyProof G L root p = Ok () \<longleftrightarrow> account_proven G L root p \<and> (\<forall>sp \<in> set (pr_StorageProof p). slot_proven G L (pr_StorageHash p) sp)"
  by (auto simp: Withdrawal_VerifyProof_def VerifyAccountProof_def account_proven_def bind_res_Ok_iff verify_storage_iff)

text \<open>C32: The parameters that finalize a withdrawal on L1 are proven. When they are returned, the transaction emitted
  exactly one withdrawal event, which they carry; the account result is proven under the state root of the
  header and its single storage slot under the account's storage root; the withdrawal proof lists the
  trie nodes of that slot; and the hash of the output root proof is the output root that the rollup node
  computes for the header and this storage root.\<close>

theorem withdrawal_parameters_proven:
  assumes "FinalizeWithdrawalParameters G H L c txHash header w = (Ok params, w')"
  shows "\<exists>receipt lg ev enc p sp. (\<exists>w1. pc_TransactionReceipt c txHash w = (Ok receipt, w1)) \<and> rcp_Logs receipt = [lg] \<and>
    wl_ParseLog L lg = Inr ev \<and> wl_abi_Pack L ev = Inr enc \<and> fw_Event params = ev \<and>
    (\<exists>w1 w2. pc_GetProof c WithdrawalContractAddress
        [wl_Hash_String L (Keccak256 G (word_be 32 (Keccak256 G enc) @ replicate 31 0 @ [1]))] (h_Number header) w1 = (Ok p, w2)) \<and>
    account_proven G L (h_Root header) p \<and> pr_StorageProof p = [sp] \<and> slot_proven G L (pr_StorageHash p) sp \<and>
    wl_rlp_nodes L (map (wl_FromHex L) (sr_Proof sp)) = Inr (fw_WithdrawalProof params) \<and>
    Keccak256 G (word_be 32 (orp_Version (fw_OutputRootProof params)) @ word_be 32 (orp_StateRoot (fw_OutputRootProof params)) @
       word_be 32 (orp_WithdrawerStorageRoot (fw_OutputRootProof params)) @ word_be 32 (orp_LatestBlockhash (fw_OutputRootProof params))) =
     ComputeL2OutputRoot G 0 (Header_Hash H header) (h_Root header) (pr_StorageHash p)"
proof -
  have slot: "StorageSlotOfWithdrawalHash G h = Keccak256 G (word_be 32 h @ replicate 31 0 @ [1])" for h
  proof -
    have "(replicate 32 (0::byte))[31 := 1] = replicate 31 0 @ [1]" by (simp add: numeral_eq_Suc)
    then show ?thesis by (simp add: StorageSlotOfWithdrawalHash_def list_update_append)
  qed
  from assms obtain receipt w1 ev enc p w2 w3 where
    r: "pc_TransactionReceipt c txHash w = (Ok receipt, w1)" and ev: "ParseWithdrawalInitiated L receipt = Ok ev"
    and enc: "wl_abi_Pack L ev = Inr enc"
    and p: "pc_GetProof c WithdrawalContractAddress [wl_Hash_String L (StorageSlotOfWithdrawalHash G (Keccak256 G enc))] (h_Number header) w2 = (Ok p, w3)"
    and ver: "Withdrawal_VerifyProof G L (h_Root header) p = Ok ()"
    and rest: "(case pr_StorageProof p of
       [sp] \<Rightarrow>
         rbind (lift_res (of_sum (wl_rlp_nodes L (map (wl_FromHex L) (sr_Proof sp))))) (\<lambda>withdrawalProof.
         ret \<lparr>fw_Event = ev, fw_Timestamp = uint (h_Time header),
              fw_OutputRootProof = \<lparr>orp_Version = 0, orp_StateRoot = h_Root header,
                orp_WithdrawerStorageRoot = pr_StorageHash p, orp_LatestBlockhash = Header_Hash H header\<rparr>,
              fw_WithdrawalProof = withdrawalProof\<rparr>)
     | _ \<Rightarrow> lift_res (Err (ErrMsg ''invalid amount of storage proofs''))) w3 = (Ok params, w')"
    by (auto simp: FinalizeWithdrawalParameters_def WithdrawalHash_def Let_def rbind_Ok_iff bind_res_Ok_iff)
  from ev obtain lg where "rcp_Logs receipt = [lg]" "wl_ParseLog L lg = Inr ev"
    by (auto simp: ParseWithdrawalInitiated_def split: list.splits)
  moreover from rest obtain sp where "pr_StorageProof p = [sp]"
    by (auto split: list.splits)
  moreover from this rest obtain wp where "wl_rlp_nodes L (map (wl_FromHex L) (sr_Proof sp)) = Inr wp"
    and "params = \<lparr>fw_Event = ev, fw_Timestamp = uint (h_Time header),
              fw_OutputRootProof = \<lparr>orp_Version = 0, orp_StateRoot = h_Root header,
                orp_WithdrawerStorageRoot = pr_StorageHash p, orp_LatestBlockhash = Header_Hash H header\<rparr>,
              fw_WithdrawalProof = wp\<rparr>"
    by (auto simp: rbind_Ok_iff)
  ultimately show ?thesis using r enc p ver unfolding slot
    by (intro exI [of _ receipt] exI [of _ lg] exI [of _ ev] exI [of _ enc] exI [of _ p] exI [of _ sp])
       (auto simp: Withdrawal_VerifyProof_iff ComputeL2OutputRoot_def)
qed

lemma wait_submitted_Ok: "wait_submitted c oo t ws w = (Ok (nxt, ws'), w') \<Longrightarrow>
    nxt > t \<and> (\<exists>w1 w2. oo_LatestBlockTimestamp c oo w1 = (Ok nxt, w2))"
  by (induction c oo t ws arbitrary: w rule: wait_submitted.induct) (auto simp: rbind_Ok_iff split: if_splits)

lemma wait_final_Ok: "wait_final c t ws w = (Ok u, w') \<Longrightarrow>
    \<exists>hd w1 w2. l1_HeaderByNumber c w1 = (Ok hd, w2) \<and> h_Time hd > of_int t"
  by (induction c t ws arbitrary: w rule: wait_final.induct) (auto simp: rbind_Ok_iff split: if_splits)

text \<open>The wait for finality ends only when the withdrawal can be finalized: the returned timestamp is
  one that the output oracle reported, it is after the withdrawal's own timestamp, and an L1 header was seen
  whose time is after the output's submission time plus the finalization period.\<close>

theorem finalization_wait:
  assumes "WaitForFinalizationPeriod c timestamp ws w = (Ok t, w')"
  shows "\<exists>oo period nxt root out hd. (\<exists>w1 w2. po_FINALIZATIONPERIOD c w1 = (Ok period, w2)) \<and>
    (\<exists>w1 w2. oo_LatestBlockTimestamp c oo w1 = (Ok nxt, w2)) \<and> t = of_int nxt \<and> nxt > uint timestamp \<and>
    (\<exists>w1 w2. oo_GetL2Output c oo nxt w1 = (Ok (root, out), w2)) \<and>
    (\<exists>w1 w2. l1_HeaderByNumber c w1 = (Ok hd, w2)) \<and> h_Time hd > of_int (out + period)"
proof -
  from assms obtain oo period nxt ws' root out w1 w2 w3 w4 w5 w6 w7 u where
    "po_FINALIZATIONPERIOD c w1 = (Ok period, w2)"
    and sub: "wait_submitted c oo (uint timestamp) ws w3 = (Ok (nxt, ws'), w4)"
    and out: "oo_GetL2Output c oo nxt w4 = (Ok (root, out), w5)"
    and fin: "wait_final c (out + period) ws' w6 = (Ok u, w7)" and "t = of_int nxt"
    by (auto simp: WaitForFinalizationPeriod_def rbind_Ok_iff)
  with wait_submitted_Ok [OF sub] wait_final_Ok [OF fin] show ?thesis by blast
qed

section \<open>Concrete instances\<close>

definition demo_wlib :: withdrawal_lib where
  "demo_wlib = \<lparr>wl_FromHex = (\<lambda>s. map of_char s), wl_Hash_String = (\<lambda>h. ''k''), wl_big_Bytes = (\<lambda>v. [of_int v]),
     wl_rlp_account = (\<lambda>n b r c. Inr [3]), wl_rlp_nodes = (\<lambda>ns. Inr (concat ns)),
     wl_VerifyProof = (\<lambda>r k db. if r = 77 then Inr [3] else Inr [1]), wl_abi_Pack = (\<lambda>ev. Inr (wi_Data ev)),
     wl_ParseLog = (\<lambda>l. Inr \<lparr>wi_Nonce = 1, wi_Sender = 2, wi_Target = 3, wi_Value = 4, wi_GasLimit = 5, wi_Data = log_Data l\<rparr>)\<rparr>"

definition demo_proof_client :: "unit ProofClient" where
  "demo_proof_client = \<lparr>pc_TransactionReceipt = (\<lambda>h. ret \<lparr>rcp_Status = 1,
       rcp_Logs = [\<lparr>log_Address = 0, log_Topics = [], log_Data = [9], log_BlockNumber = 2, log_TxHash = h, log_TxIndex = 0, log_BlockHash = 4,
          log_Index = 0, log_Removed = False\<rparr>],
       rcp_TxHash = h, rcp_BlockHash = 4, rcp_BlockNumber = 2, rcp_TransactionIndex = 0\<rparr>),
     pc_GetProof = (\<lambda>a ks n. ret \<lparr>pr_Address = a, pr_AccountProof = [''ab''], pr_Balance = Some 0, pr_CodeHash = 8, pr_Nonce = 1, pr_StorageHash = 9,
        pr_StorageProof = [\<lparr>sr_Key = ''k'', sr_Value = Some 1, sr_Proof = [''cd'']\<rparr>]\<rparr>)\<rparr>"

theorem withdrawal_parameters_proven_witness:
  "\<exists>params p. FinalizeWithdrawalParameters demo_geth node_hlib demo_wlib demo_proof_client 6 (blk_Header (node_block 2 [])) () = (Ok params, ()) \<and>
     account_proven demo_geth demo_wlib 77 p"
proof -
  obtain params where run: "FinalizeWithdrawalParameters demo_geth node_hlib demo_wlib demo_proof_client 6 (blk_Header (node_block 2 [])) () = (Ok params, ())"
    by (simp add: FinalizeWithdrawalParameters_def demo_proof_client_def ParseWithdrawalInitiated_def WithdrawalHash_def Withdrawal_VerifyProof_def
        VerifyAccountProof_def VerifyStorageProof_def demo_wlib_def node_block_def rbind_def Let_def)
  have "h_Root (blk_Header (node_block 2 [])) = 77" by (simp add: node_block_def)
  with withdrawal_parameters_proven [OF run] run show ?thesis by metis
qed

definition demo_portal :: "u64 portal_client" where
  "demo_portal = \<lparr>po_L2ORACLE = ret 21, po_FINALIZATIONPERIOD = ret 7, oo_LatestBlockTimestamp = (\<lambda>a w. (Ok (uint w), w + 10)),
     oo_GetL2Output = (\<lambda>a n. ret (5, n)), l1_HeaderByNumber = (\<lambda>w. (Ok ((blk_Header (node_block 2 []))\<lparr>h_Time := w\<rparr>), w + 10))\<rparr>"

theorem finalization_wait_witness:
  "\<exists>w' nxt. WaitForFinalizationPeriod demo_portal 5 [TickerFires, TickerFires] 0 = (Ok 10, w') \<and> (10::u64) = of_int nxt \<and> nxt > uint (5::u64)"
proof -
  obtain w' where run: "WaitForFinalizationPeriod demo_portal 5 [TickerFires, TickerFires] 0 = (Ok 10, w')"
    by (simp add: WaitForFinalizationPeriod_def demo_portal_def rbind_def)
  from finalization_wait [OF run] run show ?thesis by blast
qed

end
