(* ===== verification/Plumbing.thy ===== *)
theory Plumbing
  imports L1Source Complex_Main
begin

text \<open>
  The plumbing around RPC connections: retries with a backoff strategy (\<open>op-node/backoff\<close>), dialing a
  client with them (\<open>op-node/node/node.go\<close>), the semaphore that limits concurrent requests
  (\<open>op-node/l1/request_sema.go\<close>) and the subscription to L1 heads (\<open>op-node/eth/heads.go\<close>).
  The Go type \<open>int\<close> is a 64-bit word read with \<open>sint\<close>; a \<open>time.Duration\<close> is a 64-bit number of
  nanoseconds.
\<close>

section \<open>Backoff strategies (strategies.go)\<close>

type_synonym goint = "64 word"
type_synonym duration = "64 word"

text \<open>A strategy may draw from the global random generator, which is part of the world.\<close>

type_synonym 'w strategy = "goint \<Rightarrow> 'w \<Rightarrow> duration \<times> 'w"

definition Millisecond :: duration where
  "Millisecond = 1000000"

text \<open>The \<open>float64\<close> fields and sums are rationals: with integral fields, which \<open>Exponential\<close> uses, every sum
  below \<open>2 ^ 53\<close> is exact, and larger ones exceed \<open>Max\<close> whether rounded or not. The conversion to an integer
  truncates towards zero.\<close>

record ExponentialStrategy =
  es_Min :: rat
  es_Max :: rat
  es_MaxJitter :: goint

definition truncate_rat :: "rat \<Rightarrow> int" where
  "truncate_rat q = (if q < 0 then - \<lfloor>- q\<rfloor> else \<lfloor>q\<rfloor>)"

definition pow2 :: "goint \<Rightarrow> rat" where
  "pow2 a = (if sint a < 0 then 1 / 2 ^ nat (- sint a) else 2 ^ nat (sint a))"

text \<open>\<open>rand.Intn(n)\<close> draws a number below \<open>n\<close>.\<close>

definition ExponentialStrategy_Duration :: "(nat \<Rightarrow> 'w \<Rightarrow> nat \<times> 'w) \<Rightarrow> ExponentialStrategy \<Rightarrow> 'w strategy" where
  "ExponentialStrategy_Duration rand_Intn e attempt w =
     (case (if sint (es_MaxJitter e) > 0 then rand_Intn (nat (sint (es_MaxJitter e))) w else (0, w)) of (jitter, w1) \<Rightarrow>
        let dur = es_Min e + pow2 attempt * 1000;
            dur' = dur + of_nat jitter
        in (if dur' > es_Max e then Millisecond * of_int (truncate_rat (es_Max e))
            else Millisecond * of_int (truncate_rat dur'), w1))"

definition Exponential :: ExponentialStrategy where
  "Exponential = \<lparr>es_Min = 0, es_Max = 10000, es_MaxJitter = 250\<rparr>"

definition FixedStrategy_Duration :: "duration \<Rightarrow> 'w strategy" where
  "FixedStrategy_Duration dur attempt w = (dur, w)"

section \<open>Retries (operation.go)\<close>

record ErrFailedPermanently =
  ef_attempts :: goint
  ef_LastErr :: error

lemma unat_pred_less: "(x::64 word) \<noteq> 0 \<Longrightarrow> unat (x - 1) < unat x"
  by (simp add: unat_minus_one unat_gt_0)

text \<open>An operation succeeds, fails with an error, panics or hangs; the result of \<open>Do\<close> is nil or the error
  after the last attempt. The loop ends because the attempt counter, an \<open>int\<close> that wraps around, reaches every
  value of \<open>maxAttempts\<close>.\<close>

function Do_loop ::
  "('w strategy) \<Rightarrow> (duration \<Rightarrow> 'w \<Rightarrow> 'w) \<Rightarrow> ('w, unit) rpc \<Rightarrow> goint \<Rightarrow> goint \<Rightarrow> ('w, ErrFailedPermanently option) rpc" where
  "Do_loop strategy slp op maxAttempts attempt w =
     (case op w of
        (Ok u, w1) \<Rightarrow> (Ok None, w1)
      | (Panic p, w1) \<Rightarrow> (Panic p, w1)
      | (Diverge, w1) \<Rightarrow> (Diverge, w1)
      | (Err err, w1) \<Rightarrow>
          if attempt + 1 = maxAttempts
          then (Ok (Some \<lparr>ef_attempts = maxAttempts, ef_LastErr = err\<rparr>), w1)
          else (case strategy (attempt + 1 - 1) w1 of (d, w2) \<Rightarrow>
            Do_loop strategy slp op maxAttempts (attempt + 1) (slp d w2)))"
  by pat_completeness auto

termination
proof (relation "measure (\<lambda>(strategy, slp, op, maxAttempts, attempt, w). unat (maxAttempts - attempt - 1))", goal_cases)
  case 1
  show ?case by simp
next
  case (2 strategy slp op maxAttempts attempt w r w1 err d w2)
  then have "maxAttempts - attempt - 1 \<noteq> 0" by (auto simp: algebra_simps)
  from unat_pred_less [OF this] show ?case by (simp add: algebra_simps)
qed

declare Do_loop.simps [simp del]

definition Do :: "goint \<Rightarrow> 'w strategy \<Rightarrow> (duration \<Rightarrow> 'w \<Rightarrow> 'w) \<Rightarrow> ('w, unit) rpc \<Rightarrow> ('w, ErrFailedPermanently option) rpc" where
  "Do maxAttempts strategy slp op = Do_loop strategy slp op maxAttempts 0"

section \<open>What \<open>Do\<close> does\<close>

text \<open>The world in which the attempt with index \<open>k\<close> runs, when all before it failed.\<close>

primrec before_attempt :: "'w strategy \<Rightarrow> (duration \<Rightarrow> 'w \<Rightarrow> 'w) \<Rightarrow> ('w, unit) rpc \<Rightarrow> 'w \<Rightarrow> nat \<Rightarrow> 'w" where
  "before_attempt strategy slp op w 0 = w"
| "before_attempt strategy slp op w (Suc k) =
     (case strategy (of_nat k) (snd (op (before_attempt strategy slp op w k))) of (d, w') \<Rightarrow> slp d w')"

definition attempts_allowed :: "goint \<Rightarrow> nat" where
  "attempts_allowed maxAttempts = (if maxAttempts = 0 then 2 ^ 64 else unat maxAttempts)"

definition fails :: "('w, unit) rpc \<Rightarrow> 'w \<Rightarrow> bool" where
  "fails op w \<longleftrightarrow> (\<exists>e. fst (op w) = Err e)"

fun stop_result :: "unit res \<Rightarrow> goint \<Rightarrow> ErrFailedPermanently option res" where
  "stop_result (Ok u) n = Ok None"
| "stop_result (Err e) n = Ok (Some \<lparr>ef_attempts = n, ef_LastErr = e\<rparr>)"
| "stop_result (Panic p) n = Panic p"
| "stop_result Diverge n = Diverge"

lemma attempts_allowed_reached:
  assumes "k < attempts_allowed m"
  shows "of_nat k + 1 = m \<longleftrightarrow> Suc k = attempts_allowed m"
proof -
  have "unat m < 2 ^ 64" using unsigned_less [of m] by simp
  then have k: "Suc k \<le> 2 ^ 64" using assms by (auto simp: attempts_allowed_def split: if_splits)
  have "of_nat k + 1 = m \<longleftrightarrow> unat (of_nat (Suc k) :: 64 word) = unat m"
    by (simp only: word_unat_eq_iff of_nat_Suc add.commute)
  also have "\<dots> \<longleftrightarrow> Suc k mod 2 ^ 64 = unat m" by (simp only: unat_of_nat len_bit1 len_num1 len_bit0) simp
  also have "\<dots> \<longleftrightarrow> Suc k = attempts_allowed m"
  proof (cases "m = 0")
    case True
    have "Suc k mod 2 ^ 64 = 0 \<longleftrightarrow> Suc k = 2 ^ 64" using k by (cases "Suc k = 2 ^ 64") (simp_all del: mod_Suc_eq)
    with True show ?thesis by (simp add: attempts_allowed_def)
  next
    case False
    with assms \<open>unat m < 2 ^ 64\<close> have "Suc k < 2 ^ 64" by (simp add: attempts_allowed_def)
    with False show ?thesis by (simp add: attempts_allowed_def)
  qed
  finally show ?thesis .
qed

lemma Do_loop_attempts:
  assumes "k < attempts_allowed m" and "\<forall>j<k. fails op (before_attempt strategy slp op w j)"
  shows "\<exists>n<attempts_allowed m. k \<le> n \<and> (\<forall>j<n. fails op (before_attempt strategy slp op w j)) \<and>
    (fails op (before_attempt strategy slp op w n) \<longrightarrow> Suc n = attempts_allowed m) \<and>
    Do_loop strategy slp op m (of_nat k) (before_attempt strategy slp op w k) =
      (case op (before_attempt strategy slp op w n) of (r, w') \<Rightarrow> (stop_result r m, w'))"
  using assms
proof (induction "attempts_allowed m - k" arbitrary: k rule: less_induct)
  case less
  let ?w = "before_attempt strategy slp op w"
  obtain r w1 where op: "op (?w k) = (r, w1)" by fastforce
  show ?case
  proof (cases "fails op (?w k) \<and> Suc k \<noteq> attempts_allowed m")
    case True
    then obtain e where e: "r = Err e" using op by (auto simp: fails_def)
    from True less.prems(1) have k': "Suc k < attempts_allowed m" by simp
    obtain d w2 where d: "strategy (of_nat k) w1 = (d, w2)" by fastforce
    have step: "Do_loop strategy slp op m (of_nat k) (?w k) = Do_loop strategy slp op m (of_nat (Suc k)) (?w (Suc k))"
      using attempts_allowed_reached [OF less.prems(1)] True
      by (subst Do_loop.simps) (simp add: op e d add.commute)
    have "\<forall>j<Suc k. fails op (?w j)" using less.prems(2) True by (simp add: less_Suc_eq)
    with k' have "\<exists>n<attempts_allowed m. Suc k \<le> n \<and> (\<forall>j<n. fails op (?w j)) \<and>
        (fails op (?w n) \<longrightarrow> Suc n = attempts_allowed m) \<and>
        Do_loop strategy slp op m (of_nat (Suc k)) (?w (Suc k)) = (case op (?w n) of (r, w') \<Rightarrow> (stop_result r m, w'))"
      by (intro less.hyps) simp_all
    then show ?thesis unfolding step by (blast intro: Suc_leD)
  next
    case False
    have "Do_loop strategy slp op m (of_nat k) (?w k) = (stop_result r m, w1)"
      using False attempts_allowed_reached [OF less.prems(1)]
      by (subst Do_loop.simps) (auto simp: op fails_def split: res.split)
    with False less.prems op show ?thesis by (intro exI [of _ k]) auto
  qed
qed

text \<open>\<open>Do\<close> always ends: it stops at the first attempt that does not fail, or with the last error after exactly
  \<open>maxAttempts\<close> failed attempts, sleeping as the strategy says in between. A count of zero or below is
  read modulo \<open>2 ^ 64\<close>, as the counter wraps around.\<close>

theorem Do_attempts:
  "\<exists>n<attempts_allowed maxAttempts. (\<forall>j<n. fails op (before_attempt strategy slp op w j)) \<and>
     (fails op (before_attempt strategy slp op w n) \<longrightarrow> Suc n = attempts_allowed maxAttempts) \<and>
     Do maxAttempts strategy slp op w =
       (case op (before_attempt strategy slp op w n) of (r, w') \<Rightarrow> (stop_result r maxAttempts, w'))"
proof -
  have "0 < attempts_allowed maxAttempts" by (simp add: attempts_allowed_def unat_gt_0)
  from Do_loop_attempts [OF this] show ?thesis by (auto simp: Do_def)
qed

section \<open>Delays and dialing\<close>

lemma pow2_cases:
  assumes "0 \<le> sint a"
  shows "pow2 a \<in> {1, 2, 4, 8} \<or> 16 \<le> pow2 a"
proof -
  obtain n where n: "pow2 a = 2 ^ n" using assms by (auto simp: pow2_def)
  consider "n = 0" | "n = 1" | "n = 2" | "n = 3" | "4 \<le> n" by linarith
  then show ?thesis
  proof cases
    case 5
    have "(2::rat) ^ 4 \<le> 2 ^ n" using 5 by (intro power_increasing) auto
    then show ?thesis by (simp add: n)
  qed (simp_all add: n)
qed

text \<open>The delays of the default strategy lie between one second and ten seconds, whatever the
  attempt and the random jitter; no overflow or negative delay can occur.\<close>

theorem Exponential_delay_bounds:
  assumes "0 \<le> sint attempt"
  shows "10 ^ 9 \<le> sint (fst (ExponentialStrategy_Duration rand_Intn Exponential attempt w)) \<and>
    sint (fst (ExponentialStrategy_Duration rand_Intn Exponential attempt w)) \<le> 10 ^ 10"
proof -
  obtain j w1 where j: "rand_Intn 250 w = (j, w1)" by fastforce
  define q where "q = pow2 attempt * 1000 + of_nat j"
  have "1 \<le> pow2 attempt" using pow2_cases [OF assms] by auto
  then have q: "1000 \<le> q" unfolding q_def by (simp add: add_increasing2)
  define m where "m = (if 10000 < q then 10000 else \<lfloor>q\<rfloor>)"
  have dur: "fst (ExponentialStrategy_Duration rand_Intn Exponential attempt w) = 1000000 * of_int m"
    using q unfolding m_def
    by (simp add: ExponentialStrategy_Duration_def Exponential_def j truncate_rat_def Millisecond_def Let_def q_def [symmetric])
  have m: "1000 \<le> m" "m \<le> 10000" using q by (simp_all add: m_def le_floor_iff floor_le_iff)
  then have "sint (of_int (1000000 * m) :: 64 word) = 1000000 * m"
    by (simp only: sint_sbintrunc', intro signed_take_bit_int_eq_self) simp_all
  then show ?thesis using m by (simp add: dur)
qed

text \<open>\<open>rpc.DialContext\<close> returns a client and an error, either of which may be nil; the closure
  given to \<open>Do\<close> stores the client in the variable \<open>ret\<close>.\<close>

type_synonym ('c, 'w) dialer = "string \<Rightarrow> 'w \<Rightarrow> ('c option \<times> error option) \<times> 'w"

definition dial_op :: "('c, 'w) dialer \<Rightarrow> string \<Rightarrow> ('w \<times> 'c option, unit) rpc" where
  "dial_op dial addr x =
     (case x of (w, rt) \<Rightarrow>
      case dial addr w of ((client, err), w1) \<Rightarrow>
        (case err of
           Some e \<Rightarrow> if client = None then (Err (Wrap (''failed to dial address '' @ addr) e), (w1, rt)) else (Ok (), (w1, client))
         | None \<Rightarrow> (Ok (), (w1, client))))"

definition on_fst :: "'w strategy \<Rightarrow> ('w \<times> 'c) strategy" where
  "on_fst strategy a x = (case strategy a (fst x) of (d, w) \<Rightarrow> (d, (w, snd x)))"

definition dialRPCClientWithBackoff ::
  "(nat \<Rightarrow> 'w \<Rightarrow> nat \<times> 'w) \<Rightarrow> (duration \<Rightarrow> 'w \<Rightarrow> 'w) \<Rightarrow> ('c, 'w) dialer \<Rightarrow> string \<Rightarrow> ('w, 'c option) rpc" where
  "dialRPCClientWithBackoff rand_Intn slp dial addr w =
     (case Do 10 (on_fst (ExponentialStrategy_Duration rand_Intn Exponential)) (\<lambda>d x. (slp d (fst x), snd x)) (dial_op dial addr) (w, None) of
        (Ok None, (w1, rt)) \<Rightarrow> (Ok rt, w1)
      | (Ok (Some e), (w1, rt)) \<Rightarrow> (Err (ErrMsg ''operation failed permanently''), w1)
      | (Err e, (w1, rt)) \<Rightarrow> (Err e, w1)
      | (Panic p, (w1, rt)) \<Rightarrow> (Panic p, w1)
      | (Diverge, (w1, rt)) \<Rightarrow> (Diverge, w1))"

text \<open>A dialer that returns a client or an error never leaves the node with a nil client: dialing gives up
  with an error or returns a client.\<close>

lemma dial_op_outcome:
  "fst (dial_op dial addr (w, rt)) = Ok () \<Longrightarrow> snd (snd (dial_op dial addr (w, rt))) = fst (fst (dial addr w))"
  "\<exists>e. fst (dial_op dial addr (w, rt)) = Ok () \<or> fst (dial_op dial addr (w, rt)) = Err e"
  by (auto simp: dial_op_def split: prod.splits option.splits if_splits)

lemma dial_result:
  assumes "\<And>w. fst (fst (dial addr w)) \<noteq> None \<or> snd (fst (dial addr w)) \<noteq> None"
  shows "\<exists>w'. (\<exists>c. dialRPCClientWithBackoff rand_Intn slp dial addr w = (Ok (Some c), w')) \<or>
    dialRPCClientWithBackoff rand_Intn slp dial addr w = (Err (ErrMsg ''operation failed permanently''), w')"
proof -
  let ?s = "on_fst (ExponentialStrategy_Duration rand_Intn Exponential)"
  let ?slp = "\<lambda>d x. (slp d (fst x), snd x)" and ?op = "dial_op dial addr"
  obtain n where "Do 10 ?s ?slp ?op (w, None) = (case ?op (before_attempt ?s ?slp ?op (w, None) n) of (r, w') \<Rightarrow> (stop_result r 10, w'))"
    using Do_loop_attempts [of 0 10 ?op ?s ?slp "(w, None)"] by (auto simp: Do_def attempts_allowed_def)
  moreover obtain w0 rt where "before_attempt ?s ?slp ?op (w, None) n = (w0, rt)" by fastforce
  ultimately show ?thesis using assms [of w0]
    by (auto simp: dialRPCClientWithBackoff_def dial_op_def split: prod.splits option.splits if_splits)
qed

section \<open>Limiting concurrent requests (request_sema.go)\<close>

text \<open>The state of a \<open>limitClient\<close>: how many tokens the channel \<open>sema\<close> holds and its capacity, the counter of the
  wait group, the calls that entered so far, each with the point it has reached, and the progress of \<open>Close\<close>.
  \<open>BatchCallContext\<close> and \<open>CallContext\<close> have the same body around the wrapped client, so a call has no kind.
  \<open>lc_before\<close> remembers how many calls had entered when \<open>wg.Wait\<close> returned.\<close>

datatype call_point = Entered | Inside | Released | Returned | SendPanic

datatype close_point = NotClosed | WaitPassed | SemaClosed | ClientClosed

record limitClient =
  lc_sema :: nat
  lc_cap :: nat
  lc_wg :: nat
  lc_calls :: "call_point list"
  lc_close :: close_point
  lc_before :: nat

definition LimitRPC :: "nat \<Rightarrow> limitClient" where
  "LimitRPC concurrentRequests = \<lparr>lc_sema = 0, lc_cap = concurrentRequests, lc_wg = 0, lc_calls = [], lc_close = NotClosed, lc_before = 0\<rparr>"

definition sema_open :: "limitClient \<Rightarrow> bool" where
  "sema_open s \<longleftrightarrow> lc_close s = NotClosed \<or> lc_close s = WaitPassed"

text \<open>Each step is one action of one goroutine. A send on the closed channel panics, and the deferred
  \<open>wg.Done\<close> still runs. \<open>Close\<close> waits for the counter to be zero, closes the channel, then the wrapped client.\<close>

inductive limit_step :: "limitClient \<Rightarrow> limitClient \<Rightarrow> bool" where
  enter: "limit_step s (s\<lparr>lc_wg := lc_wg s + 1, lc_calls := lc_calls s @ [Entered]\<rparr>)"
| acquire: "i < length (lc_calls s) \<Longrightarrow> lc_calls s ! i = Entered \<Longrightarrow> sema_open s \<Longrightarrow> lc_sema s < lc_cap s \<Longrightarrow>
    limit_step s (s\<lparr>lc_sema := lc_sema s + 1, lc_calls := (lc_calls s)[i := Inside]\<rparr>)"
| send_closed: "i < length (lc_calls s) \<Longrightarrow> lc_calls s ! i = Entered \<Longrightarrow> \<not> sema_open s \<Longrightarrow>
    limit_step s (s\<lparr>lc_wg := lc_wg s - 1, lc_calls := (lc_calls s)[i := SendPanic]\<rparr>)"
| release: "i < length (lc_calls s) \<Longrightarrow> lc_calls s ! i = Inside \<Longrightarrow>
    limit_step s (s\<lparr>lc_sema := lc_sema s - 1, lc_calls := (lc_calls s)[i := Released]\<rparr>)"
| leave: "i < length (lc_calls s) \<Longrightarrow> lc_calls s ! i = Released \<Longrightarrow>
    limit_step s (s\<lparr>lc_wg := lc_wg s - 1, lc_calls := (lc_calls s)[i := Returned]\<rparr>)"
| wait: "lc_close s = NotClosed \<Longrightarrow> lc_wg s = 0 \<Longrightarrow>
    limit_step s (s\<lparr>lc_close := WaitPassed, lc_before := length (lc_calls s)\<rparr>)"
| close_sema: "lc_close s = WaitPassed \<Longrightarrow> limit_step s (s\<lparr>lc_close := SemaClosed\<rparr>)"
| close_client: "lc_close s = SemaClosed \<Longrightarrow> limit_step s (s\<lparr>lc_close := ClientClosed\<rparr>)"

inductive_cases limit_stepE: "limit_step s t"

abbreviation at_point :: "limitClient \<Rightarrow> call_point set \<Rightarrow> nat" where
  "at_point s P \<equiv> length (filter (\<lambda>c. c \<in> P) (lc_calls s))"

abbreviation active :: "call_point set" where
  "active \<equiv> {Entered, Inside, Released}"

definition limit_inv :: "nat \<Rightarrow> limitClient \<Rightarrow> bool" where
  "limit_inv n s \<longleftrightarrow> lc_cap s = n \<and> lc_sema s = at_point s {Inside} \<and> lc_sema s \<le> n \<and> lc_wg s = at_point s active \<and>
     lc_before s \<le> length (lc_calls s) \<and>
     (\<forall>i<lc_before s. lc_calls s ! i \<notin> active) \<and> (lc_close s = NotClosed \<longrightarrow> lc_before s = 0)"

lemma length_filter_update:
  "i < length xs \<Longrightarrow> length (filter P (xs[i := v])) + (if P (xs ! i) then 1 else 0) = length (filter P xs) + (if P v then 1 else 0)"
proof (induction xs arbitrary: i)
  case (Cons x xs)
  then show ?case by (cases i) (auto split: if_splits)
qed simp

lemma no_active:
  "length (filter (\<lambda>c. c \<in> active) xs) = 0 \<Longrightarrow> i < length xs \<Longrightarrow> xs ! i \<notin> active"
  by (auto simp: filter_empty_conv dest: nth_mem)

lemma at_point_pos: "i < length (lc_calls s) \<Longrightarrow> lc_calls s ! i \<in> P \<Longrightarrow> 0 < at_point s P"
  by (auto simp: filter_empty_conv dest: nth_mem)

lemma limit_inv_update:
  assumes "limit_inv n s" and "i < length (lc_calls s)" and "lc_calls s ! i \<in> active"
    and "sm + (if lc_calls s ! i = Inside then 1 else 0) = lc_sema s + (if c = Inside then 1 else 0)" and "sm \<le> n"
    and "wg + 1 = lc_wg s + (if c \<in> active then 1 else 0)"
  shows "limit_inv n (s\<lparr>lc_sema := sm, lc_wg := wg, lc_calls := (lc_calls s)[i := c]\<rparr>)"
proof -
  have "\<not> i < lc_before s" using assms(1,3) by (auto simp: limit_inv_def)
  then show ?thesis
    using assms length_filter_update [OF assms(2), of "\<lambda>x. x \<in> {Inside}" c] length_filter_update [OF assms(2), of "\<lambda>x. x \<in> active" c]
    by (auto simp: limit_inv_def nth_list_update split: if_splits)
qed

lemma limit_step_inv: "limit_inv n s \<Longrightarrow> limit_step s t \<Longrightarrow> limit_inv n t"
proof (erule limit_stepE, goal_cases)
  case 1
  then show ?case by (auto simp: limit_inv_def nth_append)
next
  case (2 i)
  then show ?case using limit_inv_update [of n s i "lc_sema s + 1" Inside "lc_wg s"] by (auto simp: limit_inv_def)
next
  case (3 i)
  then have "0 < lc_wg s" using at_point_pos [of i s active] by (simp add: limit_inv_def)
  with 3 show ?case using limit_inv_update [of n s i "lc_sema s" SendPanic "lc_wg s - 1"] by (auto simp: limit_inv_def)
next
  case (4 i)
  then have "0 < lc_sema s" using at_point_pos [of i s "{Inside}"] by (simp add: limit_inv_def)
  with 4 show ?case using limit_inv_update [of n s i "lc_sema s - 1" Released "lc_wg s"] by (auto simp: limit_inv_def)
next
  case (5 i)
  then have "0 < lc_wg s" using at_point_pos [of i s active] by (simp add: limit_inv_def)
  with 5 show ?case using limit_inv_update [of n s i "lc_sema s" Returned "lc_wg s - 1"] by (auto simp: limit_inv_def)
next
  case 6
  then have "\<forall>i<length (lc_calls s). lc_calls s ! i \<notin> active" using no_active [of "lc_calls s"] by (simp add: limit_inv_def)
  with 6 show ?case by (simp add: limit_inv_def)
qed (auto simp: limit_inv_def)

interpretation limiter: step_invariant "\<lambda>s. s = LimitRPC n" limit_step "limit_inv n" for n
  by unfold_locales (simp add: limit_inv_def LimitRPC_def, rule limit_step_inv)

text \<open>C37: In every interleaving of calls and \<open>Close\<close>, at most \<open>concurrentRequests\<close> calls are inside the wrapped client at a
  time, and when \<open>Close\<close> goes on past \<open>wg.Wait\<close> every call that had entered before has finished.\<close>

theorem requests_limited:
  assumes "limit_step\<^sup>*\<^sup>* (LimitRPC n) s"
  shows "at_point s {Inside} \<le> n \<and> (lc_close s \<noteq> NotClosed \<longrightarrow> (\<forall>i<lc_before s. lc_calls s ! i \<in> {Returned, SendPanic}))"
proof -
  have inv: "limit_inv n s" using limiter.reachable_inv [OF refl assms] .
  then have "lc_calls s ! i \<in> {Returned, SendPanic}" if "i < lc_before s" for i
    using that by (cases "lc_calls s ! i") (auto simp: limit_inv_def)
  with inv show ?thesis by (auto simp: limit_inv_def)
qed

text \<open>With room for at least one request no call is ever stuck: while one is under way, some call can move on.\<close>

theorem requests_progress:
  assumes "limit_step\<^sup>*\<^sup>* (LimitRPC n) s" and "0 < n" and "0 < at_point s active"
  shows "\<exists>t i. limit_step s t \<and> i < length (lc_calls s) \<and> lc_calls t ! i \<noteq> lc_calls s ! i"
proof -
  have inv: "limit_inv n s" using limiter.reachable_inv [OF refl assms(1)] .
  have member: "\<exists>i<length (lc_calls s). lc_calls s ! i = c" if "c \<in> set (lc_calls s)" for c
    using that by (simp add: in_set_conv_nth)
  consider "Inside \<in> set (lc_calls s)" | "Released \<in> set (lc_calls s)" | "Entered \<in> set (lc_calls s)" "Inside \<notin> set (lc_calls s)"
    using assms(3) by (simp add: filter_empty_conv) blast
  then show ?thesis
  proof cases
    case 1
    with member obtain i where "i < length (lc_calls s)" "lc_calls s ! i = Inside" by blast
    with release [of i s] show ?thesis by (intro exI [of _ i] exI) (auto elim: back_subst)
  next
    case 2
    with member obtain i where "i < length (lc_calls s)" "lc_calls s ! i = Released" by blast
    with leave [of i s] show ?thesis by (intro exI [of _ i] exI) auto
  next
    case 3
    with member obtain i where i: "i < length (lc_calls s)" "lc_calls s ! i = Entered" by blast
    have "filter (\<lambda>c. c \<in> {Inside}) (lc_calls s) = []" using 3(2) by (auto simp: filter_empty_conv)
    then have "lc_sema s < lc_cap s" using inv assms(2) by (simp add: limit_inv_def)
    with i acquire [of i s] send_closed [of i s] show ?thesis
      by (cases "sema_open s") (fastforce intro: exI [of _ i])+
  qed
qed

section \<open>Head subscription (heads.go)\<close>

text \<open>What the \<open>select\<close> of the subscription picks next; an error of the subscription may be nil.\<close>

datatype head_event = HeadChange Header | SubErr "error option" | CtxDone error | Quit

definition head_signal :: "header_lib \<Rightarrow> Header \<Rightarrow> L1BlockRef" where
  "head_signal H header = \<lparr>l1_Hash = Header_Hash H header, l1_Number = of_int (h_Number header),
     l1_ParentHash = h_ParentHash header, l1_Time = h_Time header\<rparr>"

text \<open>\<open>None\<close>: the loop waits for the next event. \<open>Some err\<close>: the subscription has ended with \<open>err\<close>, and the
  underlying one is cancelled.\<close>

fun watch_heads :: "header_lib \<Rightarrow> (L1BlockRef \<Rightarrow> 'w \<Rightarrow> 'w) \<Rightarrow> ('w \<Rightarrow> 'w) \<Rightarrow> head_event list \<Rightarrow> 'w \<Rightarrow> error option option \<times> 'w" where
  "watch_heads H fn unsubscribe [] w = (None, w)"
| "watch_heads H fn unsubscribe (HeadChange header # es) w = watch_heads H fn unsubscribe es (fn (head_signal H header) w)"
| "watch_heads H fn unsubscribe (SubErr err # es) w = (Some err, unsubscribe w)"
| "watch_heads H fn unsubscribe (CtxDone err # es) w = (Some (Some err), unsubscribe w)"
| "watch_heads H fn unsubscribe (Quit # es) w = (Some None, unsubscribe w)"

definition WatchHeadChanges ::
  "header_lib \<Rightarrow> ('w, head_event list) rpc \<Rightarrow> (L1BlockRef \<Rightarrow> 'w \<Rightarrow> 'w) \<Rightarrow> ('w \<Rightarrow> 'w) \<Rightarrow> ('w, error option option) rpc" where
  "WatchHeadChanges H subscribeNewHead fn unsubscribe =
     rbind subscribeNewHead (\<lambda>es w. case watch_heads H fn unsubscribe es w of (r, w') \<Rightarrow> (Ok r, w'))"

text \<open>The headers up to the event that ends the subscription, in order, are exactly what is signalled.\<close>

fun is_head :: "head_event \<Rightarrow> bool" where
  "is_head (HeadChange h) \<longleftrightarrow> True"
| "is_head _ \<longleftrightarrow> False"

fun the_head :: "head_event \<Rightarrow> Header" where
  "the_head (HeadChange h) = h"
| "the_head _ = undefined"

lemma watch_heads_signals:
  "snd (watch_heads H (\<lambda>s sigs. sigs @ [s]) (\<lambda>w. w) es sigs) = sigs @ map (head_signal H \<circ> the_head) (takeWhile is_head es)"
  by (induction H "\<lambda>(s::L1BlockRef) sigs. sigs @ [s]" "\<lambda>(w::L1BlockRef list). w" es sigs rule: watch_heads.induct) auto

text \<open>The signals meet what the driver's event loop expects of L1 heads: they name the parent of their block.\<close>

lemma head_signal_ok:
  assumes "parent_of H hs par" and "h \<in> hs"
  shows "head_ok par (head_signal H h)"
  using assms by (simp add: parent_of_def head_ok_def head_signal_def)

section \<open>Concrete runs\<close>

theorem Do_attempts_witness:
  "Do 3 (FixedStrategy_Duration 5) (\<lambda>d w. w) (\<lambda>w. (Err NotFound, w + 1)) (0::nat) =
     (Ok (Some \<lparr>ef_attempts = 3, ef_LastErr = NotFound\<rparr>), 3)"
proof -
  let ?op = "\<lambda>w::nat. (Err NotFound :: unit res, w + 1)"
  have fails: "fails ?op w" for w by (simp add: fails_def)
  have three: "attempts_allowed 3 = 3" by (simp add: attempts_allowed_def)
  obtain n where "Suc n = 3" and "Do 3 (FixedStrategy_Duration 5) (\<lambda>d w. w) ?op 0 =
      (case ?op (before_attempt (FixedStrategy_Duration 5) (\<lambda>d w. w) ?op 0 n) of (r, w') \<Rightarrow> (stop_result r 3, w'))"
    using Do_attempts [of 3 ?op "FixedStrategy_Duration 5" "\<lambda>d w. w" 0] fails unfolding three by blast
  then show ?thesis by (simp add: numeral_3_eq_3 FixedStrategy_Duration_def)
qed

theorem Exponential_delay_bounds_witness:
  "10 ^ 9 \<le> sint (fst (ExponentialStrategy_Duration (\<lambda>n w. (17, w)) Exponential 3 ()))"
  using Exponential_delay_bounds [of 3 "\<lambda>n w. (17, w)" "()"] by simp

lemma demo_limited:
  "limit_step\<^sup>*\<^sup>* (LimitRPC 1) ((LimitRPC 1)\<lparr>lc_sema := 1, lc_wg := 2, lc_calls := [Inside, Entered]\<rparr>)" (is "rtranclp _ _ ?s")
proof -
  let ?a = "(LimitRPC 1)\<lparr>lc_wg := 1, lc_calls := [Entered]\<rparr>"
  let ?b = "(LimitRPC 1)\<lparr>lc_sema := 1, lc_wg := 1, lc_calls := [Inside]\<rparr>"
  have "limit_step (LimitRPC 1) ?a" using enter [of "LimitRPC 1"] by (simp add: LimitRPC_def)
  moreover have "limit_step ?a ?b" using acquire [of 0 ?a] by (simp add: LimitRPC_def sema_open_def)
  moreover have "limit_step ?b ?s" using enter [of ?b] by (simp add: LimitRPC_def numeral_2_eq_2)
  ultimately show ?thesis by (meson converse_rtranclp_into_rtranclp rtranclp.rtrancl_refl)
qed

theorem requests_limited_witness:
  "\<exists>s. limit_step\<^sup>*\<^sup>* (LimitRPC 1) s \<and> lc_calls s = [Inside, Entered] \<and> at_point s {Inside} \<le> 1"
  using requests_limited [OF demo_limited] demo_limited by (intro exI [of _ "(LimitRPC 1)\<lparr>lc_sema := 1, lc_wg := 2, lc_calls := [Inside, Entered]\<rparr>"]) simp

end
