(* ===== verification/P2PConfig.thy ===== *)
theory P2PConfig
  imports Gossip Plumbing
begin

text \<open>
  Configuration of the p2p stack from the command line (\<open>op-node/p2p/config.go\<close>): ports, addresses, boot
  nodes, static peers, multiplexers, transport security, peer limits, and the network key, which is generated
  and stored when there is none. The flags are a record of their values. Files are a map from paths to contents;
  parsing of IPs, node records, multi-addresses and keys and the databases are outside the
  repository and are parameters. Strings are ASCII.
\<close>

section \<open>Strings (packages strings and encoding/hex)\<close>

fun split_comma :: "string \<Rightarrow> string list" where
  "split_comma [] = [[]]"
| "split_comma (c # cs) = (if c = CHR '','' then [] # split_comma cs
     else (case split_comma cs of [] \<Rightarrow> [[c]] | s # ss \<Rightarrow> (c # s) # ss))"

definition is_space :: "char \<Rightarrow> bool" where
  "is_space c \<longleftrightarrow> of_char c \<in> {9, 10, 11, 12, 13, 32 :: nat}"

definition TrimSpace :: "string \<Rightarrow> string" where
  "TrimSpace s = rev (dropWhile is_space (rev (dropWhile is_space s)))"

definition ToLower :: "string \<Rightarrow> string" where
  "ToLower s = map (\<lambda>c. if (65::nat) \<le> of_char c \<and> of_char c \<le> (90::nat) then char_of (of_char c + (32::nat)) else c) s"

definition hex_digit :: "nat \<Rightarrow> char" where
  "hex_digit n = (if n < 10 then char_of (48 + n) else char_of (87 + n))"

definition EncodeToString :: "bytes \<Rightarrow> string" where
  "EncodeToString bs = concat (map (\<lambda>b. [hex_digit (unat b div 16), hex_digit (unat b mod 16)]) bs)"

definition fromHexChar :: "char \<Rightarrow> nat option" where
  "fromHexChar ch = (let c = (of_char ch :: nat) in
     if 48 \<le> c \<and> c \<le> 57 then Some (c - 48)
     else if 97 \<le> c \<and> c \<le> 102 then Some (c - 87)
     else if 65 \<le> c \<and> c \<le> 70 then Some (c - 55)
     else None)"

fun DecodeString :: "string \<Rightarrow> bytes option" where
  "DecodeString [] = Some []"
| "DecodeString [c] = None"
| "DecodeString (c # d # cs) =
     (case (fromHexChar c, fromHexChar d, DecodeString cs) of
        (Some a, Some b, Some bs) \<Rightarrow> Some (of_nat (16 * a + b) # bs)
      | _ \<Rightarrow> None)"

section \<open>Flags, libraries and configuration\<close>

record p2p_flags =
  f_DisableP2P :: bool
  f_NoDiscovery :: bool
  f_P2PPrivPath :: string
  f_P2PPrivRaw :: string
  f_ListenIP :: string
  f_ListenTCPPort :: u64
  f_ListenUDPPort :: u64
  f_AdvertiseIP :: string
  f_AdvertiseTCPPort :: u64
  f_AdvertiseUDPPort :: u64
  f_Bootnodes :: string
  f_StaticPeers :: string
  f_HostMux :: string
  f_HostSecurity :: string
  f_PeersLo :: u64
  f_PeersHi :: u64
  f_PeersGrace :: duration
  f_NAT :: bool
  f_UserAgent :: string
  f_TimeoutNegotiation :: duration
  f_TimeoutAccept :: duration
  f_TimeoutDial :: duration
  f_PeerstorePath :: string
  f_DiscoveryPath :: string

text \<open>\<open>'k\<close> are keys, \<open>'n\<close> node records, \<open>'a\<close> multi-addresses, \<open>'h\<close> handles of databases; \<open>'r\<close> is the state of
  the random generator and of the databases.\<close>

type_synonym ip = bytes

record ('k, 'n, 'a, 'h, 'r) config_lib =
  net_ParseIP :: "string \<Rightarrow> ip option"
  enode_OpenDB :: "string \<Rightarrow> 'r \<Rightarrow> (error + 'h) \<times> 'r"
  enode_Parse :: "string \<Rightarrow> error + 'n"
  multiaddr_New :: "string \<Rightarrow> error + 'a"
  NewMapDatastore :: "'r \<Rightarrow> 'h \<times> 'r"
  leveldb_NewDatastore :: "string \<Rightarrow> 'r \<Rightarrow> (error + 'h) \<times> 'r"
  MuxerConstructor :: "string \<Rightarrow> error option"      \<comment> \<open>for the transport of this name\<close>
  SecurityConstructor :: "string \<Rightarrow> error option"
  noise_ID :: string
  tls_ID :: string
  GenerateSecp256k1Key :: "'r \<Rightarrow> (error + 'k) \<times> 'r"
  key_Raw :: "'k \<Rightarrow> error + bytes"
  UnmarshalSecp256k1PrivateKey :: "bytes \<Rightarrow> error + 'k"

text \<open>Files, the errors other than a missing file that opening, creating and writing a path give, and the rest.\<close>

record 'r p2p_world =
  pw_files :: "string \<rightharpoonup> string"
  pw_open_err :: "string \<Rightarrow> error option"
  pw_create_err :: "string \<Rightarrow> error option"
  pw_write_err :: "string \<Rightarrow> error option"
  pw_ext :: 'r

record ('k, 'n, 'a, 'h) P2PConfig =
  pc_Priv :: "'k option"
  pc_DisableP2P :: bool
  pc_NoDiscovery :: bool
  pc_ListenIP :: "ip option"
  pc_ListenTCPPort :: "16 word"
  pc_ListenUDPPort :: "16 word"
  pc_AdvertiseIP :: "ip option"
  pc_AdvertiseTCPPort :: "16 word"
  pc_AdvertiseUDPPort :: "16 word"
  pc_Bootnodes :: "'n list"
  pc_DiscoveryDB :: "'h option"
  pc_StaticPeers :: "'a list"
  pc_HostMux :: "string list"          \<comment> \<open>the protocol ids\<close>
  pc_HostSecurity :: "string list"     \<comment> \<open>the protocol ids, empty for the zero value\<close>
  pc_NoTransportSecurity :: bool
  pc_PeersLo :: u64
  pc_PeersHi :: u64
  pc_PeersGrace :: duration
  pc_NAT :: bool
  pc_UserAgent :: string
  pc_TimeoutNegotiation :: duration
  pc_TimeoutAccept :: duration
  pc_TimeoutDial :: duration
  pc_Store :: "'h option"
  pc_ConnGater :: bool                 \<comment> \<open>whether the constructor is set\<close>
  pc_ConnMngr :: bool

definition P2PConfig_zero :: "('k, 'n, 'a, 'h) P2PConfig" where
  "P2PConfig_zero = \<lparr>pc_Priv = None, pc_DisableP2P = False, pc_NoDiscovery = False, pc_ListenIP = None, pc_ListenTCPPort = 0,
     pc_ListenUDPPort = 0, pc_AdvertiseIP = None, pc_AdvertiseTCPPort = 0, pc_AdvertiseUDPPort = 0, pc_Bootnodes = [],
     pc_DiscoveryDB = None, pc_StaticPeers = [], pc_HostMux = [], pc_HostSecurity = [], pc_NoTransportSecurity = False,
     pc_PeersLo = 0, pc_PeersHi = 0, pc_PeersGrace = 0, pc_NAT = False, pc_UserAgent = [], pc_TimeoutNegotiation = 0,
     pc_TimeoutAccept = 0, pc_TimeoutDial = 0, pc_Store = None, pc_ConnGater = False, pc_ConnMngr = False\<rparr>"

section \<open>Loading\<close>

definition validatePort :: "u64 \<Rightarrow> error + 16 word" where
  "validatePort p =
     (if p = 0 then Inr 0
      else if p \<ge> 2 ^ 16 then Inl (ErrMsg ''port out of range'')
      else if p < 1024 then Inl (ErrMsg ''port is reserved for system'')
      else Inr (ucast p))"

text \<open>An optional IP: the flag is empty, or it must parse.\<close>

definition load_ip :: "('k, 'n, 'a, 'h, 'r) config_lib \<Rightarrow> string \<Rightarrow> ip option res" where
  "load_ip L s = (if s = [] then Ok None
     else (case net_ParseIP L s of None \<Rightarrow> Err (ErrMsg ''failed to parse IP'') | Some a \<Rightarrow> Ok (Some a)))"

definition load_port :: "string \<Rightarrow> u64 \<Rightarrow> (16 word) res" where
  "load_port m p = map_err (\<lambda>e. ErrMsg m) (of_sum (validatePort p))"

definition loadListenOpts :: "('k, 'n, 'a, 'h, 'r) config_lib \<Rightarrow> p2p_flags \<Rightarrow> ('k, 'n, 'a, 'h) P2PConfig \<Rightarrow> ('k, 'n, 'a, 'h) P2PConfig res" where
  "loadListenOpts L ctx conf =
     bind_res (load_ip L (f_ListenIP ctx)) (\<lambda>a.
     bind_res (load_port ''bad listen TCP port'' (f_ListenTCPPort ctx)) (\<lambda>tcp.
     bind_res (load_port ''bad listen UDP port'' (f_ListenUDPPort ctx)) (\<lambda>udp.
     Ok (conf\<lparr>pc_ListenIP := a, pc_ListenTCPPort := tcp, pc_ListenUDPPort := udp\<rparr>))))"

text \<open>The loops over boot nodes and static peers: trimmed, empty entries skipped, the first bad one is an error.\<close>

fun parse_entries :: "(string \<Rightarrow> error + 'x) \<Rightarrow> string \<Rightarrow> string list \<Rightarrow> 'x list res" where
  "parse_entries parse m [] = Ok []"
| "parse_entries parse m (s # ss) =
     (let s' = TrimSpace s in
      if s' = [] then parse_entries parse m ss
      else (case parse s' of
          Inl e \<Rightarrow> Err (ErrMsg m)
        | Inr x \<Rightarrow> bind_res (parse_entries parse m ss) (\<lambda>xs. Ok (x # xs))))"

definition discovery_path :: "string \<Rightarrow> string" where
  "discovery_path p = (let dbPath = (if p = [] then ''opnode_discovery_db'' else p) in if dbPath = ''memory'' then [] else dbPath)"

definition loadDiscoveryOpts ::
  "('k, 'n, 'a, 'h, 'r) config_lib \<Rightarrow> p2p_flags \<Rightarrow> ('k, 'n, 'a, 'h) P2PConfig \<Rightarrow> ('r p2p_world, ('k, 'n, 'a, 'h) P2PConfig) rpc" where
  "loadDiscoveryOpts L ctx conf w =
     (let conf1 = (if f_NoDiscovery ctx then conf\<lparr>pc_NoDiscovery := True\<rparr> else conf) in
      rbind (lift_res (load_port ''bad advertised TCP port'' (f_AdvertiseTCPPort ctx))) (\<lambda>tcp.
      rbind (lift_res (load_port ''bad advertised UDP port'' (f_AdvertiseUDPPort ctx))) (\<lambda>udp.
      rbind (lift_res (load_ip L (f_AdvertiseIP ctx))) (\<lambda>a.
      rbind (\<lambda>w. case enode_OpenDB L (discovery_path (f_DiscoveryPath ctx)) (pw_ext w) of
                 (r, x) \<Rightarrow> (map_err (\<lambda>e. ErrMsg ''failed to open discovery db'') (of_sum r), w\<lparr>pw_ext := x\<rparr>)) (\<lambda>db.
      rbind (lift_res (parse_entries (enode_Parse L) ''bootnode record is invalid'' (split_comma (f_Bootnodes ctx)))) (\<lambda>nodes.
      ret (conf1\<lparr>pc_AdvertiseTCPPort := tcp, pc_AdvertiseUDPPort := udp, pc_AdvertiseIP := a, pc_DiscoveryDB := Some db,
                 pc_Bootnodes := pc_Bootnodes conf1 @ nodes\<rparr>)))))) w)"

definition yamuxC :: "('k, 'n, 'a, 'h, 'r) config_lib \<Rightarrow> error + string" where
  "yamuxC L = (case MuxerConstructor L ''yamux'' of Some e \<Rightarrow> Inl e | None \<Rightarrow> Inr ''/yamux/1.0.0'')"

definition mplexC :: "('k, 'n, 'a, 'h, 'r) config_lib \<Rightarrow> error + string" where
  "mplexC L = (case MuxerConstructor L ''mplex'' of Some e \<Rightarrow> Inl e | None \<Rightarrow> Inr ''/mplex/6.7.0'')"

definition noiseC :: "('k, 'n, 'a, 'h, 'r) config_lib \<Rightarrow> error + string" where
  "noiseC L = (case SecurityConstructor L ''noise'' of Some e \<Rightarrow> Inl e | None \<Rightarrow> Inr (noise_ID L))"

definition tlsC :: "('k, 'n, 'a, 'h, 'r) config_lib \<Rightarrow> error + string" where
  "tlsC L = (case SecurityConstructor L ''tls'' of Some e \<Rightarrow> Inl e | None \<Rightarrow> Inr (tls_ID L))"

abbreviation norm :: "string \<Rightarrow> string" where
  "norm v \<equiv> ToLower (TrimSpace v)"

fun load_mux :: "('k, 'n, 'a, 'h, 'r) config_lib \<Rightarrow> string list \<Rightarrow> ('k, 'n, 'a, 'h) P2PConfig \<Rightarrow> ('k, 'n, 'a, 'h) P2PConfig res" where
  "load_mux L [] conf = Ok conf"
| "load_mux L (v # vs) conf =
     bind_res (if norm v = ''yamux'' then map_err (\<lambda>e. ErrMsg ''failed to make constructor'') (of_sum (yamuxC L))
               else if norm v = ''mplex'' then map_err (\<lambda>e. ErrMsg ''failed to make constructor'') (of_sum (mplexC L))
               else Err (ErrMsg ''could not recognize mux'')) (\<lambda>mc.
     load_mux L vs (conf\<lparr>pc_HostMux := pc_HostMux conf @ [mc]\<rparr>))"

text \<open>\<open>n\<close> is the number of entries of the flag. \<open>none\<close> appends the zero value of the transport.\<close>

fun load_security :: "('k, 'n, 'a, 'h, 'r) config_lib \<Rightarrow> nat \<Rightarrow> string list \<Rightarrow> ('k, 'n, 'a, 'h) P2PConfig \<Rightarrow> ('k, 'n, 'a, 'h) P2PConfig res" where
  "load_security L n [] conf = Ok conf"
| "load_security L n (v # vs) conf =
     (if norm v = ''none'' then
        if pc_HostSecurity conf \<noteq> [] \<or> n > 1 then Err (ErrMsg ''cannot mix secure transport protocols with no-security'')
        else load_security L n vs (conf\<lparr>pc_NoTransportSecurity := True, pc_HostSecurity := pc_HostSecurity conf @ [[]]\<rparr>)
      else
        bind_res (if norm v = ''noise'' then map_err (\<lambda>e. ErrMsg ''failed to make constructor'') (of_sum (noiseC L))
                  else if norm v = ''tls'' then map_err (\<lambda>e. ErrMsg ''failed to make constructor'') (of_sum (tlsC L))
                  else Err (ErrMsg ''could not recognize security'')) (\<lambda>sc.
        load_security L n vs (conf\<lparr>pc_HostSecurity := pc_HostSecurity conf @ [sc]\<rparr>)))"

definition load_options :: "p2p_flags \<Rightarrow> ('k, 'n, 'a, 'h) P2PConfig \<Rightarrow> ('k, 'n, 'a, 'h) P2PConfig" where
  "load_options ctx conf = conf\<lparr>pc_PeersLo := f_PeersLo ctx, pc_PeersHi := f_PeersHi ctx, pc_PeersGrace := f_PeersGrace ctx,
     pc_NAT := f_NAT ctx, pc_UserAgent := f_UserAgent ctx, pc_TimeoutNegotiation := f_TimeoutNegotiation ctx,
     pc_TimeoutAccept := f_TimeoutAccept ctx, pc_TimeoutDial := f_TimeoutDial ctx\<rparr>"

definition open_store :: "('k, 'n, 'a, 'h, 'r) config_lib \<Rightarrow> string \<Rightarrow> ('r p2p_world, 'h) rpc" where
  "open_store L path w =
     (if path = [] then (Err (ErrMsg ''peerstore path must be specified''), w)
      else if path = ''memory'' then (case NewMapDatastore L (pw_ext w) of (h, x) \<Rightarrow> (Ok h, w\<lparr>pw_ext := x\<rparr>))
      else (case leveldb_NewDatastore L path (pw_ext w) of
          (r, x) \<Rightarrow> (map_err (\<lambda>e. ErrMsg ''failed to open leveldb db for peerstore'') (of_sum r), w\<lparr>pw_ext := x\<rparr>)))"

definition loadLibp2pOpts ::
  "('k, 'n, 'a, 'h, 'r) config_lib \<Rightarrow> p2p_flags \<Rightarrow> ('k, 'n, 'a, 'h) P2PConfig \<Rightarrow> ('r p2p_world, ('k, 'n, 'a, 'h) P2PConfig) rpc" where
  "loadLibp2pOpts L ctx conf =
     rbind (lift_res (parse_entries (multiaddr_New L) ''failed to parse multi addr of static peer'' (split_comma (f_StaticPeers ctx)))) (\<lambda>peers.
     rbind (lift_res (load_mux L (split_comma (f_HostMux ctx)) (conf\<lparr>pc_StaticPeers := pc_StaticPeers conf @ peers\<rparr>))) (\<lambda>conf1.
     let secArr = split_comma (f_HostSecurity ctx) in
     rbind (lift_res (load_security L (length secArr) secArr conf1)) (\<lambda>conf2.
     let conf3 = load_options ctx conf2 in
     rbind (open_store L (f_PeerstorePath ctx)) (\<lambda>store.
     ret (conf3\<lparr>pc_Store := Some store\<rparr>)))))"

definition parsePriv :: "('k, 'n, 'a, 'h, 'r) config_lib \<Rightarrow> string \<Rightarrow> 'k res" where
  "parsePriv L data =
     (let data' = (if length data > 2 \<and> take 2 data = ''0x'' then drop 2 data else data) in
      case DecodeString data' of
        None \<Rightarrow> Err (ErrMsg ''p2p priv key is not formatted in hex chars'')
      | Some b \<Rightarrow> map_err (\<lambda>e. ErrMsg ''failed to parse priv key'') (of_sum (UnmarshalSecp256k1PrivateKey L b)))"

text \<open>A missing key file is created with a new key; a failing write leaves it behind empty.\<close>

definition store_new_key :: "('k, 'n, 'a, 'h, 'r) config_lib \<Rightarrow> string \<Rightarrow> ('r p2p_world, 'k) rpc" where
  "store_new_key L keyPath w =
     (case GenerateSecp256k1Key L (pw_ext w) of
        (Inl e, x) \<Rightarrow> (Err (ErrMsg ''failed to generate new p2p priv key''), w\<lparr>pw_ext := x\<rparr>)
      | (Inr p, x) \<Rightarrow>
          (let w1 = w\<lparr>pw_ext := x\<rparr> in
           case key_Raw L p of
             Inl e \<Rightarrow> (Err (ErrMsg ''failed to encode new p2p priv key''), w1)
           | Inr b \<Rightarrow>
               (case pw_create_err w1 keyPath of
                  Some e \<Rightarrow> (Err (ErrMsg ''failed to store new p2p priv key''), w1)
                | None \<Rightarrow>
                    (case pw_write_err w1 keyPath of
                       Some e \<Rightarrow> (Err (ErrMsg ''failed to write new p2p priv key''), w1\<lparr>pw_files := (pw_files w1)(keyPath \<mapsto> [])\<rparr>)
                     | None \<Rightarrow> (Ok p, w1\<lparr>pw_files := (pw_files w1)(keyPath \<mapsto> EncodeToString b)\<rparr>)))))"

definition loadNetworkPrivKey :: "('k, 'n, 'a, 'h, 'r) config_lib \<Rightarrow> p2p_flags \<Rightarrow> ('r p2p_world, 'k) rpc" where
  "loadNetworkPrivKey L ctx w =
     (if f_P2PPrivRaw ctx \<noteq> [] then (parsePriv L (f_P2PPrivRaw ctx), w)
      else let keyPath = f_P2PPrivPath ctx in
        (case pw_open_err w keyPath of
           Some e \<Rightarrow> (Err (ErrMsg ''failed to read priv key file''), w)
         | None \<Rightarrow>
             (case pw_files w keyPath of
                None \<Rightarrow> store_new_key L keyPath w
              | Some data \<Rightarrow> (parsePriv L (TrimSpace data), w))))"

definition NewConfig :: "('k, 'n, 'a, 'h, 'r) config_lib \<Rightarrow> p2p_flags \<Rightarrow> ('r p2p_world, ('k, 'n, 'a, 'h) P2PConfig) rpc" where
  "NewConfig L ctx =
     (if f_DisableP2P ctx then ret (P2PConfig_zero\<lparr>pc_DisableP2P := True\<rparr>)
      else
        rbind (rmap_err (\<lambda>e. ErrMsg ''failed to load p2p priv key'') (loadNetworkPrivKey L ctx)) (\<lambda>p.
        rbind (rmap_err (\<lambda>e. ErrMsg ''failed to load p2p listen options'')
                 (lift_res (loadListenOpts L ctx (P2PConfig_zero\<lparr>pc_Priv := Some p\<rparr>)))) (\<lambda>conf1.
        rbind (rmap_err (\<lambda>e. ErrMsg ''failed to load p2p discovery options'') (loadDiscoveryOpts L ctx conf1)) (\<lambda>conf2.
        rbind (rmap_err (\<lambda>e. ErrMsg ''failed to load p2p options'') (loadLibp2pOpts L ctx conf2)) (\<lambda>conf3.
        ret (conf3\<lparr>pc_ConnGater := True, pc_ConnMngr := True\<rparr>))))))"

definition TargetPeers :: "('k, 'n, 'a, 'h) P2PConfig \<Rightarrow> u64" where
  "TargetPeers conf = pc_PeersLo conf"

definition P2PConfig_Check :: "('k, 'n, 'a, 'h) P2PConfig \<Rightarrow> unit res" where
  "P2PConfig_Check conf =
     (if pc_DisableP2P conf then Ok ()
      else if pc_Store conf = None then Err (ErrMsg ''p2p requires a persistent or in-memory peerstore, but found none'')
      else if \<not> pc_NoDiscovery conf \<and> pc_DiscoveryDB conf = None
        then Err (ErrMsg ''discovery requires a persistent or in-memory discv5 db, but found none'')
      else if pc_PeersLo conf = 0 \<or> pc_PeersHi conf = 0 \<or> pc_PeersLo conf > pc_PeersHi conf
        then Err (ErrMsg ''peers lo/hi tides are invalid'')
      else if \<not> pc_ConnMngr conf then Err (ErrMsg ''need a connection manager'')
      else if \<not> pc_ConnGater conf then Err (ErrMsg ''need a connection gater'')
      else Ok ())"

section \<open>The network key survives a restart\<close>

definition is_hex :: "char \<Rightarrow> bool" where
  "is_hex c \<longleftrightarrow> fromHexChar c \<noteq> None"

lemma hex_digit_16: "n < 16 \<Longrightarrow> fromHexChar (hex_digit n) = Some n"
  by (auto simp: fromHexChar_def hex_digit_def Let_def)

lemma EncodeToString_Nil [simp]: "EncodeToString [] = []"
  by (simp add: EncodeToString_def)

lemma EncodeToString_Cons [simp]: "EncodeToString (b # bs) = hex_digit (unat b div 16) # hex_digit (unat b mod 16) # EncodeToString bs"
  by (simp add: EncodeToString_def)

lemma unat_byte_less: "unat (b::byte) < 256"
  using unsigned_less [of b, where ?'a = nat] by simp

lemma byte_digits: "unat (b::byte) div 16 < 16" "unat (b::byte) mod 16 < 16"
  using unat_byte_less [of b] by (simp_all add: less_mult_imp_div_less)

lemma DecodeString_EncodeToString: "DecodeString (EncodeToString bs) = Some bs"
proof (induction bs)
  case (Cons b bs)
  have "of_nat (16 * (unat b div 16) + unat b mod 16) = b" by (simp only: mult_div_mod_eq) simp
  with Cons show ?case by (simp add: hex_digit_16 byte_digits)
qed simp

lemma EncodeToString_hex: "c \<in> set (EncodeToString bs) \<Longrightarrow> is_hex c"
  by (induction bs) (auto simp: is_hex_def hex_digit_16 byte_digits)

lemma hex_not_space: "is_hex c \<Longrightarrow> \<not> is_space c"
  by (auto simp: is_hex_def is_space_def fromHexChar_def Let_def split: if_splits)

lemma TrimSpace_hex: "(\<And>c. c \<in> set s \<Longrightarrow> is_hex c) \<Longrightarrow> TrimSpace s = s"
proof -
  assume hex: "\<And>c. c \<in> set s \<Longrightarrow> is_hex c"
  have "dropWhile is_space t = t" if "set t \<subseteq> set s" for t
    using that hex hex_not_space by (cases t) auto
  from this [of s] this [of "rev s"] show ?thesis by (simp add: TrimSpace_def)
qed

lemma hex_no_prefix: "(\<And>c. c \<in> set s \<Longrightarrow> is_hex c) \<Longrightarrow> 2 < length s \<Longrightarrow> take 2 s \<noteq> ''0x''"
proof
  assume hex: "\<And>c. c \<in> set s \<Longrightarrow> is_hex c" and "take 2 s = ''0x''"
  then have "CHR ''x'' \<in> set s" using set_take_subset [of 2 s] by auto
  from hex [OF this] show False by (simp add: is_hex_def fromHexChar_def)
qed

lemma parsePriv_encoded: "parsePriv L (TrimSpace (EncodeToString b)) = map_err (\<lambda>e. ErrMsg ''failed to parse priv key'') (of_sum (UnmarshalSecp256k1PrivateKey L b))"
proof -
  have hex: "\<And>c. c \<in> set (EncodeToString b) \<Longrightarrow> is_hex c" by (rule EncodeToString_hex)
  show ?thesis using hex_no_prefix [OF hex] by (auto simp: parsePriv_def TrimSpace_hex [OF hex] DecodeString_EncodeToString)
qed

definition key_codec_ok :: "('k, 'n, 'a, 'h, 'r) config_lib \<Rightarrow> bool" where
  "key_codec_ok L \<longleftrightarrow> (\<forall>k b. key_Raw L k = Inr b \<longrightarrow> UnmarshalSecp256k1PrivateKey L b = Inr k)"

text \<open>C36: The node keeps its network identity: whatever \<open>loadNetworkPrivKey\<close> returned when started without a key on the command line,
  a key read from the file or a new one, the next start with that file returns the same key and writes nothing.\<close>

theorem network_key_persists:
  assumes "f_P2PPrivRaw ctx = []" and "key_codec_ok L"
    and "loadNetworkPrivKey L ctx w = (Ok k, w1)"
    and "pw_files w2 (f_P2PPrivPath ctx) = pw_files w1 (f_P2PPrivPath ctx)" and "pw_open_err w2 (f_P2PPrivPath ctx) = None"
  shows "loadNetworkPrivKey L ctx w2 = (Ok k, w2)"
proof (cases "pw_files w (f_P2PPrivPath ctx)")
  case None
  with assms(1,3) have "store_new_key L (f_P2PPrivPath ctx) w = (Ok k, w1)"
    by (auto simp: loadNetworkPrivKey_def Let_def split: option.splits)
  then obtain b where "key_Raw L k = Inr b" "pw_files w1 (f_P2PPrivPath ctx) = Some (EncodeToString b)"
    by (auto simp: store_new_key_def Let_def split: prod.splits sum.splits option.splits)
  with assms show ?thesis by (simp add: loadNetworkPrivKey_def parsePriv_encoded of_sum_def key_codec_ok_def)
next
  case (Some data)
  with assms(1,3) have "parsePriv L (TrimSpace data) = Ok k" "w1 = w"
    by (auto simp: loadNetworkPrivKey_def Let_def split: option.splits)
  with Some assms show ?thesis by (simp add: loadNetworkPrivKey_def)
qed

section \<open>What a loaded configuration satisfies\<close>

lemma validatePort_Inr:
  assumes "validatePort p = Inr q"
  shows "unat q = unat p \<and> (q = 0 \<or> 1024 \<le> q)"
proof (cases "p = 0")
  case False
  with assms have p: "p < 2 ^ 16" "1024 \<le> p" "q = ucast p" by (auto simp: validatePort_def not_le not_less split: if_splits)
  then have "unat p < 2 ^ 16" by (simp add: word_less_nat_alt)
  then have "unat q = unat p" by (simp add: p(3) unsigned_ucast_eq take_bit_eq_mod)
  with p(2) show ?thesis by (simp add: word_le_nat_alt)
qed (use assms in \<open>simp add: validatePort_def\<close>)

lemma load_port_Ok: "load_port m p = Ok q \<Longrightarrow> unat q = unat p \<and> (q = 0 \<or> 1024 \<le> q)"
  using validatePort_Inr [of p q] by (auto simp: load_port_def of_sum_def split: sum.splits)

lemma load_security_Ok:
  assumes "load_security L n vs conf = Ok conf'"
  shows "\<exists>ss nts. conf' = conf\<lparr>pc_HostSecurity := pc_HostSecurity conf @ ss, pc_NoTransportSecurity := nts\<rparr> \<and> length ss = length vs \<and>
    (nts \<longleftrightarrow> pc_NoTransportSecurity conf \<or> ''none'' \<in> norm ` set vs) \<and> (''none'' \<in> norm ` set vs \<longrightarrow> n \<le> 1) \<and>
    (''none'' \<notin> norm ` set vs \<longrightarrow> set ss \<subseteq> {noise_ID L, tls_ID L})"
  using assms
proof (induction L n vs conf arbitrary: conf' rule: load_security.induct)
  case (1 L n conf)
  then show ?case by (intro exI [of _ "[]"] exI [of _ "pc_NoTransportSecurity conf"]) simp
next
  case (2 L n v vs conf)
  show ?case
  proof (cases "norm v = ''none''")
    case True
    with 2(3) have "pc_HostSecurity conf = []" "n \<le> 1"
      and "load_security L n vs (conf\<lparr>pc_NoTransportSecurity := True, pc_HostSecurity := pc_HostSecurity conf @ [[]]\<rparr>) = Ok conf'"
      by (auto split: if_splits)
    with 2(1) [OF True] True obtain ss where
      "conf' = conf\<lparr>pc_HostSecurity := pc_HostSecurity conf @ [[]] @ ss, pc_NoTransportSecurity := True\<rparr>" "length ss = length vs"
      by fastforce
    with True \<open>n \<le> 1\<close> show ?thesis by (intro exI [of _ "[] # ss"] exI [of _ True]) auto
  next
    case False
    with 2(3) obtain sc where sc: "sc \<in> {noise_ID L, tls_ID L}"
      and ls: "load_security L n vs (conf\<lparr>pc_HostSecurity := pc_HostSecurity conf @ [sc]\<rparr>) = Ok conf'"
      by (auto simp: res_simps noiseC_def tlsC_def of_sum_def split: if_splits option.splits)
    from 2(2) [OF False ls] show ?thesis
      apply (elim exE conjE)
      subgoal for ss nts
        using False sc by (intro exI [of _ "sc # ss"] exI [of _ nts]) simp
      done
  qed
qed

lemma load_mux_Ok:
  assumes "load_mux L vs conf = Ok conf'"
  shows "\<exists>ms. conf' = conf\<lparr>pc_HostMux := pc_HostMux conf @ ms\<rparr> \<and> length ms = length vs \<and> set ms \<subseteq> {''/yamux/1.0.0'', ''/mplex/6.7.0''}"
  using assms
proof (induction L vs conf arbitrary: conf' rule: load_mux.induct)
  case (1 L conf)
  then show ?case by (intro exI [of _ "[]"]) simp
next
  case (2 L v vs conf)
  then obtain mc where mc: "mc \<in> {''/yamux/1.0.0'', ''/mplex/6.7.0''}"
    and lm: "load_mux L vs (conf\<lparr>pc_HostMux := pc_HostMux conf @ [mc]\<rparr>) = Ok conf'"
    by (auto simp: res_simps yamuxC_def mplexC_def of_sum_def split: if_splits option.splits)
  from 2(1) [OF lm] show ?case
    apply (elim exE conjE)
    subgoal for ms
      using mc by (intro exI [of _ "mc # ms"]) simp
    done
qed

lemma split_comma_not_Nil [simp]: "split_comma s \<noteq> []"
  by (cases s) (auto split: list.splits)

text \<open>The stages of a successful \<open>NewConfig\<close>.\<close>

lemma NewConfig_stages:
  assumes "NewConfig L ctx w = (Ok conf, w')" and "\<not> f_DisableP2P ctx"
  obtains k w1 conf1 conf2 w2 conf3 where
    "loadListenOpts L ctx (P2PConfig_zero\<lparr>pc_Priv := Some k\<rparr>) = Ok conf1"
    "loadDiscoveryOpts L ctx conf1 w1 = (Ok conf2, w2)" "loadLibp2pOpts L ctx conf2 w2 = (Ok conf3, w')"
    "conf = conf3\<lparr>pc_ConnGater := True, pc_ConnMngr := True\<rparr>"
  using assms by (auto simp: NewConfig_def res_simps)

lemma loadListenOpts_Ok:
  assumes "loadListenOpts L ctx conf = Ok conf'"
  shows "\<exists>a tcp udp. conf' = conf\<lparr>pc_ListenIP := a, pc_ListenTCPPort := tcp, pc_ListenUDPPort := udp\<rparr> \<and>
    load_port ''bad listen TCP port'' (f_ListenTCPPort ctx) = Ok tcp \<and> load_port ''bad listen UDP port'' (f_ListenUDPPort ctx) = Ok udp"
  using assms by (auto simp: loadListenOpts_def res_simps)

lemma loadDiscoveryOpts_Ok:
  assumes "loadDiscoveryOpts L ctx conf w = (Ok conf', w')"
  shows "\<exists>a tcp udp db ns. conf' = (if f_NoDiscovery ctx then conf\<lparr>pc_NoDiscovery := True\<rparr> else conf)\<lparr>pc_AdvertiseTCPPort := tcp, pc_AdvertiseUDPPort := udp, pc_AdvertiseIP := a,
      pc_DiscoveryDB := Some db, pc_Bootnodes := ns\<rparr> \<and>
    load_port ''bad advertised TCP port'' (f_AdvertiseTCPPort ctx) = Ok tcp \<and> load_port ''bad advertised UDP port'' (f_AdvertiseUDPPort ctx) = Ok udp"
  using assms by (auto simp: loadDiscoveryOpts_def res_simps Let_def split del: if_split) (intro exI, rule refl)

lemma loadLibp2pOpts_Ok:
  assumes "loadLibp2pOpts L ctx conf w = (Ok conf', w')"
  shows "\<exists>peers conf1 conf2 store. load_mux L (split_comma (f_HostMux ctx)) (conf\<lparr>pc_StaticPeers := peers\<rparr>) = Ok conf1 \<and>
    load_security L (length (split_comma (f_HostSecurity ctx))) (split_comma (f_HostSecurity ctx)) conf1 = Ok conf2 \<and>
    conf' = (load_options ctx conf2)\<lparr>pc_Store := Some store\<rparr>"
  using assms by (auto simp: loadLibp2pOpts_def res_simps Let_def)

lemma none_alone:
  assumes "''none'' \<in> norm ` set vs \<longrightarrow> length vs \<le> 1" and "vs \<noteq> []"
  shows "''none'' \<in> norm ` set vs \<longleftrightarrow> map norm vs = [''none'']"
proof
  assume none: "''none'' \<in> norm ` set vs"
  with assms obtain v where "vs = [v]" by (cases vs) (auto simp: length_Suc_conv)
  with none show "map norm vs = [''none'']" by simp
qed (auto simp: map_eq_Cons_conv)

text \<open>C35: What a configuration loaded with p2p enabled guarantees. Connections are unencrypted only if the security flag is
  exactly \<open>none\<close>; otherwise only the noise and TLS transports are offered, and at least one of them. The multiplexers are known ones.
  Every port is zero, for any, or unprivileged, and equals its flag. The sanity check passes exactly if the peer limits are
  positive and ordered.\<close>

theorem loaded_config:
  assumes "NewConfig L ctx w = (Ok conf, w')" and "\<not> f_DisableP2P ctx"
  shows "(pc_NoTransportSecurity conf \<longleftrightarrow> map norm (split_comma (f_HostSecurity ctx)) = [''none'']) \<and>
    (\<not> pc_NoTransportSecurity conf \<longrightarrow> pc_HostSecurity conf \<noteq> [] \<and> set (pc_HostSecurity conf) \<subseteq> {noise_ID L, tls_ID L}) \<and>
    pc_HostMux conf \<noteq> [] \<and> set (pc_HostMux conf) \<subseteq> {''/yamux/1.0.0'', ''/mplex/6.7.0''} \<and>
    list_all2 (\<lambda>q p. unat q = unat p \<and> (q = 0 \<or> 1024 \<le> q))
      [pc_ListenTCPPort conf, pc_ListenUDPPort conf, pc_AdvertiseTCPPort conf, pc_AdvertiseUDPPort conf]
      [f_ListenTCPPort ctx, f_ListenUDPPort ctx, f_AdvertiseTCPPort ctx, f_AdvertiseUDPPort ctx] \<and>
    (P2PConfig_Check conf = Ok () \<longleftrightarrow> 0 < f_PeersLo ctx \<and> f_PeersLo ctx \<le> f_PeersHi ctx)"
proof -
  from NewConfig_stages [OF assms] obtain k w1 conf1 conf2 w2 conf3 where st:
    "loadListenOpts L ctx (P2PConfig_zero\<lparr>pc_Priv := Some k\<rparr>) = Ok conf1"
    "loadDiscoveryOpts L ctx conf1 w1 = (Ok conf2, w2)" "loadLibp2pOpts L ctx conf2 w2 = (Ok conf3, w')"
    "conf = conf3\<lparr>pc_ConnGater := True, pc_ConnMngr := True\<rparr>" .
  let ?vs = "split_comma (f_HostSecurity ctx)"
  from loadListenOpts_Ok [OF st(1)] obtain a tcp udp where l: "conf1 = P2PConfig_zero\<lparr>pc_Priv := Some k, pc_ListenIP := a, pc_ListenTCPPort := tcp, pc_ListenUDPPort := udp\<rparr>"
    "load_port ''bad listen TCP port'' (f_ListenTCPPort ctx) = Ok tcp" "load_port ''bad listen UDP port'' (f_ListenUDPPort ctx) = Ok udp" by auto
  from loadDiscoveryOpts_Ok [OF st(2)] obtain conf0 a' tcp' udp' db ns where d: "conf0 = (if f_NoDiscovery ctx then conf1\<lparr>pc_NoDiscovery := True\<rparr> else conf1)"
    "conf2 = conf0\<lparr>pc_AdvertiseTCPPort := tcp', pc_AdvertiseUDPPort := udp', pc_AdvertiseIP := a', pc_DiscoveryDB := Some db, pc_Bootnodes := ns\<rparr>"
    "load_port ''bad advertised TCP port'' (f_AdvertiseTCPPort ctx) = Ok tcp'" "load_port ''bad advertised UDP port'' (f_AdvertiseUDPPort ctx) = Ok udp'" by blast
  from loadLibp2pOpts_Ok [OF st(3)] obtain peers c1 c2 store where p:
    "load_mux L (split_comma (f_HostMux ctx)) (conf2\<lparr>pc_StaticPeers := peers\<rparr>) = Ok c1"
    "load_security L (length ?vs) ?vs c1 = Ok c2" "conf3 = (load_options ctx c2)\<lparr>pc_Store := Some store\<rparr>" by blast
  from load_mux_Ok [OF p(1)] obtain ms where m: "c1 = conf2\<lparr>pc_StaticPeers := peers, pc_HostMux := pc_HostMux conf2 @ ms\<rparr>"
    "length ms = length (split_comma (f_HostMux ctx))" "set ms \<subseteq> {''/yamux/1.0.0'', ''/mplex/6.7.0''}" by auto
  from load_security_Ok [OF p(2)] obtain ss nts where sec: "c2 = c1\<lparr>pc_HostSecurity := pc_HostSecurity c1 @ ss, pc_NoTransportSecurity := nts\<rparr>"
    "length ss = length ?vs" "nts \<longleftrightarrow> pc_NoTransportSecurity c1 \<or> ''none'' \<in> norm ` set ?vs" "''none'' \<in> norm ` set ?vs \<longrightarrow> length ?vs \<le> 1"
    "''none'' \<notin> norm ` set ?vs \<longrightarrow> set ss \<subseteq> {noise_ID L, tls_ID L}" by blast
  note fields = st(4) p(3) load_options_def sec(1) m(1) d(2) P2PConfig_zero_def
  have base: "pc_NoTransportSecurity conf0 = False" "pc_HostMux conf0 = []" "pc_HostSecurity conf0 = []" "pc_DisableP2P conf0 = False"
    "pc_ListenTCPPort conf0 = tcp" "pc_ListenUDPPort conf0 = udp"
    using d(1) l(1) by (auto simp: P2PConfig_zero_def)
  have "ms \<noteq> []" "ss \<noteq> []" using m(2) sec(2) by auto
  moreover have "nts \<longleftrightarrow> map norm ?vs = [''none'']"
    using sec(3) none_alone [OF sec(4)] base(1) by (simp add: m(1) d(2))
  moreover have "P2PConfig_Check conf = Ok () \<longleftrightarrow> 0 < f_PeersLo ctx \<and> f_PeersLo ctx \<le> f_PeersHi ctx"
    by (auto simp: P2PConfig_Check_def fields base word_gt_0 not_less)
  ultimately show ?thesis
    using sec(3,5) m(3) load_port_Ok [OF l(2)] load_port_Ok [OF l(3)] load_port_Ok [OF d(3)] load_port_Ok [OF d(4)]
    by (simp add: fields base)
qed

section \<open>A concrete configuration\<close>

definition demo_config_lib :: "(bytes, string, string, nat, nat) config_lib" where
  "demo_config_lib = \<lparr>net_ParseIP = (\<lambda>s. Some [127, 0, 0, 1]), enode_OpenDB = (\<lambda>p r. (Inr r, r + 1)), enode_Parse = Inr, multiaddr_New = Inr,
     NewMapDatastore = (\<lambda>r. (r, r + 1)), leveldb_NewDatastore = (\<lambda>p r. (Inr r, r + 1)), MuxerConstructor = (\<lambda>s. None),
     SecurityConstructor = (\<lambda>s. None), noise_ID = ''/noise'', tls_ID = ''/tls/1.0.0'', GenerateSecp256k1Key = (\<lambda>r. (Inr [of_nat r, 47], r + 1)),
     key_Raw = Inr, UnmarshalSecp256k1PrivateKey = Inr\<rparr>"

definition demo_flags :: p2p_flags where
  "demo_flags = \<lparr>f_DisableP2P = False, f_NoDiscovery = False, f_P2PPrivPath = ''key'', f_P2PPrivRaw = [], f_ListenIP = ''127.0.0.1'',
     f_ListenTCPPort = 9222, f_ListenUDPPort = 0, f_AdvertiseIP = [], f_AdvertiseTCPPort = 0, f_AdvertiseUDPPort = 0,
     f_Bootnodes = '' a, ,b'', f_StaticPeers = [], f_HostMux = ''yamux, MPLEX'', f_HostSecurity = ''noise'', f_PeersLo = 20, f_PeersHi = 30,
     f_PeersGrace = 0, f_NAT = False, f_UserAgent = ''optimism'', f_TimeoutNegotiation = 0, f_TimeoutAccept = 0, f_TimeoutDial = 0,
     f_PeerstorePath = ''memory'', f_DiscoveryPath = ''memory''\<rparr>"

definition demo_p2p_world :: "nat p2p_world" where
  "demo_p2p_world = \<lparr>pw_files = (\<lambda>_. None), pw_open_err = (\<lambda>_. None), pw_create_err = (\<lambda>_. None), pw_write_err = (\<lambda>_. None), pw_ext = 3\<rparr>"

lemma demo_config_loads: "is_ok (fst (NewConfig demo_config_lib demo_flags demo_p2p_world))"
  by code_simp

theorem loaded_config_witness:
  "\<exists>conf. fst (NewConfig demo_config_lib demo_flags demo_p2p_world) = Ok conf \<and> P2PConfig_Check conf = Ok () \<and> unat (pc_ListenTCPPort conf) = 9222"
proof -
  obtain conf w' where run: "NewConfig demo_config_lib demo_flags demo_p2p_world = (Ok conf, w')"
    using demo_config_loads by (cases "NewConfig demo_config_lib demo_flags demo_p2p_world", cases "fst (NewConfig demo_config_lib demo_flags demo_p2p_world)") auto
  from loaded_config [OF run] run show ?thesis by (simp add: demo_flags_def)
qed

theorem network_key_persists_witness:
  "\<exists>w1. loadNetworkPrivKey demo_config_lib demo_flags demo_p2p_world = (Ok [3, 47], w1) \<and>
     loadNetworkPrivKey demo_config_lib demo_flags w1 = (Ok [3, 47], w1)"
proof -
  have "key_codec_ok demo_config_lib" by (simp add: key_codec_ok_def demo_config_lib_def)
  moreover obtain w1 where "loadNetworkPrivKey demo_config_lib demo_flags demo_p2p_world = (Ok [3, 47], w1)" "pw_open_err w1 = (\<lambda>_. None)"
    by (simp add: loadNetworkPrivKey_def store_new_key_def demo_config_lib_def demo_flags_def demo_p2p_world_def)
  ultimately show ?thesis
    using network_key_persists [of demo_flags demo_config_lib demo_p2p_world "[3, 47]" w1 w1] by (auto simp: demo_flags_def)
qed

end
