(* ===== verification/Flags.thy ===== *)
theory Flags
  imports P2PConfig
begin

text \<open>
  The command line options of the three programs (\<open>op-node/flags/flags.go\<close>, \<open>p2p_flags.go\<close>, \<open>op-batcher/flags/flags.go\<close>,
  \<open>op-proposer/flags/flags.go\<close>) and what the programs read from them (\<open>op-batcher/config.go\<close>, \<open>op-proposer/config.go\<close>, the reads of
  \<open>op-node/p2p/config.go\<close>). The command line package is a parameter: a context of lookups by name, which is documented to give the
  argument, else the environment variable, else the default. Usage texts are left out.
\<close>

section \<open>Flags and the command line package\<close>

datatype flag_value =
    VString string | VStrings "string list" | VInt goint | VUint u64 | VUint64 u64 | VBool bool | VDuration duration

record cli_flag =
  fl_Name :: string
  fl_Required :: bool
  fl_Hidden :: bool
  fl_TakesFile :: bool
  fl_Value :: flag_value               \<comment> \<open>the default; its kind is that of the flag\<close>
  fl_EnvVar :: string

record cli_ctx =
  GlobalString :: "string \<Rightarrow> string"
  GlobalStringSlice :: "string \<Rightarrow> string list"
  GlobalInt :: "string \<Rightarrow> goint"
  GlobalUint :: "string \<Rightarrow> u64"
  GlobalUint64 :: "string \<Rightarrow> u64"
  GlobalBool :: "string \<Rightarrow> bool"
  GlobalDuration :: "string \<Rightarrow> duration"
  IsSet :: "string \<Rightarrow> bool"

section \<open>Flags of the rollup node (op-node/flags)\<close>

definition envVarPrefix :: string where
  "envVarPrefix = ''ROLLUP_NODE_''"

definition prefixEnvVar :: "string \<Rightarrow> string" where
  "prefixEnvVar name = envVarPrefix @ name"

definition p2pEnv :: "string \<Rightarrow> string" where
  "p2pEnv v = prefixEnvVar (''P2P_'' @ v)"

definition L1NodeAddr :: cli_flag where
  "L1NodeAddr = \<lparr>fl_Name = ''l1'', fl_Required = True, fl_Hidden = False, fl_TakesFile = False,
     fl_Value = VString ''http://127.0.0.1:8545'', fl_EnvVar = prefixEnvVar ''L1_ETH_RPC''\<rparr>"

definition L2EngineAddrs :: cli_flag where
  "L2EngineAddrs = \<lparr>fl_Name = ''l2'', fl_Required = True, fl_Hidden = False, fl_TakesFile = False,
     fl_Value = VStrings [], fl_EnvVar = prefixEnvVar ''L2_ENGINE_RPC''\<rparr>"

definition RollupConfig :: cli_flag where
  "RollupConfig = \<lparr>fl_Name = ''rollup.config'', fl_Required = True, fl_Hidden = False, fl_TakesFile = False,
     fl_Value = VString [], fl_EnvVar = prefixEnvVar ''ROLLUP_CONFIG''\<rparr>"

definition L2EthNodeAddr :: cli_flag where
  "L2EthNodeAddr = \<lparr>fl_Name = ''l2.eth'', fl_Required = True, fl_Hidden = False, fl_TakesFile = False,
     fl_Value = VString [], fl_EnvVar = prefixEnvVar ''L2_ETH_RPC''\<rparr>"

definition RPCListenAddr :: cli_flag where
  "RPCListenAddr = \<lparr>fl_Name = ''rpc.addr'', fl_Required = True, fl_Hidden = False, fl_TakesFile = False,
     fl_Value = VString [], fl_EnvVar = prefixEnvVar ''RPC_ADDR''\<rparr>"

definition RPCListenPort :: cli_flag where
  "RPCListenPort = \<lparr>fl_Name = ''rpc.port'', fl_Required = True, fl_Hidden = False, fl_TakesFile = False,
     fl_Value = VInt 0, fl_EnvVar = prefixEnvVar ''RPC_PORT''\<rparr>"

definition L1TrustRPC :: cli_flag where
  "L1TrustRPC = \<lparr>fl_Name = ''l1.trustrpc'', fl_Required = False, fl_Hidden = False, fl_TakesFile = False,
     fl_Value = VBool False, fl_EnvVar = prefixEnvVar ''L1_TRUST_RPC''\<rparr>"

definition SequencingEnabledFlag :: cli_flag where
  "SequencingEnabledFlag = \<lparr>fl_Name = ''sequencing.enabled'', fl_Required = False, fl_Hidden = False, fl_TakesFile = False,
     fl_Value = VBool False, fl_EnvVar = prefixEnvVar ''SEQUENCING_ENABLED''\<rparr>"

definition LogLevelFlag :: cli_flag where
  "LogLevelFlag = \<lparr>fl_Name = ''log.level'', fl_Required = False, fl_Hidden = False, fl_TakesFile = False,
     fl_Value = VString ''info'', fl_EnvVar = prefixEnvVar ''LOG_LEVEL''\<rparr>"

definition LogFormatFlag :: cli_flag where
  "LogFormatFlag = \<lparr>fl_Name = ''log.format'', fl_Required = False, fl_Hidden = False, fl_TakesFile = False,
     fl_Value = VString ''text'', fl_EnvVar = prefixEnvVar ''LOG_FORMAT''\<rparr>"

definition LogColorFlag :: cli_flag where
  "LogColorFlag = \<lparr>fl_Name = ''log.color'', fl_Required = False, fl_Hidden = False, fl_TakesFile = False,
     fl_Value = VBool False, fl_EnvVar = prefixEnvVar ''LOG_COLOR''\<rparr>"

definition SnapshotLog :: cli_flag where
  "SnapshotLog = \<lparr>fl_Name = ''snapshotlog.file'', fl_Required = False, fl_Hidden = False, fl_TakesFile = False,
     fl_Value = VString [], fl_EnvVar = prefixEnvVar ''SNAPSHOT_LOG''\<rparr>"

definition DisableP2P :: cli_flag where
  "DisableP2P = \<lparr>fl_Name = ''p2p.disable'', fl_Required = False, fl_Hidden = False, fl_TakesFile = False,
     fl_Value = VBool False, fl_EnvVar = p2pEnv ''DISABLE''\<rparr>"

definition NoDiscovery :: cli_flag where
  "NoDiscovery = \<lparr>fl_Name = ''p2p.no-discovery'', fl_Required = False, fl_Hidden = False, fl_TakesFile = False,
     fl_Value = VBool False, fl_EnvVar = p2pEnv ''NO_DISCOVERY''\<rparr>"

definition P2PPrivPath :: cli_flag where
  "P2PPrivPath = \<lparr>fl_Name = ''p2p.priv.path'', fl_Required = False, fl_Hidden = False, fl_TakesFile = True,
     fl_Value = VString ''opnode_p2p_priv.txt'', fl_EnvVar = p2pEnv ''PRIV_PATH''\<rparr>"

definition P2PPrivRaw :: cli_flag where
  "P2PPrivRaw = \<lparr>fl_Name = ''p2p.priv.raw'', fl_Required = False, fl_Hidden = True, fl_TakesFile = False,
     fl_Value = VString [], fl_EnvVar = p2pEnv ''PRIV_RAW''\<rparr>"

definition ListenIP :: cli_flag where
  "ListenIP = \<lparr>fl_Name = ''p2p.listen.ip'', fl_Required = False, fl_Hidden = False, fl_TakesFile = False,
     fl_Value = VString ''0.0.0.0'', fl_EnvVar = p2pEnv ''LISTEN_IP''\<rparr>"

definition ListenTCPPort :: cli_flag where
  "ListenTCPPort = \<lparr>fl_Name = ''p2p.listen.tcp'', fl_Required = False, fl_Hidden = False, fl_TakesFile = False,
     fl_Value = VUint 9222, fl_EnvVar = p2pEnv ''LISTEN_TCP_PORT''\<rparr>"

definition ListenUDPPort :: cli_flag where
  "ListenUDPPort = \<lparr>fl_Name = ''p2p.listen.udp'', fl_Required = False, fl_Hidden = False, fl_TakesFile = False,
     fl_Value = VUint 0, fl_EnvVar = p2pEnv ''LISTEN_UDP_PORT''\<rparr>"

definition AdvertiseIP :: cli_flag where
  "AdvertiseIP = \<lparr>fl_Name = ''p2p.advertise.ip'', fl_Required = False, fl_Hidden = False, fl_TakesFile = False,
     fl_Value = VString [], fl_EnvVar = p2pEnv ''ADVERTISE_IP''\<rparr>"

definition AdvertiseTCPPort :: cli_flag where
  "AdvertiseTCPPort = \<lparr>fl_Name = ''p2p.advertise.tcp'', fl_Required = False, fl_Hidden = False, fl_TakesFile = False,
     fl_Value = VUint 0, fl_EnvVar = p2pEnv ''ADVERTISE_TCP''\<rparr>"

definition AdvertiseUDPPort :: cli_flag where
  "AdvertiseUDPPort = \<lparr>fl_Name = ''p2p.advertise.udp'', fl_Required = False, fl_Hidden = False, fl_TakesFile = False,
     fl_Value = VUint 0, fl_EnvVar = p2pEnv ''ADVERTISE_TCP''\<rparr>"

definition Bootnodes :: cli_flag where
  "Bootnodes = \<lparr>fl_Name = ''p2p.bootnodes'', fl_Required = False, fl_Hidden = False, fl_TakesFile = False,
     fl_Value = VString [], fl_EnvVar = p2pEnv ''BOOTNODES''\<rparr>"

definition StaticPeers :: cli_flag where
  "StaticPeers = \<lparr>fl_Name = ''p2p.static'', fl_Required = False, fl_Hidden = False, fl_TakesFile = False,
     fl_Value = VString [], fl_EnvVar = p2pEnv ''BOOTNODES''\<rparr>"

definition HostMux :: cli_flag where
  "HostMux = \<lparr>fl_Name = ''p2p.mux'', fl_Required = False, fl_Hidden = True, fl_TakesFile = False,
     fl_Value = VString ''yamux,mplex'', fl_EnvVar = p2pEnv ''MUX''\<rparr>"

definition HostSecurity :: cli_flag where
  "HostSecurity = \<lparr>fl_Name = ''p2p.security'', fl_Required = False, fl_Hidden = True, fl_TakesFile = False,
     fl_Value = VString ''noise'', fl_EnvVar = p2pEnv ''SECURITY''\<rparr>"

definition PeersLo :: cli_flag where
  "PeersLo = \<lparr>fl_Name = ''p2p.peers.lo'', fl_Required = False, fl_Hidden = False, fl_TakesFile = False,
     fl_Value = VUint 20, fl_EnvVar = p2pEnv ''PEERS_LO''\<rparr>"

definition PeersHi :: cli_flag where
  "PeersHi = \<lparr>fl_Name = ''p2p.peers.hi'', fl_Required = False, fl_Hidden = False, fl_TakesFile = False,
     fl_Value = VUint 30, fl_EnvVar = p2pEnv ''PEERS_HI''\<rparr>"

definition PeersGrace :: cli_flag where
  "PeersGrace = \<lparr>fl_Name = ''p2p.peers.grace'', fl_Required = False, fl_Hidden = False, fl_TakesFile = False,
     fl_Value = VDuration (30 * 1000 * Millisecond), fl_EnvVar = p2pEnv ''PEERS_GRACE''\<rparr>"

definition NAT :: cli_flag where
  "NAT = \<lparr>fl_Name = ''p2p.nat'', fl_Required = False, fl_Hidden = False, fl_TakesFile = False,
     fl_Value = VBool False, fl_EnvVar = p2pEnv ''NAT''\<rparr>"

definition UserAgent :: cli_flag where
  "UserAgent = \<lparr>fl_Name = ''p2p.useragent'', fl_Required = False, fl_Hidden = True, fl_TakesFile = False,
     fl_Value = VString ''optimism'', fl_EnvVar = p2pEnv ''AGENT''\<rparr>"

definition TimeoutNegotiation :: cli_flag where
  "TimeoutNegotiation = \<lparr>fl_Name = ''p2p.timeout.negotiation'', fl_Required = False, fl_Hidden = True, fl_TakesFile = False,
     fl_Value = VDuration (10 * 1000 * Millisecond), fl_EnvVar = p2pEnv ''TIMEOUT_NEGOTIATION''\<rparr>"

definition TimeoutAccept :: cli_flag where
  "TimeoutAccept = \<lparr>fl_Name = ''p2p.timeout.accept'', fl_Required = False, fl_Hidden = True, fl_TakesFile = False,
     fl_Value = VDuration (10 * 1000 * Millisecond), fl_EnvVar = p2pEnv ''TIMEOUT_ACCEPT''\<rparr>"

definition TimeoutDial :: cli_flag where
  "TimeoutDial = \<lparr>fl_Name = ''p2p.timeout.dial'', fl_Required = False, fl_Hidden = True, fl_TakesFile = False,
     fl_Value = VDuration (10 * 1000 * Millisecond), fl_EnvVar = p2pEnv ''TIMEOUT_DIAL''\<rparr>"

definition PeerstorePath :: cli_flag where
  "PeerstorePath = \<lparr>fl_Name = ''p2p.peerstore.path'', fl_Required = False, fl_Hidden = False, fl_TakesFile = True,
     fl_Value = VString ''opnode_peerstore_db'', fl_EnvVar = p2pEnv ''PEERSTORE_PATH''\<rparr>"

definition DiscoveryPath :: cli_flag where
  "DiscoveryPath = \<lparr>fl_Name = ''p2p.discovery.path'', fl_Required = False, fl_Hidden = False, fl_TakesFile = True,
     fl_Value = VString ''opnode_discovery_db'', fl_EnvVar = p2pEnv ''DISCOVERY_PATH''\<rparr>"

definition SequencerP2PKeyFlag :: cli_flag where
  "SequencerP2PKeyFlag = \<lparr>fl_Name = ''p2p.sequencer.key'', fl_Required = False, fl_Hidden = False, fl_TakesFile = True,
     fl_Value = VString [], fl_EnvVar = p2pEnv ''SEQUENCER_KEY''\<rparr>"

definition p2pFlags :: "cli_flag list" where
  "p2pFlags =
    [DisableP2P, NoDiscovery, P2PPrivPath, P2PPrivRaw, ListenIP, ListenTCPPort, ListenUDPPort, AdvertiseIP, AdvertiseTCPPort,
     AdvertiseUDPPort, Bootnodes, StaticPeers, HostMux, HostSecurity, PeersLo, PeersHi, PeersGrace, NAT, UserAgent, TimeoutNegotiation,
     TimeoutAccept, TimeoutDial, PeerstorePath, DiscoveryPath, SequencerP2PKeyFlag]"

definition requiredFlags :: "cli_flag list" where
  "requiredFlags =
    [L1NodeAddr, L2EngineAddrs, RollupConfig, L2EthNodeAddr, RPCListenAddr, RPCListenPort]"

definition optionalFlags :: "cli_flag list" where
  "optionalFlags = [L1TrustRPC, SequencingEnabledFlag, LogLevelFlag, LogFormatFlag, LogColorFlag, SnapshotLog] @ p2pFlags"

definition Flags :: "cli_flag list" where
  "Flags = requiredFlags @ optionalFlags"

section \<open>Flags of the batch submitter (op-batcher/flags)\<close>

definition batcher_prefixEnvVar :: "string \<Rightarrow> string" where
  "batcher_prefixEnvVar name = ''BATCH_SUBMITTER_'' @ name"

definition batcher_L1EthRpcFlag :: cli_flag where
  "batcher_L1EthRpcFlag = \<lparr>fl_Name = ''l1-eth-rpc'', fl_Required = True, fl_Hidden = False, fl_TakesFile = False,
     fl_Value = VString [], fl_EnvVar = ''L1_ETH_RPC''\<rparr>"

definition batcher_L2EthRpcFlag :: cli_flag where
  "batcher_L2EthRpcFlag = \<lparr>fl_Name = ''l2-eth-rpc'', fl_Required = True, fl_Hidden = False, fl_TakesFile = False,
     fl_Value = VString [], fl_EnvVar = ''L2_ETH_RPC''\<rparr>"

definition batcher_RollupRpcFlag :: cli_flag where
  "batcher_RollupRpcFlag = \<lparr>fl_Name = ''rollup-rpc'', fl_Required = True, fl_Hidden = False, fl_TakesFile = False,
     fl_Value = VString [], fl_EnvVar = ''ROLLUP_RPC''\<rparr>"

definition batcher_MinL1TxSizeBytesFlag :: cli_flag where
  "batcher_MinL1TxSizeBytesFlag = \<lparr>fl_Name = ''min-l1-tx-size-bytes'', fl_Required = True, fl_Hidden = False, fl_TakesFile = False,
     fl_Value = VUint64 0, fl_EnvVar = batcher_prefixEnvVar ''MIN_L1_TX_SIZE_BYTES''\<rparr>"

definition batcher_MaxL1TxSizeBytesFlag :: cli_flag where
  "batcher_MaxL1TxSizeBytesFlag = \<lparr>fl_Name = ''max-l1-tx-size-bytes'', fl_Required = True, fl_Hidden = False, fl_TakesFile = False,
     fl_Value = VUint64 0, fl_EnvVar = batcher_prefixEnvVar ''MAX_L1_TX_SIZE_BYTES''\<rparr>"

definition batcher_PollIntervalFlag :: cli_flag where
  "batcher_PollIntervalFlag = \<lparr>fl_Name = ''poll-interval'', fl_Required = True, fl_Hidden = False, fl_TakesFile = False,
     fl_Value = VDuration 0, fl_EnvVar = batcher_prefixEnvVar ''POLL_INTERVAL''\<rparr>"

definition batcher_NumConfirmationsFlag :: cli_flag where
  "batcher_NumConfirmationsFlag = \<lparr>fl_Name = ''num-confirmations'', fl_Required = True, fl_Hidden = False, fl_TakesFile = False,
     fl_Value = VUint64 0, fl_EnvVar = batcher_prefixEnvVar ''NUM_CONFIRMATIONS''\<rparr>"

definition batcher_SafeAbortNonceTooLowCountFlag :: cli_flag where
  "batcher_SafeAbortNonceTooLowCountFlag = \<lparr>fl_Name = ''safe-abort-nonce-too-low-count'', fl_Required = True, fl_Hidden = False, fl_TakesFile = False,
     fl_Value = VUint64 0, fl_EnvVar = batcher_prefixEnvVar ''SAFE_ABORT_NONCE_TOO_LOW_COUNT''\<rparr>"

definition batcher_ResubmissionTimeoutFlag :: cli_flag where
  "batcher_ResubmissionTimeoutFlag = \<lparr>fl_Name = ''resubmission-timeout'', fl_Required = True, fl_Hidden = False, fl_TakesFile = False,
     fl_Value = VDuration 0, fl_EnvVar = batcher_prefixEnvVar ''RESUBMISSION_TIMEOUT''\<rparr>"

definition batcher_MnemonicFlag :: cli_flag where
  "batcher_MnemonicFlag = \<lparr>fl_Name = ''mnemonic'', fl_Required = True, fl_Hidden = False, fl_TakesFile = False,
     fl_Value = VString [], fl_EnvVar = batcher_prefixEnvVar ''MNEMONIC''\<rparr>"

definition batcher_SequencerHDPathFlag :: cli_flag where
  "batcher_SequencerHDPathFlag = \<lparr>fl_Name = ''sequencer-hd-path'', fl_Required = True, fl_Hidden = False, fl_TakesFile = False,
     fl_Value = VString [], fl_EnvVar = batcher_prefixEnvVar ''SEQUENCER_HD_PATH''\<rparr>"

definition batcher_SequencerHistoryDBFilenameFlag :: cli_flag where
  "batcher_SequencerHistoryDBFilenameFlag = \<lparr>fl_Name = ''sequencer-history-db-filename'', fl_Required = True, fl_Hidden = False, fl_TakesFile = False,
     fl_Value = VString [], fl_EnvVar = batcher_prefixEnvVar ''SEQUENCER_HISTORY_DB_FILENAME''\<rparr>"

definition batcher_SequencerGenesisHashFlag :: cli_flag where
  "batcher_SequencerGenesisHashFlag = \<lparr>fl_Name = ''sequencer-genesis-hash'', fl_Required = True, fl_Hidden = False, fl_TakesFile = False,
     fl_Value = VString [], fl_EnvVar = batcher_prefixEnvVar ''SEQUENCER_GENESIS_HASH''\<rparr>"

definition batcher_SequencerBatchInboxAddressFlag :: cli_flag where
  "batcher_SequencerBatchInboxAddressFlag = \<lparr>fl_Name = ''sequencer-batch-inbox-address'', fl_Required = True, fl_Hidden = False, fl_TakesFile = False,
     fl_Value = VString [], fl_EnvVar = batcher_prefixEnvVar ''SEQUENCER_BATCH_INBOX_ADDRESS''\<rparr>"

definition batcher_LogLevelFlag :: cli_flag where
  "batcher_LogLevelFlag = \<lparr>fl_Name = ''log-level'', fl_Required = False, fl_Hidden = False, fl_TakesFile = False,
     fl_Value = VString ''info'', fl_EnvVar = batcher_prefixEnvVar ''LOG_LEVEL''\<rparr>"

definition batcher_LogTerminalFlag :: cli_flag where
  "batcher_LogTerminalFlag = \<lparr>fl_Name = ''log-terminal'', fl_Required = False, fl_Hidden = False, fl_TakesFile = False,
     fl_Value = VBool False, fl_EnvVar = batcher_prefixEnvVar ''LOG_TERMINAL''\<rparr>"

definition batcher_requiredFlags :: "cli_flag list" where
  "batcher_requiredFlags =
    [batcher_L1EthRpcFlag, batcher_L2EthRpcFlag, batcher_RollupRpcFlag, batcher_MinL1TxSizeBytesFlag, batcher_MaxL1TxSizeBytesFlag,
     batcher_PollIntervalFlag, batcher_NumConfirmationsFlag, batcher_SafeAbortNonceTooLowCountFlag, batcher_ResubmissionTimeoutFlag,
     batcher_MnemonicFlag, batcher_SequencerHDPathFlag, batcher_SequencerHistoryDBFilenameFlag, batcher_SequencerGenesisHashFlag,
     batcher_SequencerBatchInboxAddressFlag]"

definition batcher_optionalFlags :: "cli_flag list" where
  "batcher_optionalFlags =
    [batcher_LogLevelFlag, batcher_LogTerminalFlag]"

definition batcher_Flags :: "cli_flag list" where
  "batcher_Flags = batcher_requiredFlags @ batcher_optionalFlags"

section \<open>Flags of the output proposer (op-proposer/flags)\<close>

definition proposer_prefixEnvVar :: "string \<Rightarrow> string" where
  "proposer_prefixEnvVar name = ''OUTPUT_SUBMITTER_'' @ name"

definition proposer_L1EthRpcFlag :: cli_flag where
  "proposer_L1EthRpcFlag = \<lparr>fl_Name = ''l1-eth-rpc'', fl_Required = True, fl_Hidden = False, fl_TakesFile = False,
     fl_Value = VString [], fl_EnvVar = ''L1_ETH_RPC''\<rparr>"

definition proposer_L2EthRpcFlag :: cli_flag where
  "proposer_L2EthRpcFlag = \<lparr>fl_Name = ''l2-eth-rpc'', fl_Required = True, fl_Hidden = False, fl_TakesFile = False,
     fl_Value = VString [], fl_EnvVar = ''L2_ETH_RPC''\<rparr>"

definition proposer_RollupRpcFlag :: cli_flag where
  "proposer_RollupRpcFlag = \<lparr>fl_Name = ''rollup-rpc'', fl_Required = True, fl_Hidden = False, fl_TakesFile = False,
     fl_Value = VString [], fl_EnvVar = ''ROLLUP_RPC''\<rparr>"

definition proposer_L2OOAddressFlag :: cli_flag where
  "proposer_L2OOAddressFlag = \<lparr>fl_Name = ''l2oo-address'', fl_Required = True, fl_Hidden = False, fl_TakesFile = False,
     fl_Value = VString [], fl_EnvVar = ''L2OO_ADDRESS''\<rparr>"

definition proposer_PollIntervalFlag :: cli_flag where
  "proposer_PollIntervalFlag = \<lparr>fl_Name = ''poll-interval'', fl_Required = True, fl_Hidden = False, fl_TakesFile = False,
     fl_Value = VDuration 0, fl_EnvVar = proposer_prefixEnvVar ''POLL_INTERVAL''\<rparr>"

definition proposer_NumConfirmationsFlag :: cli_flag where
  "proposer_NumConfirmationsFlag = \<lparr>fl_Name = ''num-confirmations'', fl_Required = True, fl_Hidden = False, fl_TakesFile = False,
     fl_Value = VUint64 0, fl_EnvVar = proposer_prefixEnvVar ''NUM_CONFIRMATIONS''\<rparr>"

definition proposer_SafeAbortNonceTooLowCountFlag :: cli_flag where
  "proposer_SafeAbortNonceTooLowCountFlag = \<lparr>fl_Name = ''safe-abort-nonce-too-low-count'', fl_Required = True, fl_Hidden = False, fl_TakesFile = False,
     fl_Value = VUint64 0, fl_EnvVar = proposer_prefixEnvVar ''SAFE_ABORT_NONCE_TOO_LOW_COUNT''\<rparr>"

definition proposer_ResubmissionTimeoutFlag :: cli_flag where
  "proposer_ResubmissionTimeoutFlag = \<lparr>fl_Name = ''resubmission-timeout'', fl_Required = True, fl_Hidden = False, fl_TakesFile = False,
     fl_Value = VDuration 0, fl_EnvVar = proposer_prefixEnvVar ''RESUBMISSION_TIMEOUT''\<rparr>"

definition proposer_MnemonicFlag :: cli_flag where
  "proposer_MnemonicFlag = \<lparr>fl_Name = ''mnemonic'', fl_Required = True, fl_Hidden = False, fl_TakesFile = False,
     fl_Value = VString [], fl_EnvVar = proposer_prefixEnvVar ''MNEMONIC''\<rparr>"

definition proposer_L2OutputHDPathFlag :: cli_flag where
  "proposer_L2OutputHDPathFlag = \<lparr>fl_Name = ''l2-output-hd-path'', fl_Required = True, fl_Hidden = False, fl_TakesFile = False,
     fl_Value = VString [], fl_EnvVar = proposer_prefixEnvVar ''L2_OUTPUT_HD_PATH''\<rparr>"

definition proposer_LogLevelFlag :: cli_flag where
  "proposer_LogLevelFlag = \<lparr>fl_Name = ''log-level'', fl_Required = False, fl_Hidden = False, fl_TakesFile = False,
     fl_Value = VString ''info'', fl_EnvVar = proposer_prefixEnvVar ''LOG_LEVEL''\<rparr>"

definition proposer_LogTerminalFlag :: cli_flag where
  "proposer_LogTerminalFlag = \<lparr>fl_Name = ''log-terminal'', fl_Required = False, fl_Hidden = False, fl_TakesFile = False,
     fl_Value = VBool False, fl_EnvVar = proposer_prefixEnvVar ''LOG_TERMINAL''\<rparr>"

definition proposer_requiredFlags :: "cli_flag list" where
  "proposer_requiredFlags =
    [proposer_L1EthRpcFlag, proposer_L2EthRpcFlag, proposer_RollupRpcFlag, proposer_L2OOAddressFlag, proposer_PollIntervalFlag,
     proposer_NumConfirmationsFlag, proposer_SafeAbortNonceTooLowCountFlag, proposer_ResubmissionTimeoutFlag, proposer_MnemonicFlag,
     proposer_L2OutputHDPathFlag]"

definition proposer_optionalFlags :: "cli_flag list" where
  "proposer_optionalFlags =
    [proposer_LogLevelFlag, proposer_LogTerminalFlag]"

definition proposer_Flags :: "cli_flag list" where
  "proposer_Flags = proposer_requiredFlags @ proposer_optionalFlags"

section \<open>What the programs read\<close>

definition p2p_flags_of :: "cli_ctx \<Rightarrow> p2p_flags" where
  "p2p_flags_of ctx = \<lparr>f_DisableP2P = GlobalBool ctx (fl_Name DisableP2P),
     f_NoDiscovery = GlobalBool ctx (fl_Name NoDiscovery),
     f_P2PPrivPath = GlobalString ctx (fl_Name P2PPrivPath),
     f_P2PPrivRaw = GlobalString ctx (fl_Name P2PPrivRaw),
     f_ListenIP = GlobalString ctx (fl_Name ListenIP),
     f_ListenTCPPort = GlobalUint ctx (fl_Name ListenTCPPort),
     f_ListenUDPPort = GlobalUint ctx (fl_Name ListenUDPPort),
     f_AdvertiseIP = GlobalString ctx (fl_Name AdvertiseIP),
     f_AdvertiseTCPPort = GlobalUint ctx (fl_Name AdvertiseTCPPort),
     f_AdvertiseUDPPort = GlobalUint ctx (fl_Name AdvertiseUDPPort),
     f_Bootnodes = GlobalString ctx (fl_Name Bootnodes),
     f_StaticPeers = GlobalString ctx (fl_Name StaticPeers),
     f_HostMux = GlobalString ctx (fl_Name HostMux),
     f_HostSecurity = GlobalString ctx (fl_Name HostSecurity),
     f_PeersLo = GlobalUint ctx (fl_Name PeersLo),
     f_PeersHi = GlobalUint ctx (fl_Name PeersHi),
     f_PeersGrace = GlobalDuration ctx (fl_Name PeersGrace),
     f_NAT = GlobalBool ctx (fl_Name NAT),
     f_UserAgent = GlobalString ctx (fl_Name UserAgent),
     f_TimeoutNegotiation = GlobalDuration ctx (fl_Name TimeoutNegotiation),
     f_TimeoutAccept = GlobalDuration ctx (fl_Name TimeoutAccept),
     f_TimeoutDial = GlobalDuration ctx (fl_Name TimeoutDial),
     f_PeerstorePath = GlobalString ctx (fl_Name PeerstorePath),
     f_DiscoveryPath = GlobalString ctx (fl_Name DiscoveryPath)\<rparr>"

record batcher_Config =
  bc_L1EthRpc :: string
  bc_L2EthRpc :: string
  bc_RollupRpc :: string
  bc_MinL1TxSize :: u64
  bc_MaxL1TxSize :: u64
  bc_PollInterval :: duration
  bc_NumConfirmations :: u64
  bc_SafeAbortNonceTooLowCount :: u64
  bc_ResubmissionTimeout :: duration
  bc_Mnemonic :: string
  bc_SequencerHDPath :: string
  bc_SequencerHistoryDBFilename :: string
  bc_SequencerGenesisHash :: string
  bc_SequencerBatchInboxAddress :: string
  bc_LogLevel :: string
  bc_LogTerminal :: bool

definition batcher_NewConfig :: "cli_ctx \<Rightarrow> batcher_Config" where
  "batcher_NewConfig ctx = \<lparr>bc_L1EthRpc = GlobalString ctx (fl_Name batcher_L1EthRpcFlag),
     bc_L2EthRpc = GlobalString ctx (fl_Name batcher_L2EthRpcFlag),
     bc_RollupRpc = GlobalString ctx (fl_Name batcher_RollupRpcFlag),
     bc_MinL1TxSize = GlobalUint64 ctx (fl_Name batcher_MinL1TxSizeBytesFlag),
     bc_MaxL1TxSize = GlobalUint64 ctx (fl_Name batcher_MaxL1TxSizeBytesFlag),
     bc_PollInterval = GlobalDuration ctx (fl_Name batcher_PollIntervalFlag),
     bc_NumConfirmations = GlobalUint64 ctx (fl_Name batcher_NumConfirmationsFlag),
     bc_SafeAbortNonceTooLowCount = GlobalUint64 ctx (fl_Name batcher_SafeAbortNonceTooLowCountFlag),
     bc_ResubmissionTimeout = GlobalDuration ctx (fl_Name batcher_ResubmissionTimeoutFlag),
     bc_Mnemonic = GlobalString ctx (fl_Name batcher_MnemonicFlag),
     bc_SequencerHDPath = GlobalString ctx (fl_Name batcher_SequencerHDPathFlag),
     bc_SequencerHistoryDBFilename = GlobalString ctx (fl_Name batcher_SequencerHistoryDBFilenameFlag),
     bc_SequencerGenesisHash = GlobalString ctx (fl_Name batcher_SequencerGenesisHashFlag),
     bc_SequencerBatchInboxAddress = GlobalString ctx (fl_Name batcher_SequencerBatchInboxAddressFlag),
     bc_LogLevel = GlobalString ctx (fl_Name batcher_LogLevelFlag),
     bc_LogTerminal = GlobalBool ctx (fl_Name batcher_LogTerminalFlag)\<rparr>"

record proposer_Config =
  oc_L1EthRpc :: string
  oc_L2EthRpc :: string
  oc_RollupRpc :: string
  oc_L2OOAddress :: string
  oc_PollInterval :: duration
  oc_NumConfirmations :: u64
  oc_SafeAbortNonceTooLowCount :: u64
  oc_ResubmissionTimeout :: duration
  oc_Mnemonic :: string
  oc_L2OutputHDPath :: string
  oc_LogLevel :: string
  oc_LogTerminal :: bool

definition proposer_NewConfig :: "cli_ctx \<Rightarrow> proposer_Config" where
  "proposer_NewConfig ctx = \<lparr>oc_L1EthRpc = GlobalString ctx (fl_Name proposer_L1EthRpcFlag),
     oc_L2EthRpc = GlobalString ctx (fl_Name proposer_L2EthRpcFlag),
     oc_RollupRpc = GlobalString ctx (fl_Name proposer_RollupRpcFlag),
     oc_L2OOAddress = GlobalString ctx (fl_Name proposer_L2OOAddressFlag),
     oc_PollInterval = GlobalDuration ctx (fl_Name proposer_PollIntervalFlag),
     oc_NumConfirmations = GlobalUint64 ctx (fl_Name proposer_NumConfirmationsFlag),
     oc_SafeAbortNonceTooLowCount = GlobalUint64 ctx (fl_Name proposer_SafeAbortNonceTooLowCountFlag),
     oc_ResubmissionTimeout = GlobalDuration ctx (fl_Name proposer_ResubmissionTimeoutFlag),
     oc_Mnemonic = GlobalString ctx (fl_Name proposer_MnemonicFlag),
     oc_L2OutputHDPath = GlobalString ctx (fl_Name proposer_L2OutputHDPathFlag),
     oc_LogLevel = GlobalString ctx (fl_Name proposer_LogLevelFlag),
     oc_LogTerminal = GlobalBool ctx (fl_Name proposer_LogTerminalFlag)\<rparr>"

section \<open>The documented behaviour of the command line package\<close>

fun flag_kind :: "flag_value \<Rightarrow> nat" where
  "flag_kind (VString s) = 0"
| "flag_kind (VStrings ss) = 1"
| "flag_kind (VInt i) = 2"
| "flag_kind (VUint u) = 3"
| "flag_kind (VUint64 u) = 4"
| "flag_kind (VBool b) = 5"
| "flag_kind (VDuration d) = 6"

definition flag_setting :: "(flag_value \<Rightarrow> string \<Rightarrow> flag_value) \<Rightarrow> (string \<rightharpoonup> string) \<Rightarrow> (string \<rightharpoonup> string) \<Rightarrow> cli_flag \<Rightarrow> flag_value" where
  "flag_setting parse args env f =
     (case args (fl_Name f) of
        Some s \<Rightarrow> parse (fl_Value f) s
      | None \<Rightarrow> (case env (fl_EnvVar f) of Some s \<Rightarrow> parse (fl_Value f) s | None \<Rightarrow> fl_Value f))"

fun looks_up :: "cli_ctx \<Rightarrow> string \<Rightarrow> flag_value \<Rightarrow> bool" where
  "looks_up ctx n (VString s) \<longleftrightarrow> GlobalString ctx n = s"
| "looks_up ctx n (VStrings ss) \<longleftrightarrow> GlobalStringSlice ctx n = ss"
| "looks_up ctx n (VInt i) \<longleftrightarrow> GlobalInt ctx n = i"
| "looks_up ctx n (VUint u) \<longleftrightarrow> GlobalUint ctx n = u"
| "looks_up ctx n (VUint64 u) \<longleftrightarrow> GlobalUint64 ctx n = u"
| "looks_up ctx n (VBool b) \<longleftrightarrow> GlobalBool ctx n = b"
| "looks_up ctx n (VDuration d) \<longleftrightarrow> GlobalDuration ctx n = d"

text \<open>The text of an argument or variable is read as a value of the kind of its flag; a string is taken as it is. A registered flag is
  looked up by its name. Nothing is said about other names.\<close>

definition cli_documented ::
  "(flag_value \<Rightarrow> string \<Rightarrow> flag_value) \<Rightarrow> cli_flag list \<Rightarrow> (string \<rightharpoonup> string) \<Rightarrow> (string \<rightharpoonup> string) \<Rightarrow> cli_ctx \<Rightarrow> bool" where
  "cli_documented parse flags args env ctx \<longleftrightarrow>
     (\<forall>v s. flag_kind (parse v s) = flag_kind v) \<and> (\<forall>d s. parse (VString d) s = VString s) \<and>
     (\<forall>f\<in>set flags. looks_up ctx (fl_Name f) (flag_setting parse args env f) \<and>
        IsSet ctx (fl_Name f) = (args (fl_Name f) \<noteq> None \<or> env (fl_EnvVar f) \<noteq> None))"

lemma setting_looked_up:
  "cli_documented parse flags args env ctx \<Longrightarrow> f \<in> set flags \<Longrightarrow> looks_up ctx (fl_Name f) (flag_setting parse args env f)"
  by (simp add: cli_documented_def)

lemma setting_kind: "cli_documented parse flags args env ctx \<Longrightarrow> flag_kind (flag_setting parse args env f) = flag_kind (fl_Value f)"
  by (auto simp: cli_documented_def flag_setting_def split: option.split)

text \<open>Two contexts of the same arguments and environment agree on every registered flag, read as the kind that it has.\<close>

definition agree_on :: "cli_flag \<Rightarrow> cli_ctx \<Rightarrow> cli_ctx \<Rightarrow> bool" where
  "agree_on f ctx ctx' \<longleftrightarrow> IsSet ctx (fl_Name f) = IsSet ctx' (fl_Name f) \<and>
     (case fl_Value f of
        VString _ \<Rightarrow> GlobalString ctx (fl_Name f) = GlobalString ctx' (fl_Name f)
      | VStrings _ \<Rightarrow> GlobalStringSlice ctx (fl_Name f) = GlobalStringSlice ctx' (fl_Name f)
      | VInt _ \<Rightarrow> GlobalInt ctx (fl_Name f) = GlobalInt ctx' (fl_Name f)
      | VUint _ \<Rightarrow> GlobalUint ctx (fl_Name f) = GlobalUint ctx' (fl_Name f)
      | VUint64 _ \<Rightarrow> GlobalUint64 ctx (fl_Name f) = GlobalUint64 ctx' (fl_Name f)
      | VBool _ \<Rightarrow> GlobalBool ctx (fl_Name f) = GlobalBool ctx' (fl_Name f)
      | VDuration _ \<Rightarrow> GlobalDuration ctx (fl_Name f) = GlobalDuration ctx' (fl_Name f))"

lemma registered_agree:
  assumes "cli_documented parse flags args env ctx" and "cli_documented parse flags args env ctx'" 
  shows "list_all (\<lambda>f. agree_on f ctx ctx') flags"
  unfolding list_all_iff
proof
  fix f assume f: "f \<in> set flags"
  have "IsSet ctx (fl_Name f) = IsSet ctx' (fl_Name f)" using assms f by (simp add: cli_documented_def)
  moreover note setting_looked_up [OF assms(1) f] setting_looked_up [OF assms(2) f] setting_kind [OF assms(1), of f]
  ultimately show "agree_on f ctx ctx'"
    by (cases "flag_setting parse args env f"; cases "fl_Value f") (simp_all add: agree_on_def)
qed

section \<open>Registered flags\<close>

text \<open>The node reads only registered flags, and as the kind they have.\<close>

lemmas node_flag_defs = L1NodeAddr_def L2EngineAddrs_def RollupConfig_def L2EthNodeAddr_def RPCListenAddr_def RPCListenPort_def L1TrustRPC_def
  SequencingEnabledFlag_def LogLevelFlag_def LogFormatFlag_def LogColorFlag_def SnapshotLog_def DisableP2P_def NoDiscovery_def P2PPrivPath_def
  P2PPrivRaw_def ListenIP_def ListenTCPPort_def ListenUDPPort_def AdvertiseIP_def AdvertiseTCPPort_def AdvertiseUDPPort_def Bootnodes_def
  StaticPeers_def HostMux_def HostSecurity_def PeersLo_def PeersHi_def PeersGrace_def NAT_def UserAgent_def TimeoutNegotiation_def TimeoutAccept_def
  TimeoutDial_def PeerstorePath_def DiscoveryPath_def SequencerP2PKeyFlag_def

lemmas batcher_flag_defs = batcher_L1EthRpcFlag_def batcher_L2EthRpcFlag_def batcher_RollupRpcFlag_def batcher_MinL1TxSizeBytesFlag_def
  batcher_MaxL1TxSizeBytesFlag_def batcher_PollIntervalFlag_def batcher_NumConfirmationsFlag_def batcher_SafeAbortNonceTooLowCountFlag_def
  batcher_ResubmissionTimeoutFlag_def batcher_MnemonicFlag_def batcher_SequencerHDPathFlag_def batcher_SequencerHistoryDBFilenameFlag_def
  batcher_SequencerGenesisHashFlag_def batcher_SequencerBatchInboxAddressFlag_def batcher_LogLevelFlag_def batcher_LogTerminalFlag_def

lemmas proposer_flag_defs = proposer_L1EthRpcFlag_def proposer_L2EthRpcFlag_def proposer_RollupRpcFlag_def proposer_L2OOAddressFlag_def
  proposer_PollIntervalFlag_def proposer_NumConfirmationsFlag_def proposer_SafeAbortNonceTooLowCountFlag_def proposer_ResubmissionTimeoutFlag_def
  proposer_MnemonicFlag_def proposer_L2OutputHDPathFlag_def proposer_LogLevelFlag_def proposer_LogTerminalFlag_def

lemma p2p_flags_determined:
  assumes "list_all (\<lambda>f. agree_on f ctx ctx') Flags"
  shows "p2p_flags_of ctx = p2p_flags_of ctx'"
  using assms by (simp add: Flags_def optionalFlags_def p2pFlags_def agree_on_def p2p_flags_of_def node_flag_defs)

lemma batcher_config_determined:
  assumes "list_all (\<lambda>f. agree_on f ctx ctx') batcher_Flags"
  shows "batcher_NewConfig ctx = batcher_NewConfig ctx'"
  using assms by (simp add: batcher_Flags_def batcher_requiredFlags_def batcher_optionalFlags_def agree_on_def batcher_NewConfig_def batcher_flag_defs)

lemma proposer_config_determined:
  assumes "list_all (\<lambda>f. agree_on f ctx ctx') proposer_Flags"
  shows "proposer_NewConfig ctx = proposer_NewConfig ctx'"
  using assms by (simp add: proposer_Flags_def proposer_requiredFlags_def proposer_optionalFlags_def agree_on_def proposer_NewConfig_def proposer_flag_defs)

text \<open>The unit tests of the flags packages: names are unique, and exactly the required flags are marked so.\<close>

lemma flag_names_distinct:
  "distinct (map fl_Name Flags)" "distinct (map fl_Name batcher_Flags)" "distinct (map fl_Name proposer_Flags)"
  by code_simp+

lemma flags_marked_required:
  "list_all fl_Required (requiredFlags @ batcher_requiredFlags @ proposer_requiredFlags)"
  "list_all (\<lambda>f. \<not> fl_Required f) (optionalFlags @ batcher_optionalFlags @ proposer_optionalFlags)"
  by code_simp+

section \<open>The default p2p configuration\<close>

definition default_p2p_flags :: p2p_flags where
  "default_p2p_flags = \<lparr>f_DisableP2P = False, f_NoDiscovery = False, f_P2PPrivPath = ''opnode_p2p_priv.txt'', f_P2PPrivRaw = [], f_ListenIP = ''0.0.0.0'',
     f_ListenTCPPort = 9222, f_ListenUDPPort = 0, f_AdvertiseIP = [], f_AdvertiseTCPPort = 0, f_AdvertiseUDPPort = 0, f_Bootnodes = [], f_StaticPeers = [],
     f_HostMux = ''yamux,mplex'', f_HostSecurity = ''noise'', f_PeersLo = 20, f_PeersHi = 30, f_PeersGrace = 30 * 1000 * Millisecond, f_NAT = False,
     f_UserAgent = ''optimism'', f_TimeoutNegotiation = 10 * 1000 * Millisecond, f_TimeoutAccept = 10 * 1000 * Millisecond,
     f_TimeoutDial = 10 * 1000 * Millisecond, f_PeerstorePath = ''opnode_peerstore_db'', f_DiscoveryPath = ''opnode_discovery_db''\<rparr>"

definition unset :: "cli_flag list \<Rightarrow> (string \<rightharpoonup> string) \<Rightarrow> (string \<rightharpoonup> string) \<Rightarrow> bool" where
  "unset flags args env \<longleftrightarrow> list_all (\<lambda>f. args (fl_Name f) = None \<and> env (fl_EnvVar f) = None) flags"

lemma unset_default:
  "cli_documented parse flags args env ctx \<Longrightarrow> set fs \<subseteq> set flags \<Longrightarrow> unset fs args env \<Longrightarrow> list_all (\<lambda>f. looks_up ctx (fl_Name f) (fl_Value f)) fs"
  using setting_looked_up [of parse flags args env ctx] by (force simp: unset_def list_all_iff flag_setting_def)

lemma p2p_flags_default:
  assumes "cli_documented parse Flags args env ctx" and "unset p2pFlags args env"
  shows "p2p_flags_of ctx = default_p2p_flags"
proof -
  have "list_all (\<lambda>f. looks_up ctx (fl_Name f) (fl_Value f)) p2pFlags"
    by (rule unset_default [OF assms(1) _ assms(2)]) (auto simp: Flags_def optionalFlags_def)
  then show ?thesis by (simp add: p2pFlags_def p2p_flags_of_def default_p2p_flags_def node_flag_defs)
qed

text \<open>What the libraries have to provide: constructors that succeed, an address parser that knows the default, databases that open.\<close>

definition libs_ready :: "('k, 'n, 'a, 'h, 'r) config_lib \<Rightarrow> bool" where
  "libs_ready L \<longleftrightarrow> net_ParseIP L ''0.0.0.0'' \<noteq> None \<and> (\<forall>s. MuxerConstructor L s = None) \<and> (\<forall>s. SecurityConstructor L s = None) \<and>
     (\<forall>p r. \<exists>h r'. enode_OpenDB L p r = (Inr h, r')) \<and> (\<forall>p r. \<exists>h r'. leveldb_NewDatastore L p r = (Inr h, r'))"

lemma default_strings:
  "split_comma ''yamux,mplex'' = [''yamux'', ''mplex'']" "split_comma ''noise'' = [''noise'']" "split_comma [] = [[]]"
  "norm ''yamux'' = ''yamux''" "norm ''mplex'' = ''mplex''" "norm ''noise'' = ''noise''" "TrimSpace [] = []"
proof -
  have "map split_comma [''yamux,mplex'', ''noise'', []] = [[''yamux'', ''mplex''], [''noise''], [[]]] \<and>
    map (\<lambda>v. norm v) [''yamux'', ''mplex'', ''noise''] = [''yamux'', ''mplex'', ''noise''] \<and> TrimSpace [] = []" by code_simp
  then show "split_comma ''yamux,mplex'' = [''yamux'', ''mplex'']" "split_comma ''noise'' = [''noise'']" "split_comma [] = [[]]"
    "norm ''yamux'' = ''yamux''" "norm ''mplex'' = ''mplex''" "norm ''noise'' = ''noise''" "TrimSpace [] = []" by simp_all
qed

lemma default_ports: "load_port m 9222 = Ok 9222" "load_port m 0 = Ok 0"
  by (simp_all add: load_port_def validatePort_def of_sum_def)

text \<open>Without any p2p option on the command line or in the environment, and with a network key at hand, the node gets a working and secure p2p
  configuration: it loads, passes its check, encrypts with noise only, listens on TCP port 9222 and knows no peers.\<close>

theorem default_p2p_config:
  assumes "cli_documented parse Flags args env ctx" and "unset p2pFlags args env" and "libs_ready L"
    and "loadNetworkPrivKey L default_p2p_flags w = (Ok k, w1)"
  shows "\<exists>conf w'. NewConfig L (p2p_flags_of ctx) w = (Ok conf, w') \<and> P2PConfig_Check conf = Ok () \<and> pc_Priv conf = Some k \<and>
    \<not> pc_NoTransportSecurity conf \<and> pc_HostSecurity conf = [noise_ID L] \<and> pc_HostMux conf = [''/yamux/1.0.0'', ''/mplex/6.7.0''] \<and>
    pc_ListenTCPPort conf = 9222 \<and> pc_Bootnodes conf = [] \<and> pc_StaticPeers conf = []"
proof -
  note ctx = p2p_flags_default [OF assms(1,2)]
  obtain a where a: "net_ParseIP L ''0.0.0.0'' = Some a" using assms(3) by (auto simp: libs_ready_def)
  obtain db x1 where db: "enode_OpenDB L ''opnode_discovery_db'' (pw_ext w1) = (Inr db, x1)" using assms(3) unfolding libs_ready_def by blast
  obtain st x2 where st: "leveldb_NewDatastore L ''opnode_peerstore_db'' x1 = (Inr st, x2)" using assms(3) unfolding libs_ready_def by blast
  have libs: "MuxerConstructor L s = None" "SecurityConstructor L s = None" for s using assms(3) by (auto simp: libs_ready_def)
  let ?c1 = "P2PConfig_zero\<lparr>pc_Priv := Some k, pc_ListenIP := Some a, pc_ListenTCPPort := 9222, pc_ListenUDPPort := 0\<rparr>"
  have 1: "loadListenOpts L default_p2p_flags (P2PConfig_zero\<lparr>pc_Priv := Some k\<rparr>) = Ok ?c1"
    by (simp add: loadListenOpts_def default_p2p_flags_def load_ip_def a default_ports)
  let ?c2 = "?c1\<lparr>pc_AdvertiseTCPPort := 0, pc_AdvertiseUDPPort := 0, pc_AdvertiseIP := None, pc_DiscoveryDB := Some db, pc_Bootnodes := []\<rparr>"
  have 2: "loadDiscoveryOpts L default_p2p_flags ?c1 w1 = (Ok ?c2, w1\<lparr>pw_ext := x1\<rparr>)"
    by (simp add: loadDiscoveryOpts_def default_p2p_flags_def load_ip_def default_ports discovery_path_def default_strings db of_sum_def rbind_def Let_def P2PConfig_zero_def)
  have 3: "\<exists>conf. loadLibp2pOpts L default_p2p_flags ?c2 (w1\<lparr>pw_ext := x1\<rparr>) = (Ok conf, w1\<lparr>pw_ext := x2\<rparr>) \<and> pc_Priv conf = Some k \<and>
      \<not> pc_NoTransportSecurity conf \<and> pc_HostSecurity conf = [noise_ID L] \<and> pc_HostMux conf = [''/yamux/1.0.0'', ''/mplex/6.7.0''] \<and>
      pc_ListenTCPPort conf = 9222 \<and> pc_Bootnodes conf = [] \<and> pc_StaticPeers conf = [] \<and> pc_Store conf = Some st \<and> pc_DiscoveryDB conf = Some db \<and>
      pc_PeersLo conf = 20 \<and> pc_PeersHi conf = 30"
    by (simp add: loadLibp2pOpts_def default_p2p_flags_def default_strings yamuxC_def mplexC_def noiseC_def libs of_sum_def load_options_def open_store_def st
        rbind_def Let_def P2PConfig_zero_def)
  from 1 2 3 assms(4) show ?thesis
    by (fastforce simp: ctx NewConfig_def rbind_def rmap_err_def P2PConfig_Check_def default_p2p_flags_def)
qed

section \<open>Environment variables\<close>

text \<open>Two pairs of flags of the node share an environment variable. Setting the boot nodes by the environment therefore also sets the static
  peers; a boot node record is no multi-address, so the configuration does not load.\<close>

theorem env_vars_shared:
  "fl_EnvVar Bootnodes = fl_EnvVar StaticPeers" "fl_EnvVar AdvertiseTCPPort = fl_EnvVar AdvertiseUDPPort"
  "distinct (map fl_EnvVar (filter (\<lambda>f. f \<noteq> StaticPeers \<and> f \<noteq> AdvertiseUDPPort) Flags))"
  "distinct (map fl_EnvVar batcher_Flags)" "distinct (map fl_EnvVar proposer_Flags)"
  by code_simp+

lemma parse_entries_bad:
  "r \<in> set rs \<Longrightarrow> TrimSpace r \<noteq> [] \<Longrightarrow> parse (TrimSpace r) = Inl e \<Longrightarrow> parse_entries parse m rs \<noteq> Ok xs"
  by (induction rs arbitrary: xs) (auto simp: Let_def bind_res_Ok_iff split: sum.splits)

theorem bootnodes_variable_breaks_config:
  assumes "cli_documented parse Flags args env ctx" and "args (fl_Name Bootnodes) = None" and "args (fl_Name StaticPeers) = None"
    and "env (p2pEnv ''BOOTNODES'') = Some s" and "\<not> GlobalBool ctx (fl_Name DisableP2P)"
    and "r \<in> set (split_comma s)" and "TrimSpace r \<noteq> []" and "multiaddr_New L (TrimSpace r) = Inl e"
  shows "f_Bootnodes (p2p_flags_of ctx) = s \<and> f_StaticPeers (p2p_flags_of ctx) = s \<and> NewConfig L (p2p_flags_of ctx) w \<noteq> (Ok conf, w')"
proof -
  have "Bootnodes \<in> set Flags" "StaticPeers \<in> set Flags" by (simp_all add: Flags_def optionalFlags_def p2pFlags_def)
  from this [THEN setting_looked_up [OF assms(1)]] assms(1-4)
  have s: "f_Bootnodes (p2p_flags_of ctx) = s" "f_StaticPeers (p2p_flags_of ctx) = s"
    by (simp_all add: cli_documented_def flag_setting_def p2p_flags_of_def Bootnodes_def StaticPeers_def)
  have "NewConfig L (p2p_flags_of ctx) w \<noteq> (Ok conf, w')"
  proof
    assume run: "NewConfig L (p2p_flags_of ctx) w = (Ok conf, w')"
    have on: "\<not> f_DisableP2P (p2p_flags_of ctx)" using assms(5) by (simp add: p2p_flags_of_def)
    obtain conf2 w2 conf3 where "loadLibp2pOpts L (p2p_flags_of ctx) conf2 w2 = (Ok conf3, w')" by (rule NewConfig_stages [OF run on])
    then obtain xs where "parse_entries (multiaddr_New L) ''failed to parse multi addr of static peer'' (split_comma s) = Ok xs"
      by (auto simp: loadLibp2pOpts_def s res_simps)
    with parse_entries_bad [of r "split_comma s" "multiaddr_New L"] assms(6-8) show False by blast
  qed
  with s show ?thesis by simp
qed

section \<open>A concrete command line\<close>

text \<open>Nothing is given: every registered flag has its default.\<close>

definition demo_lookup :: "cli_flag list \<Rightarrow> string \<Rightarrow> flag_value" where
  "demo_lookup flags n = (case map_of (map (\<lambda>f. (fl_Name f, fl_Value f)) flags) n of None \<Rightarrow> VBool False | Some v \<Rightarrow> v)"

definition demo_ctx :: "cli_flag list \<Rightarrow> cli_ctx" where
  "demo_ctx flags =
     \<lparr>GlobalString = (\<lambda>n. case demo_lookup flags n of VString s \<Rightarrow> s | _ \<Rightarrow> []), GlobalStringSlice = (\<lambda>n. case demo_lookup flags n of VStrings s \<Rightarrow> s | _ \<Rightarrow> []),
      GlobalInt = (\<lambda>n. case demo_lookup flags n of VInt i \<Rightarrow> i | _ \<Rightarrow> 0), GlobalUint = (\<lambda>n. case demo_lookup flags n of VUint u \<Rightarrow> u | _ \<Rightarrow> 0),
      GlobalUint64 = (\<lambda>n. case demo_lookup flags n of VUint64 u \<Rightarrow> u | _ \<Rightarrow> 0), GlobalBool = (\<lambda>n. case demo_lookup flags n of VBool b \<Rightarrow> b | _ \<Rightarrow> False),
      GlobalDuration = (\<lambda>n. case demo_lookup flags n of VDuration d \<Rightarrow> d | _ \<Rightarrow> 0), IsSet = (\<lambda>n. False)\<rparr>"

fun demo_parse :: "flag_value \<Rightarrow> string \<Rightarrow> flag_value" where
  "demo_parse (VString d) s = VString s"
| "demo_parse v s = v"

lemma demo_documented:
  assumes "distinct (map fl_Name flags)"
  shows "cli_documented demo_parse flags (\<lambda>_. None) (\<lambda>_. None) (demo_ctx flags)"
proof -
  have "demo_lookup flags (fl_Name f) = fl_Value f" if "f \<in> set flags" for f
  proof -
    have "distinct (map fst (map (\<lambda>f. (fl_Name f, fl_Value f)) flags))" using assms by (simp add: o_def)
    moreover have "(fl_Name f, fl_Value f) \<in> set (map (\<lambda>f. (fl_Name f, fl_Value f)) flags)" using that by auto
    ultimately have "map_of (map (\<lambda>f. (fl_Name f, fl_Value f)) flags) (fl_Name f) = Some (fl_Value f)" by (rule map_of_is_SomeI)
    then show ?thesis by (simp add: demo_lookup_def)
  qed
  then have "looks_up (demo_ctx flags) (fl_Name f) (fl_Value f)" if "f \<in> set flags" for f
    using that by (cases "fl_Value f") (simp_all add: demo_ctx_def)
  moreover have "flag_kind (demo_parse v s) = flag_kind v" for v s by (cases v) simp_all
  ultimately show ?thesis by (simp add: cli_documented_def flag_setting_def) (simp add: demo_ctx_def)
qed

theorem default_p2p_config_witness:
  "\<exists>conf w'. NewConfig demo_config_lib (p2p_flags_of (demo_ctx Flags)) demo_p2p_world = (Ok conf, w') \<and> pc_HostSecurity conf = [''/noise'']"
proof -
  have libs: "libs_ready demo_config_lib" by (simp add: libs_ready_def demo_config_lib_def)
  have unset: "unset p2pFlags (\<lambda>_. None) (\<lambda>_. None)" by (simp add: unset_def list_all_iff)
  obtain w1 where key: "loadNetworkPrivKey demo_config_lib default_p2p_flags demo_p2p_world = (Ok [3, 47], w1)"
    by (simp add: loadNetworkPrivKey_def store_new_key_def demo_config_lib_def default_p2p_flags_def demo_p2p_world_def)
  from default_p2p_config [OF demo_documented [OF flag_names_distinct(1)] unset libs key]
  show ?thesis by (auto simp: demo_config_lib_def)
qed

end
