(* ===== verification/Discovery.thy ===== *)
theory Discovery
  imports P2PConfig
begin

unbundle bit_operations_syntax

text \<open>
  Peer discovery (\<open>op-node/p2p/discovery.go\<close>, \<open>prepared.go\<close>, and the address helpers of \<open>host.go\<close> and \<open>node.go\<close>): the
  \<open>optimism\<close> entry of node records with its encoding, the filter on chain id and version, the record a node
  publishes, and the discovery process with its goroutines and channels as a step relation. RLP, discv5, the
  peerstore and libp2p are outside the repository: they are parameters or choices of the environment.
\<close>

section \<open>Variable-length integers (package encoding/binary)\<close>

function PutUvarint :: "u64 \<Rightarrow> bytes" where
  "PutUvarint x = (if x \<ge> 128 then (ucast x OR 128) # PutUvarint (drop_bit 7 x) else [ucast x])"
  by pat_completeness auto

termination
proof (relation "measure unat", goal_cases)
  case (2 x)
  then have "128 \<le> unat x" by (simp add: word_le_nat_alt)
  then show ?case by (simp add: drop_bit_eq_div unat_div)
qed simp

declare PutUvarint.simps [simp del]

definition MaxVarintLen64 :: nat where
  "MaxVarintLen64 = 10"

text \<open>The loop of \<open>ReadUvarint\<close> at index \<open>i\<close> with the value \<open>x\<close> and the shift \<open>s\<close> so far.\<close>

function ReadUvarint_loop :: "nat \<Rightarrow> u64 \<Rightarrow> nat \<Rightarrow> bytes \<Rightarrow> error + u64 \<times> bytes" where
  "ReadUvarint_loop i x s r =
     (if i \<ge> MaxVarintLen64 then Inl (ErrMsg ''binary: varint overflows a 64-bit integer'')
      else (case r of
          [] \<Rightarrow> Inl (ErrMsg ''EOF'')
        | b # r' \<Rightarrow>
            if b < 128 then
              if i = MaxVarintLen64 - 1 \<and> b > 1 then Inl (ErrMsg ''binary: varint overflows a 64-bit integer'')
              else Inr (x OR push_bit s (ucast b), r')
            else ReadUvarint_loop (i + 1) (x OR push_bit s (ucast (b AND 127))) (s + 7) r'))"
  by pat_completeness auto

termination by (relation "measure (\<lambda>(i, x, s, r). length r)") auto

declare ReadUvarint_loop.simps [simp del]

definition ReadUvarint :: "bytes \<Rightarrow> error + u64 \<times> bytes" where
  "ReadUvarint r = ReadUvarint_loop 0 0 0 r"

section \<open>The optimism entry of a node record\<close>

record OptimismENRData =
  oe_chainID :: u64
  oe_version :: u64

definition ENRKey :: string where
  "ENRKey = ''optimism''"

text \<open>\<open>rlp.Encode\<close> of a byte string, and the byte string that \<open>Stream.Bytes\<close> reads.\<close>

record ('n, 'p, 'a) disc_lib =
  rlp_Encode :: "bytes \<Rightarrow> bytes"
  rlp_Bytes :: "bytes \<Rightarrow> error + bytes"
  node_entry :: "'n \<Rightarrow> string \<Rightarrow> bytes option"     \<comment> \<open>the RLP value of a key of a node record\<close>
  node_IP :: "'n \<Rightarrow> ip"
  node_TCP :: "'n \<Rightarrow> nat"
  IDFromPublicKey :: "'n \<Rightarrow> error + 'p"
  ip6_String :: "ip \<Rightarrow> string"
  NewMultiaddr :: "string \<Rightarrow> error + 'a"

definition rlp_ok :: "('n, 'p, 'a) disc_lib \<Rightarrow> bool" where
  "rlp_ok L \<longleftrightarrow> (\<forall>b. rlp_Bytes L (rlp_Encode L b) = Inr b)"

text \<open>The buffer has room for two integers of maximal length; \<open>out[:offset]\<close> is what was written.\<close>

definition EncodeRLP :: "('n, 'p, 'a) disc_lib \<Rightarrow> OptimismENRData \<Rightarrow> bytes res" where
  "EncodeRLP L o1 =
     (let c = PutUvarint (oe_chainID o1); v = PutUvarint (oe_version o1) in
      if length c + length v > 2 * MaxVarintLen64 then Panic ''index out of range''
      else Ok (rlp_Encode L (c @ v)))"

definition DecodeRLP :: "('n, 'p, 'a) disc_lib \<Rightarrow> bytes \<Rightarrow> error + OptimismENRData" where
  "DecodeRLP L s =
     (case rlp_Bytes L s of
        Inl e \<Rightarrow> Inl (ErrMsg ''failed to decode outer ENR entry'')
      | Inr b \<Rightarrow>
          (case ReadUvarint b of
             Inl e \<Rightarrow> Inl (ErrMsg ''failed to read chain ID var int'')
           | Inr (chainID, r) \<Rightarrow>
               (case ReadUvarint r of
                  Inl e \<Rightarrow> Inl (ErrMsg ''failed to read version var int'')
                | Inr (version, r') \<Rightarrow> Inr \<lparr>oe_chainID = chainID, oe_version = version\<rparr>)))"

definition node_Load :: "('n, 'p, 'a) disc_lib \<Rightarrow> 'n \<Rightarrow> error + OptimismENRData" where
  "node_Load L node = (case node_entry L node ENRKey of None \<Rightarrow> Inl NotFound | Some v \<Rightarrow> DecodeRLP L v)"

definition FilterEnodes :: "('n, 'p, 'a) disc_lib \<Rightarrow> Config \<Rightarrow> 'n \<Rightarrow> bool" where
  "FilterEnodes L cfg node =
     (case node_Load L node of
        Inl err \<Rightarrow> False
      | Inr dat \<Rightarrow>
          if (of_int (cfg_L2ChainID cfg) :: u64) \<noteq> oe_chainID dat then False
          else if oe_version dat \<noteq> 0 then False
          else True)"

section \<open>Addresses\<close>

definition To4 :: "ip \<Rightarrow> ip option" where
  "To4 a = (if length a = 4 then Some a
            else if length a = 16 \<and> take 12 a = replicate 10 0 @ [255, 255] then Some (drop 12 a)
            else None)"

definition ip4_String :: "ip \<Rightarrow> string" where
  "ip4_String a = nat_String (unat (a ! 0)) @ ''.'' @ nat_String (unat (a ! 1)) @ ''.'' @ nat_String (unat (a ! 2)) @ ''.'' @ nat_String (unat (a ! 3))"

definition addr_text :: "('n, 'p, 'a) disc_lib \<Rightarrow> ip \<Rightarrow> nat \<Rightarrow> string" where
  "addr_text L a port =
     (case To4 a of
        Some a4 \<Rightarrow> ''/ip4/'' @ ip4_String a4 @ ''/tcp/'' @ nat_String port
      | None \<Rightarrow> ''/ip6/'' @ (if a = [] then ''<nil>'' else ip6_String L a) @ ''/tcp/'' @ nat_String port)"

definition enrToAddrInfo :: "('n, 'p, 'a) disc_lib \<Rightarrow> 'n \<Rightarrow> error + 'p \<times> 'a" where
  "enrToAddrInfo L r =
     (case NewMultiaddr L (addr_text L (node_IP L r) (node_TCP L r)) of
        Inl e \<Rightarrow> Inl (ErrMsg ''could not construct multi addr'')
      | Inr mAddr \<Rightarrow>
          (case IDFromPublicKey L r of
             Inl e \<Rightarrow> Inl (ErrMsg ''could not compute peer ID from pubkey for multi-addr'')
           | Inr peerID \<Rightarrow> Inr (peerID, mAddr)))"

text \<open>A missing listen IP is the nil slice.\<close>

definition addrFromIPAndPort :: "('n, 'p, 'a) disc_lib \<Rightarrow> ip option \<Rightarrow> 16 word \<Rightarrow> error + 'a" where
  "addrFromIPAndPort L a port = NewMultiaddr L (addr_text L (case a of None \<Rightarrow> [] | Some b \<Rightarrow> b) (unat port))"

text \<open>The TCP component of each address of the host, when it has one.\<close>

fun ParseUint :: "nat \<Rightarrow> string \<Rightarrow> nat option" where
  "ParseUint acc [] = Some acc"
| "ParseUint acc (c # cs) = (let d = (of_char c :: nat) in
     if 48 \<le> d \<and> d \<le> 57 then ParseUint (10 * acc + (d - 48)) cs else None)"

fun FindActiveTCPPort :: "string option list \<Rightarrow> 16 word" where
  "FindActiveTCPPort [] = 0"
| "FindActiveTCPPort (None # addrs) = FindActiveTCPPort addrs"
| "FindActiveTCPPort (Some s # addrs) =
     (if s = [] then FindActiveTCPPort addrs
      else (case ParseUint 0 s of
          None \<Rightarrow> FindActiveTCPPort addrs
        | Some v \<Rightarrow> if v < 2 ^ 16 then of_nat v else FindActiveTCPPort addrs))"

section \<open>The record a node publishes\<close>

record local_node =
  ln_entries :: "string \<rightharpoonup> bytes"
  ln_staticIP :: "ip option"
  ln_fallbackUDP :: "nat option"
  ln_TCP :: "16 word option"

definition set_optimism :: "('n, 'p, 'a) disc_lib \<Rightarrow> Config \<Rightarrow> local_node \<Rightarrow> local_node res" where
  "set_optimism L cfg node =
     bind_res (EncodeRLP L \<lparr>oe_chainID = of_int (cfg_L2ChainID cfg), oe_version = 0\<rparr>) (\<lambda>v.
     Ok (node\<lparr>ln_entries := (ln_entries node)(ENRKey \<mapsto> v)\<rparr>))"

definition record_ports :: "('k, 'n, 'a, 'h) P2PConfig \<Rightarrow> 16 word \<Rightarrow> local_node res" where
  "record_ports conf tcpPort =
     (let ln0 = \<lparr>ln_entries = Map.empty, ln_staticIP = pc_AdvertiseIP conf,
                 ln_fallbackUDP = (if pc_AdvertiseUDPPort conf \<noteq> 0 then Some (unat (pc_AdvertiseUDPPort conf)) else None), ln_TCP = None\<rparr> in
      if pc_AdvertiseTCPPort conf \<noteq> 0 then Ok (ln0\<lparr>ln_TCP := Some (pc_AdvertiseTCPPort conf)\<rparr>)
      else if tcpPort \<noteq> 0 then Ok (ln0\<lparr>ln_TCP := Some tcpPort\<rparr>)
      else if pc_ListenTCPPort conf \<noteq> 0 then Ok (ln0\<lparr>ln_TCP := Some (pc_ListenTCPPort conf)\<rparr>)
      else Err (ErrMsg ''no TCP port to put in discovery record''))"

text \<open>\<open>net.ListenUDP\<close> gives a connection and its port, \<open>discover.ListenV5\<close> the service. Without discovery all results
  are nil.\<close>

definition Discovery ::
  "('n, 'p, 'a) disc_lib \<Rightarrow> (ip option \<Rightarrow> 16 word \<Rightarrow> ('w, 'c \<times> nat) rpc) \<Rightarrow> ('c \<Rightarrow> local_node \<Rightarrow> 'n list \<Rightarrow> ('w, 'u) rpc) \<Rightarrow>
   ('k, 'n, 'a, 'h) P2PConfig \<Rightarrow> Config \<Rightarrow> 16 word \<Rightarrow> ('w, (local_node \<times> 'u) option) rpc" where
  "Discovery L listenUDP listenV5 conf rollupCfg tcpPort =
     (if pc_NoDiscovery conf then ret None
      else if pc_Priv conf = None then lift_res (Panic ''nil pointer dereference'')
      else
        rbind (lift_res (record_ports conf tcpPort)) (\<lambda>ln1.
        rbind (lift_res (set_optimism L rollupCfg ln1)) (\<lambda>ln2.
        rbind (listenUDP (pc_ListenIP conf) (pc_ListenUDPPort conf)) (\<lambda>(conn, port).
        let ln3 = (if pc_ListenUDPPort conf = 0 then ln2\<lparr>ln_fallbackUDP := Some port\<rparr> else ln2) in
        rbind (listenV5 conn ln3 (pc_Bootnodes conf)) (\<lambda>udpV5.
        ret (Some (ln3, udpV5)))))))"

text \<open>\<open>Prepared\<close>: the services are already set up.\<close>

definition Prepared_Check :: "'host option \<Rightarrow> local_node option \<Rightarrow> 'u option \<Rightarrow> unit res" where
  "Prepared_Check hostP2P localNode udpV5 =
     (if (localNode = None) \<noteq> (udpV5 = None) then Err (ErrMsg ''inconsistent discv5 setup'')
      else if localNode \<noteq> None \<and> hostP2P = None then Err (ErrMsg ''cannot provide discovery without p2p host'')
      else Ok ())"

definition Prepared_Discovery :: "('n, 'p, 'a) disc_lib \<Rightarrow> local_node option \<Rightarrow> 'u option \<Rightarrow> Config \<Rightarrow> 16 word \<Rightarrow> (local_node option \<times> 'u option) res" where
  "Prepared_Discovery L localNode udpV5 rollupCfg tcpPort =
     (case localNode of
        None \<Rightarrow> Ok (None, udpV5)
      | Some node \<Rightarrow> bind_res (set_optimism L rollupCfg node) (\<lambda>ln1.
          Ok (Some (if tcpPort \<noteq> 0 then ln1\<lparr>ln_TCP := Some tcpPort\<rparr> else ln1), udpV5)))"

section \<open>The entry is read back, and the filter\<close>

lemma take_push_drop: "take_bit n (x::64 word) OR push_bit n (drop_bit n x) = x"
  by (rule bit_word_eqI) (auto simp: bit_simps, metis le_add_diff_inverse not_le)

lemma bit_128_byte: "bit (128::8 word) n \<longleftrightarrow> n = 7"
proof -
  have "(128::8 word) = 2 ^ 7" by simp
  then show ?thesis by (simp only: bit_exp_iff) auto
qed

lemma bit_128_int: "bit (128::int) n \<longleftrightarrow> n = 7"
proof -
  have "(128::int) = 2 ^ 7" by simp
  then show ?thesis by (simp only: bit_exp_iff) auto
qed

lemma mask_7: "(127::8 word) = mask 7" by (simp add: mask_eq_exp_minus_1)

lemma below_128_bit: assumes "b < 128" shows "\<not> bit (b::8 word) 7"
proof -
  have "unat b div 2 ^ 7 = 0" using assms by (simp add: word_less_nat_alt)
  then have "\<not> bit (unat b) 7" by (simp add: bit_iff_odd)
  then show ?thesis by (simp add: bit_simps)
qed

lemma high_byte_ge: "\<not> (b OR 128 :: 8 word) < 128"
  using below_128_bit [of "b OR 128"] by (auto simp: bit_or_iff bit_128_byte)

lemma high_byte_low: "ucast ((ucast (x::64 word) OR 128 :: 8 word) AND 127) = take_bit 7 x"
  by (rule bit_word_eqI) (auto simp: mask_7 bit_simps bit_128_byte bit_128_int)

lemma low_byte: "x < 128 \<Longrightarrow> ucast (ucast (x::64 word) :: 8 word) = x"
  by (simp add: word_unat_eq_iff word_less_nat_alt unsigned_ucast_eq take_bit_eq_mod unat_mod)

lemma low_byte_less: "x < 128 \<Longrightarrow> (ucast (x::64 word) :: 8 word) < 128"
  by (simp add: word_less_nat_alt unsigned_ucast_eq take_bit_eq_mod)

lemma push_or: "push_bit n x OR push_bit n y = push_bit n (x OR (y::u64))"
  by (rule bit_word_eqI) (auto simp: bit_simps)

lemma ReadUvarint_loop_PutUvarint:
  assumes "unat y < 2 ^ (64 - 7 * i)" and "i < MaxVarintLen64"
  shows "ReadUvarint_loop i x (7 * i) (PutUvarint y @ r) = Inr (x OR push_bit (7 * i) y, r)"
  using assms
proof (induction y arbitrary: i x rule: PutUvarint.induct)
  case (1 y)
  show ?case
  proof (cases "128 \<le> y")
    case True
    then have y: "128 \<le> unat y" by (simp add: word_le_nat_alt)
    have "i \<noteq> 9"
    proof
      assume "i = 9"
      with 1(2) y show False by simp
    qed
    with 1(3) have i: "i \<le> 8" by (simp add: MaxVarintLen64_def)
    have "unat (drop_bit 7 y) < 2 ^ (64 - 7 * (i + 1))"
    proof -
      have "64 - 7 * i = 7 + (64 - 7 * (i + 1))" using i by simp
      then have "unat y < 128 * 2 ^ (64 - 7 * (i + 1))" using 1(2) by (simp only: power_add) simp
      then show ?thesis by (simp add: drop_bit_eq_div unat_div less_mult_imp_div_less mult.commute)
    qed
    from 1(1) [OF True this, of "x OR push_bit (7 * i) (take_bit 7 y)"] i
    have "ReadUvarint_loop (i + 1) (x OR push_bit (7 * i) (take_bit 7 y)) (7 * i + 7) (PutUvarint (drop_bit 7 y) @ r) =
        Inr (x OR push_bit (7 * i) (take_bit 7 y) OR push_bit (7 * i + 7) (drop_bit 7 y), r)"
      by (simp add: MaxVarintLen64_def add.commute or.assoc)
    also have "push_bit (7 * i + 7) (drop_bit 7 y) = push_bit (7 * i) (push_bit 7 (drop_bit 7 y))" by simp
    also have "x OR push_bit (7 * i) (take_bit 7 y) OR push_bit (7 * i) (push_bit 7 (drop_bit 7 y)) = x OR push_bit (7 * i) y"
      by (simp only: or.assoc push_or take_push_drop)
    finally show ?thesis using True i
      by (subst PutUvarint.simps, subst ReadUvarint_loop.simps) (simp add: high_byte_ge high_byte_low MaxVarintLen64_def)
  next
    case False
    then have y: "y < 128" by simp
    have "\<not> (i = 9 \<and> (ucast y :: byte) > 1)"
    proof
      assume i: "i = 9 \<and> (ucast y :: byte) > 1"
      with 1(2) have "unat y < 2" by simp
      with i show False by (simp add: word_less_nat_alt unsigned_ucast_eq take_bit_eq_mod)
    qed
    then show ?thesis using False 1(3)
      by (subst PutUvarint.simps, subst ReadUvarint_loop.simps) (simp add: low_byte [OF y] low_byte_less [OF y] MaxVarintLen64_def)
  qed
qed

lemma ReadUvarint_PutUvarint: "ReadUvarint (PutUvarint y @ r) = Inr (y, r)"
  using ReadUvarint_loop_PutUvarint [of y 0 0 r] unsigned_less [of y, where ?'a = nat] by (simp add: ReadUvarint_def MaxVarintLen64_def)

lemma length_PutUvarint: "unat y < 2 ^ (7 * n) \<Longrightarrow> 0 < n \<Longrightarrow> length (PutUvarint y) \<le> n"
proof (induction y arbitrary: n rule: PutUvarint.induct)
  case (1 y)
  show ?case
  proof (cases "128 \<le> y")
    case True
    then have y: "128 \<le> unat y" by (simp add: word_le_nat_alt)
    obtain m where n: "n = Suc m" using 1(3) by (cases n) auto
    have "0 < m" using y 1(2) n by (cases m) auto
    moreover have "unat (drop_bit 7 y) < 2 ^ (7 * m)"
      using 1(2) by (simp add: n drop_bit_eq_div unat_div less_mult_imp_div_less power_add mult.commute)
    ultimately show ?thesis using 1(1) [OF True] True n by (subst PutUvarint.simps) simp
  next
    case False
    with 1(3) show ?thesis by (subst PutUvarint.simps) simp
  qed
qed

lemma EncodeRLP_Ok: "EncodeRLP L d = Ok (rlp_Encode L (PutUvarint (oe_chainID d) @ PutUvarint (oe_version d)))"
proof -
  have "length (PutUvarint y) \<le> 10" for y
    using length_PutUvarint [of y 10] unsigned_less [of y, where ?'a = nat] by simp
  then have "length (PutUvarint (oe_chainID d)) + length (PutUvarint (oe_version d)) \<le> 10 + 10"
    by (intro add_mono)
  then show ?thesis by (simp add: EncodeRLP_def Let_def MaxVarintLen64_def)
qed

lemma DecodeRLP_EncodeRLP: "rlp_ok L \<Longrightarrow> DecodeRLP L (rlp_Encode L (PutUvarint (oe_chainID d) @ PutUvarint (oe_version d))) = Inr d"
  using ReadUvarint_PutUvarint [of "oe_version d" "[]"] by (simp add: DecodeRLP_def rlp_ok_def ReadUvarint_PutUvarint)

text \<open>The record that \<open>Discovery\<close> publishes carries a nonzero TCP port, the advertised one before the bound and the configured one,
  and its \<open>optimism\<close> entry is read back by other nodes as the chain id of the rollup and version zero: the filter of another node lets it
  pass exactly if both chain ids agree modulo \<open>2 ^ 64\<close>.\<close>

theorem published_record_filtered:
  assumes "rlp_ok L" and "Discovery L listenUDP listenV5 conf cfg tcpPort w = (Ok (Some (local, u)), w')"
    and "node_entry L n ENRKey = ln_entries local ENRKey"
  shows "node_Load L n = Inr \<lparr>oe_chainID = of_int (cfg_L2ChainID cfg), oe_version = 0\<rparr> \<and>
    (FilterEnodes L cfg' n \<longleftrightarrow> (of_int (cfg_L2ChainID cfg') :: u64) = of_int (cfg_L2ChainID cfg)) \<and>
    (\<exists>p. ln_TCP local = Some p \<and> p \<noteq> 0 \<and>
      p = (if pc_AdvertiseTCPPort conf \<noteq> 0 then pc_AdvertiseTCPPort conf else if tcpPort \<noteq> 0 then tcpPort else pc_ListenTCPPort conf))"
proof -
  from assms(2) obtain ln1 ln2 where r: "record_ports conf tcpPort = Ok ln1" "set_optimism L cfg ln1 = Ok ln2"
    "ln_entries local = ln_entries ln2" "ln_TCP local = ln_TCP ln2"
    by (auto simp: Discovery_def res_simps Let_def split: if_splits)
  let ?d = "\<lparr>oe_chainID = of_int (cfg_L2ChainID cfg), oe_version = 0\<rparr> :: OptimismENRData"
  have e: "ln_entries ln2 ENRKey = Some (rlp_Encode L (PutUvarint (oe_chainID ?d) @ PutUvarint (oe_version ?d)))" "ln_TCP ln2 = ln_TCP ln1"
    using r(2) by (auto simp: set_optimism_def EncodeRLP_Ok)
  have "node_Load L n = Inr ?d"
    unfolding node_Load_def assms(3) r(3) e(1) by (simp only: option.case DecodeRLP_EncodeRLP [OF assms(1)])
  moreover from this have "FilterEnodes L cfg' n \<longleftrightarrow> (of_int (cfg_L2ChainID cfg') :: u64) = of_int (cfg_L2ChainID cfg)"
    by (simp add: FilterEnodes_def)
  ultimately show ?thesis using r(1,4) e(2) by (auto simp: record_ports_def Let_def split: if_splits)
qed

section \<open>The discovery process\<close>

text \<open>The state of \<open>DiscoveryProcess\<close>: the two channels, the speed of the tickers, the addresses added to the
  peerstore, where the main loop, the two goroutines that feed nodes and the connection workers are, whether the context
  is cancelled, and the connections tried so far. A panic of a goroutine is a point of its own.\<close>

datatype 'p main_point = MainSelect | MainDial "'p list" "'p list" | MainReturned
datatype 'n buffer_point = BufSelect | BufSend 'n | BufReturned | BufPanic
datatype 'n kick_point = KickWait | KickSend "'n list" | KickReturned | KickPanic
datatype 'p worker_point = WorkerWait | WorkerConnect 'p | WorkerReturned

record ('n, 'p, 'a) disc_state =
  ds_nodes :: "'n list"               \<comment> \<open>\<open>randomNodesCh\<close>\<close>
  ds_attempts :: "'p list"            \<comment> \<open>\<open>connAttempts\<close>\<close>
  ds_closed :: bool                   \<comment> \<open>both channels are closed when the main loop returns\<close>
  ds_fast :: bool
  ds_store :: "('p \<times> 'a) list"
  ds_main :: "'p main_point"
  ds_buffer :: "'n buffer_point"
  ds_kick :: "'n kick_point"
  ds_workers :: "'p worker_point list"
  ds_cancelled :: bool
  ds_connects :: "'p list"

definition connectionWorkerCount :: nat where "connectionWorkerCount = 4"
definition connectionBufferSize :: nat where "connectionBufferSize = 10"
definition discoveredNodesBuffer :: nat where "discoveredNodesBuffer = 3"

definition disc_start :: "('n, 'p, 'a) disc_state" where
  "disc_start = \<lparr>ds_nodes = [], ds_attempts = [], ds_closed = False, ds_fast = True, ds_store = [], ds_main = MainSelect,
     ds_buffer = BufSelect, ds_kick = KickWait, ds_workers = replicate connectionWorkerCount WorkerWait, ds_cancelled = False, ds_connects = []\<rparr>"

text \<open>A found node is added to the peerstore when its entry loads and its address can be built.\<close>

definition on_found :: "('n, 'p, 'a) disc_lib \<Rightarrow> 'n \<Rightarrow> ('n, 'p, 'a) disc_state \<Rightarrow> ('n, 'p, 'a) disc_state" where
  "on_found L found s =
     (case node_Load L found of
        Inl err \<Rightarrow> s
      | Inr dat \<Rightarrow> (case enrToAddrInfo L found of
            Inl err \<Rightarrow> s
          | Inr info \<Rightarrow> s\<lparr>ds_store := ds_store s @ [info]\<rparr>))"

text \<open>The steps. The environment chooses the connected peers, the nodes the DHT walk and the table hold, the shuffled peers with
  addresses and whether a peer cannot be connected to, and when timers fire and contexts expire.\<close>

inductive disc_step :: "('n, 'p, 'a) disc_lib \<Rightarrow> Config \<Rightarrow> u64 \<Rightarrow> 'p \<Rightarrow> ('n, 'p, 'a) disc_state \<Rightarrow> ('n, 'p, 'a) disc_state \<Rightarrow> bool"
  for L cfg connectGoal self where
  cancel: "disc_step L cfg connectGoal self s (s\<lparr>ds_cancelled := True\<rparr>)"
| main_return: "ds_main s = MainSelect \<Longrightarrow> ds_cancelled s \<Longrightarrow>
    disc_step L cfg connectGoal self s (s\<lparr>ds_main := MainReturned, ds_closed := True\<rparr>)"
| main_found: "ds_main s = MainSelect \<Longrightarrow> ds_nodes s = found # ns \<Longrightarrow>
    disc_step L cfg connectGoal self s (on_found L found (s\<lparr>ds_nodes := ns\<rparr>))"
| tick_slower: "ds_main s = MainSelect \<Longrightarrow> \<not> of_nat (length (existing :: 'p list)) < connectGoal \<Longrightarrow>
    disc_step L cfg connectGoal self s (s\<lparr>ds_fast := False\<rparr>)"
| tick_no_shuffle: "ds_main s = MainSelect \<Longrightarrow> of_nat (length (existing :: 'p list)) < connectGoal \<Longrightarrow>
    disc_step L cfg connectGoal self s (s\<lparr>ds_fast := True\<rparr>)"
| tick_dial: "ds_main s = MainSelect \<Longrightarrow> of_nat (length (existing :: 'p list)) < connectGoal \<Longrightarrow>
    disc_step L cfg connectGoal self s (s\<lparr>ds_fast := True, ds_main := MainDial existing shuffled\<rparr>)"
| dial_end: "ds_main s = MainDial existing [] \<Longrightarrow>
    disc_step L cfg connectGoal self s (s\<lparr>ds_main := MainSelect\<rparr>)"
| dial_skip: "ds_main s = MainDial existing (p # ps) \<Longrightarrow> p = self \<or> p \<in> set existing \<or> cannotConnect \<Longrightarrow>
    disc_step L cfg connectGoal self s (s\<lparr>ds_main := MainDial existing ps\<rparr>)"
| dial_send: "ds_main s = MainDial existing (p # ps) \<Longrightarrow> p \<noteq> self \<Longrightarrow> p \<notin> set existing \<Longrightarrow> \<not> cannotConnect \<Longrightarrow>
    length (ds_attempts s) < connectionBufferSize \<Longrightarrow>
    disc_step L cfg connectGoal self s (s\<lparr>ds_attempts := ds_attempts s @ [p], ds_main := MainDial existing ps\<rparr>)"
| dial_timeout: "ds_main s = MainDial existing (p # ps) \<Longrightarrow> p \<noteq> self \<Longrightarrow> p \<notin> set existing \<Longrightarrow> \<not> cannotConnect \<Longrightarrow>
    disc_step L cfg connectGoal self s (s\<lparr>ds_main := MainSelect\<rparr>)"
| worker_take: "i < length (ds_workers s) \<Longrightarrow> ds_workers s ! i = WorkerWait \<Longrightarrow> ds_attempts s = p # ps \<Longrightarrow>
    disc_step L cfg connectGoal self s (s\<lparr>ds_attempts := ps, ds_workers := (ds_workers s)[i := WorkerConnect p], ds_connects := ds_connects s @ [p]\<rparr>)"
| worker_done: "i < length (ds_workers s) \<Longrightarrow> ds_workers s ! i = WorkerConnect p \<Longrightarrow>
    disc_step L cfg connectGoal self s (s\<lparr>ds_workers := (ds_workers s)[i := WorkerWait]\<rparr>)"
| worker_return: "i < length (ds_workers s) \<Longrightarrow> ds_workers s ! i = WorkerWait \<Longrightarrow> ds_attempts s = [] \<Longrightarrow> ds_closed s \<Longrightarrow>
    disc_step L cfg connectGoal self s (s\<lparr>ds_workers := (ds_workers s)[i := WorkerReturned]\<rparr>)"
| buffer_next: "ds_buffer s = BufSelect \<Longrightarrow> FilterEnodes L cfg n \<Longrightarrow>
    disc_step L cfg connectGoal self s (s\<lparr>ds_buffer := BufSend n\<rparr>)"
| buffer_stop: "ds_buffer s = BufSelect \<Longrightarrow>
    disc_step L cfg connectGoal self s (s\<lparr>ds_buffer := BufReturned\<rparr>)"
| buffer_send: "ds_buffer s = BufSend n \<Longrightarrow> \<not> ds_closed s \<Longrightarrow> length (ds_nodes s) < discoveredNodesBuffer \<Longrightarrow>
    disc_step L cfg connectGoal self s (s\<lparr>ds_nodes := ds_nodes s @ [n], ds_buffer := BufSelect\<rparr>)"
| buffer_send_closed: "ds_buffer s = BufSend n \<Longrightarrow> ds_closed s \<Longrightarrow>
    disc_step L cfg connectGoal self s (s\<lparr>ds_buffer := BufPanic\<rparr>)"
| buffer_cancelled: "ds_buffer s = BufSend n \<Longrightarrow> ds_cancelled s \<Longrightarrow>
    disc_step L cfg connectGoal self s (s\<lparr>ds_buffer := BufReturned\<rparr>)"
| kick_start: "ds_kick s = KickWait \<Longrightarrow>
    disc_step L cfg connectGoal self s (s\<lparr>ds_kick := KickSend (filter (FilterEnodes L cfg) allNodes)\<rparr>)"
| kick_send: "ds_kick s = KickSend (n # ns) \<Longrightarrow> \<not> ds_closed s \<Longrightarrow> length (ds_nodes s) < discoveredNodesBuffer \<Longrightarrow>
    disc_step L cfg connectGoal self s (s\<lparr>ds_nodes := ds_nodes s @ [n], ds_kick := KickSend ns\<rparr>)"
| kick_send_closed: "ds_kick s = KickSend (n # ns) \<Longrightarrow> ds_closed s \<Longrightarrow>
    disc_step L cfg connectGoal self s (s\<lparr>ds_kick := KickPanic\<rparr>)"
| kick_cancelled: "ds_kick s = KickSend (n # ns) \<Longrightarrow> ds_cancelled s \<Longrightarrow>
    disc_step L cfg connectGoal self s (s\<lparr>ds_kick := KickReturned\<rparr>)"
| kick_end: "ds_kick s = KickSend [] \<Longrightarrow>
    disc_step L cfg connectGoal self s (s\<lparr>ds_kick := KickReturned\<rparr>)"

inductive_cases disc_stepE: "disc_step L cfg connectGoal self s t"

text \<open>Nodes on their way to the main loop.\<close>

fun buffered :: "'n buffer_point \<Rightarrow> 'n list" where
  "buffered (BufSend n) = [n]"
| "buffered _ = []"

fun kicked :: "'n kick_point \<Rightarrow> 'n list" where
  "kicked (KickSend ns) = ns"
| "kicked _ = []"

definition disc_inv :: "('n, 'p, 'a) disc_lib \<Rightarrow> Config \<Rightarrow> 'p \<Rightarrow> ('n, 'p, 'a) disc_state \<Rightarrow> bool" where
  "disc_inv L cfg self s \<longleftrightarrow>
     (\<forall>n \<in> set (ds_nodes s @ buffered (ds_buffer s) @ kicked (ds_kick s)). FilterEnodes L cfg n) \<and>
     (\<forall>info \<in> set (ds_store s). \<exists>n. FilterEnodes L cfg n \<and> enrToAddrInfo L n = Inr info) \<and>
     self \<notin> set (ds_attempts s) \<and> self \<notin> set (ds_connects s) \<and>
     length (ds_nodes s) \<le> discoveredNodesBuffer \<and> length (ds_attempts s) \<le> connectionBufferSize \<and>
     length (ds_workers s) = connectionWorkerCount"

lemma disc_inv_start: "disc_inv L cfg self disc_start"
  by (simp add: disc_inv_def disc_start_def)

lemma on_found_inv:
  assumes "disc_inv L cfg self s" and "ds_nodes s = found # ns"
  shows "disc_inv L cfg self (on_found L found (s\<lparr>ds_nodes := ns\<rparr>))"
  using assms by (auto simp: disc_inv_def on_found_def split: sum.split)

lemma disc_step_inv:
  assumes "disc_step L cfg connectGoal self s t" and "disc_inv L cfg self s"
  shows "disc_inv L cfg self t"
  using assms(1)
proof cases
  case (main_found found ns)
  then show ?thesis using on_found_inv [OF assms(2)] by simp
qed (use assms(2) in \<open>auto simp: disc_inv_def\<close>)

interpretation discovery: step_invariant "\<lambda>s. s = disc_start" "disc_step L cfg connectGoal self" "disc_inv L cfg self" for L cfg connectGoal self
  by unfold_locales (simp add: disc_inv_start, rule disc_step_inv)

lemma FilterEnodes_iff: "FilterEnodes L cfg n \<longleftrightarrow> node_Load L n = Inr \<lparr>oe_chainID = of_int (cfg_L2ChainID cfg), oe_version = 0\<rparr>"
  by (auto simp: FilterEnodes_def split: sum.split)

text \<open>C34: In every interleaving, each address that discovery adds to the peerstore is that of a node whose record names the chain id
  of the rollup and version zero; the node never dials itself; and the buffers and the number of parallel connection
  attempts stay within their bounds.\<close>

theorem discovery_safe:
  assumes "(disc_step L cfg connectGoal self)\<^sup>*\<^sup>* disc_start s"
  shows "(\<forall>info \<in> set (ds_store s). \<exists>n. enrToAddrInfo L n = Inr info \<and>
      node_Load L n = Inr \<lparr>oe_chainID = of_int (cfg_L2ChainID cfg), oe_version = 0\<rparr>) \<and>
    self \<notin> set (ds_connects s) \<and> length (ds_nodes s) \<le> 3 \<and> length (ds_attempts s) \<le> 10 \<and>
    length (filter (\<lambda>k. \<exists>p. k = WorkerConnect p) (ds_workers s)) \<le> 4"
proof -
  have inv: "disc_inv L cfg self s" using discovery.reachable_inv [OF refl assms] .
  have "length (filter (\<lambda>k. \<exists>p. k = WorkerConnect p) (ds_workers s)) \<le> length (ds_workers s)" by (rule length_filter_le)
  with inv show ?thesis
    by (auto simp: disc_inv_def FilterEnodes_iff discoveredNodesBuffer_def connectionBufferSize_def connectionWorkerCount_def)
qed

text \<open>On shutdown the main loop closes \<open>randomNodesCh\<close> while the goroutine that feeds it may be about to send: the send on the
  closed channel is one of the ready cases of its \<open>select\<close> and panics, which takes the process down.\<close>

theorem discovery_shutdown_can_panic:
  assumes "FilterEnodes L cfg n"
  shows "\<exists>s. (disc_step L cfg connectGoal self)\<^sup>*\<^sup>* disc_start s \<and> ds_buffer s = BufPanic"
proof -
  let ?step = "disc_step L cfg connectGoal self"
  let ?a = "disc_start\<lparr>ds_buffer := BufSend n\<rparr>"
  let ?b = "?a\<lparr>ds_cancelled := True\<rparr>"
  let ?c = "?b\<lparr>ds_main := MainReturned, ds_closed := True\<rparr>"
  have "?step disc_start ?a" by (rule buffer_next) (simp_all add: disc_start_def assms)
  moreover have "?step ?a ?b" by (rule cancel)
  moreover have "?step ?b ?c" by (rule main_return) (simp_all add: disc_start_def)
  moreover have "?step ?c (?c\<lparr>ds_buffer := BufPanic\<rparr>)" by (rule buffer_send_closed) simp_all
  ultimately have "?step\<^sup>*\<^sup>* disc_start (?c\<lparr>ds_buffer := BufPanic\<rparr>)"
    by (meson converse_rtranclp_into_rtranclp rtranclp.rtrancl_refl)
  then show ?thesis by (intro exI [of _ "?c\<lparr>ds_buffer := BufPanic\<rparr>"]) simp
qed

section \<open>A concrete network\<close>

text \<open>Nodes are identified by their TCP port and publish the entry for chain 901.\<close>

definition demo_disc :: "(nat, nat, string) disc_lib" where
  "demo_disc = \<lparr>rlp_Encode = (\<lambda>b. b), rlp_Bytes = Inr, node_entry = (\<lambda>n k. if k = ENRKey then Some (PutUvarint 901 @ PutUvarint 0) else None),
     node_IP = (\<lambda>n. [127, 0, 0, 1]), node_TCP = (\<lambda>n. n), IDFromPublicKey = Inr, ip6_String = (\<lambda>a. []), NewMultiaddr = Inr\<rparr>"

definition demo_p2p_conf :: "(unit, nat, string, nat) P2PConfig" where
  "demo_p2p_conf = P2PConfig_zero\<lparr>pc_Priv := Some (), pc_ListenTCPPort := 9222\<rparr>"

lemma demo_disc_facts: "rlp_ok demo_disc" "FilterEnodes demo_disc demo_config 7"
proof -
  show ok: "rlp_ok demo_disc" by (simp add: rlp_ok_def demo_disc_def)
  have "node_Load demo_disc 7 = Inr \<lparr>oe_chainID = 901, oe_version = 0\<rparr>"
    using DecodeRLP_EncodeRLP [OF ok, of "\<lparr>oe_chainID = 901, oe_version = 0\<rparr>"] by (simp add: node_Load_def demo_disc_def)
  then show "FilterEnodes demo_disc demo_config 7" by (simp add: FilterEnodes_def demo_config_def)
qed

theorem published_record_filtered_witness:
  "\<exists>local. Discovery demo_disc (\<lambda>a p. ret ((), 30303)) (\<lambda>c l b. ret ()) demo_p2p_conf demo_config 0 () = (Ok (Some (local, ())), ()) \<and>
     ln_TCP local = Some 9222 \<and> ln_fallbackUDP local = Some 30303 \<and> FilterEnodes demo_disc demo_config 7"
proof -
  obtain local where run: "Discovery demo_disc (\<lambda>a p. ret ((), 30303)) (\<lambda>c l b. ret ()) demo_p2p_conf demo_config 0 () = (Ok (Some (local, ())), ())"
    "ln_fallbackUDP local = Some 30303" "ln_entries local ENRKey = Some (PutUvarint 901 @ PutUvarint 0)"
    by (simp add: Discovery_def demo_p2p_conf_def P2PConfig_zero_def record_ports_def set_optimism_def EncodeRLP_Ok rbind_def Let_def demo_config_def demo_disc_def)
  then have entry: "node_entry demo_disc 7 ENRKey = ln_entries local ENRKey" by (simp add: demo_disc_def)
  from published_record_filtered [OF demo_disc_facts(1) run(1) entry, of demo_config] run show ?thesis
    by (auto simp: demo_p2p_conf_def P2PConfig_zero_def)
qed

lemma demo_discovered:
  "(disc_step demo_disc demo_config 20 1)\<^sup>*\<^sup>* disc_start (disc_start\<lparr>ds_store := [(7, addr_text demo_disc [127, 0, 0, 1] 7)]\<rparr>)" (is "rtranclp ?step _ ?s")
proof -
  let ?a = "disc_start\<lparr>ds_buffer := BufSend 7\<rparr> :: (nat, nat, string) disc_state"
  let ?b = "disc_start\<lparr>ds_nodes := [7]\<rparr> :: (nat, nat, string) disc_state"
  have "?step disc_start ?a" by (rule buffer_next) (simp_all add: disc_start_def demo_disc_facts)
  moreover have "?step ?a ?b"
    using buffer_send [of ?a 7 demo_disc demo_config 20 1] by (simp add: disc_start_def discoveredNodesBuffer_def)
  moreover have "?step ?b ?s"
  proof -
    have "on_found demo_disc 7 (?b\<lparr>ds_nodes := []\<rparr>) = ?s"
      using demo_disc_facts(2) by (simp add: on_found_def FilterEnodes_iff enrToAddrInfo_def disc_start_def) (simp add: demo_disc_def)
    with main_found [of ?b 7 "[]" demo_disc demo_config 20 1] show ?thesis by (simp add: disc_start_def)
  qed
  ultimately show ?thesis by (meson converse_rtranclp_into_rtranclp rtranclp.rtrancl_refl)
qed

theorem discovery_safe_witness:
  "\<exists>s. (disc_step demo_disc demo_config 20 1)\<^sup>*\<^sup>* disc_start s \<and> length (ds_store s) = 1 \<and>
     (\<forall>info \<in> set (ds_store s). \<exists>n. enrToAddrInfo demo_disc n = Inr info \<and> node_Load demo_disc n = Inr \<lparr>oe_chainID = of_int (cfg_L2ChainID demo_config), oe_version = 0\<rparr>)"
  using discovery_safe [OF demo_discovered] demo_discovered by (intro exI conjI) auto

end
