(* ===== verification/OpNode.thy ===== *)
theory OpNode
  imports Discovery "HOL-Library.Multiset"
begin

text \<open>
  The rollup node as a whole (\<open>op-node/node/node.go\<close>, \<open>server.go\<close>, \<open>config.go\<close>, \<open>op-node/p2p/node.go\<close>, \<open>op-node/l1/source.go\<close>): construction
  from its configuration, start, the signals it passes to its drivers, and shutdown. The process state
  holds the node object as far as it is built, the multiset of resources that are open, and the world.
  Dialing, libp2p, discv5, gossip and the network are parameters of the environment. Pointers that may be nil are options.
\<close>

section \<open>Configuration (config.go)\<close>

text \<open>\<open>SetupP2P\<close> as the node sees it: \<open>Config\<close> and \<open>Prepared\<close> implement it.\<close>

record 'w SetupP2P =
  su_Check :: "unit res"
  su_Host :: "('w, nat option) rpc"
  su_Discovery :: "16 word \<Rightarrow> ('w, nat option) rpc"
  su_TargetPeers :: u64

record RPCConfig =
  rc_ListenAddr :: string
  rc_ListenPort :: goint

record 'w NodeConfig =
  nc_L1NodeAddr :: string
  nc_L2EngineAddrs :: "string list"
  nc_L2NodeAddr :: string
  nc_L1TrustRPC :: bool
  nc_Rollup :: Config
  nc_Sequencer :: bool
  nc_P2PSigner :: "('w, nat option) rpc option"
  nc_RPC :: RPCConfig
  nc_P2P :: "'w SetupP2P option"

definition NodeConfig_Check :: "'w NodeConfig \<Rightarrow> unit res" where
  "NodeConfig_Check cfg =
     bind_res (map_err (\<lambda>e. ErrMsg ''rollup config error'') (Config_Check (nc_Rollup cfg))) (\<lambda>_.
     case nc_P2P cfg of
       None \<Rightarrow> Ok ()
     | Some su \<Rightarrow> map_err (\<lambda>e. ErrMsg ''p2p config error'') (su_Check su))"

section \<open>Resources and the process state\<close>

datatype resource = RClient nat | RHeadSub | RHost nat | RGossip nat | RDv5 nat | RSigner nat | RListener

record NodeP2P =
  np_host :: "nat option"
  np_dv5Udp :: "nat option"
  np_gsOut :: "nat option"

record rpcServer =
  rs_endpoint :: string
  rs_apis :: "string list"           \<comment> \<open>the namespaces\<close>
  rs_httpServer :: bool              \<comment> \<open>not nil\<close>
  rs_appVersion :: string
  rs_listenAddr :: "string option"

text \<open>An RPC client is a pointer; \<open>l1Source\<close> and \<open>l2Nodes\<close> hold the pointer they were given. An engine is the driver of the
  L2 client with its index.\<close>

record OpNode =
  on_l1HeadsSub :: bool
  on_l1Source :: "nat option option"
  on_l2Engines :: "nat list"
  on_l2Nodes :: "nat option list"
  on_server :: "rpcServer option"
  on_p2pNode :: "NodeP2P option"
  on_p2pSigner :: "nat option"
  on_discovering :: bool

definition OpNode_zero :: OpNode where
  "OpNode_zero = \<lparr>on_l1HeadsSub = False, on_l1Source = None, on_l2Engines = [], on_l2Nodes = [], on_server = None,
     on_p2pNode = None, on_p2pSigner = None, on_discovering = False\<rparr>"

definition NodeP2P_zero :: NodeP2P where
  "NodeP2P_zero = \<lparr>np_host = None, np_dv5Udp = None, np_gsOut = None\<rparr>"

record 'w proc =
  px_node :: OpNode
  px_p2p :: NodeP2P                  \<comment> \<open>the p2p node under construction\<close>
  px_open :: "resource multiset"
  px_world :: 'w

record 'w node_env =
  ne_rand :: "nat \<Rightarrow> 'w \<Rightarrow> nat \<times> 'w"
  ne_sleep :: "duration \<Rightarrow> 'w \<Rightarrow> 'w"
  ne_dial :: "(nat, 'w) dialer"
  ne_NewGossipSub :: "nat \<Rightarrow> ('w, unit) rpc"
  ne_JoinGossip :: "nat \<Rightarrow> ('w, nat) rpc"
  ne_Addrs :: "nat \<Rightarrow> string option list"      \<comment> \<open>the TCP component of the addresses of a host\<close>
  ne_closeGossip :: "nat \<Rightarrow> ('w, unit) rpc"
  ne_closeHost :: "nat \<Rightarrow> ('w, unit) rpc"
  ne_closeSigner :: "nat \<Rightarrow> ('w, unit) rpc"
  ne_RegisterApis :: "string list \<Rightarrow> unit res"
  ne_Listen :: "string \<Rightarrow> ('w, string) rpc"     \<comment> \<open>gives the address that is listened on\<close>
  ne_appVersion :: string

definition on_env :: "('w, 'a) rpc \<Rightarrow> ('w proc, 'a) rpc" where
  "on_env m p = (case m (px_world p) of (r, w) \<Rightarrow> (r, p\<lparr>px_world := w\<rparr>))"

definition modify :: "('w proc \<Rightarrow> 'w proc) \<Rightarrow> ('w proc, unit) rpc" where
  "modify f p = (Ok (), f p)"

abbreviation acquire :: "resource \<Rightarrow> 'w proc \<Rightarrow> 'w proc" where
  "acquire r p \<equiv> p\<lparr>px_open := px_open p + {#r#}\<rparr>"

abbreviation dispose :: "resource \<Rightarrow> 'w proc \<Rightarrow> 'w proc" where
  "dispose r p \<equiv> p\<lparr>px_open := px_open p - {#r#}\<rparr>"

abbreviation upd_node :: "(OpNode \<Rightarrow> OpNode) \<Rightarrow> 'w proc \<Rightarrow> 'w proc" where
  "upd_node f p \<equiv> p\<lparr>px_node := f (px_node p)\<rparr>"

abbreviation upd_p2p :: "(NodeP2P \<Rightarrow> NodeP2P) \<Rightarrow> 'w proc \<Rightarrow> 'w proc" where
  "upd_p2p f p \<equiv> p\<lparr>px_p2p := f (px_p2p p)\<rparr>"

section \<open>The p2p node (p2p/node.go)\<close>

definition NodeP2P_init :: "'w node_env \<Rightarrow> 'w SetupP2P \<Rightarrow> ('w proc, unit) rpc" where
  "NodeP2P_init E su =
     rbind (rmap_err (\<lambda>e. ErrMsg ''failed to start p2p host'') (on_env (su_Host su))) (\<lambda>h.
     case h of None \<Rightarrow> ret ()
     | Some h1 \<Rightarrow>
       rbind (modify (\<lambda>p. acquire (RHost h1) (upd_p2p (np_host_update (\<lambda>_. Some h1)) p))) (\<lambda>_.
       rbind (rmap_err (\<lambda>e. ErrMsg ''failed to start gossipsub router'') (on_env (ne_NewGossipSub E h1))) (\<lambda>_.
       rbind (rmap_err (\<lambda>e. ErrMsg ''failed to join blocks gossip topic'') (on_env (ne_JoinGossip E h1))) (\<lambda>g.
       rbind (modify (\<lambda>p. acquire (RGossip g) (upd_p2p (np_gsOut_update (\<lambda>_. Some g)) p))) (\<lambda>_.
       rbind (rmap_err (\<lambda>e. ErrMsg ''failed to start discv5'') (on_env (su_Discovery su (FindActiveTCPPort (ne_Addrs E h1))))) (\<lambda>dv5.
       case dv5 of None \<Rightarrow> ret ()
       | Some u \<Rightarrow> modify (\<lambda>p. acquire (RDv5 u) (upd_p2p (np_dv5Udp_update (\<lambda>_. Some u)) p))))))))"

text \<open>A failing \<open>Close\<close> of a part is collected; the part counts as closed.\<close>

definition close_part :: "(nat \<Rightarrow> ('w, unit) rpc) \<Rightarrow> (nat \<Rightarrow> resource) \<Rightarrow> nat option \<Rightarrow> ('w proc, error list) rpc" where
  "close_part closer res x =
     (case x of None \<Rightarrow> ret []
      | Some h \<Rightarrow> rbind (modify (dispose (res h))) (\<lambda>_. rcatch (on_env (closer h)) (\<lambda>e. ret [e]) (\<lambda>_. ret [])))"

definition NodeP2P_Close :: "'w node_env \<Rightarrow> NodeP2P \<Rightarrow> ('w proc, error list) rpc" where
  "NodeP2P_Close E n =
     rbind (modify (case np_dv5Udp n of None \<Rightarrow> (\<lambda>p. p) | Some u \<Rightarrow> dispose (RDv5 u))) (\<lambda>_.
     rbind (close_part (ne_closeGossip E) RGossip (np_gsOut n)) (\<lambda>es1.
     rbind (close_part (ne_closeHost E) RHost (np_host n)) (\<lambda>es2.
     ret (es1 @ es2))))"

definition NewNodeP2P :: "'w node_env \<Rightarrow> 'w SetupP2P \<Rightarrow> ('w proc, NodeP2P option) rpc" where
  "NewNodeP2P E su p =
     rcatch (NodeP2P_init E su)
       (\<lambda>err p1. rbind (NodeP2P_Close E (px_p2p p1)) (\<lambda>closeErr. lift_res (Err err)) p1)
       (\<lambda>_ p1. (Ok (if np_host (px_p2p p1) = None then None else Some (px_p2p p1)), p1))
       (p\<lparr>px_p2p := NodeP2P_zero\<rparr>)"

section \<open>Construction (node.go)\<close>

definition client_res :: "nat option \<Rightarrow> resource multiset" where
  "client_res c = (case c of None \<Rightarrow> {#} | Some h \<Rightarrow> {#RClient h#})"

definition dial_client :: "'w node_env \<Rightarrow> string \<Rightarrow> ('w proc, nat option) rpc" where
  "dial_client E addr =
     rbind (on_env (dialRPCClientWithBackoff (ne_rand E) (ne_sleep E) (ne_dial E) addr)) (\<lambda>c.
     rbind (modify (\<lambda>p. p\<lparr>px_open := px_open p + client_res c\<rparr>)) (\<lambda>_. ret c))"

text \<open>\<open>l1.NewSource\<close> only fails on a bad configuration.\<close>

definition L1_NewSource :: "nat option \<Rightarrow> SourceConfig \<Rightarrow> nat option res" where
  "L1_NewSource client config = map_err (Wrap ''bad config, cannot create L1 source'') (bind_res (SourceConfig_Check config) (\<lambda>_. Ok client))"

definition initL1 :: "'w node_env \<Rightarrow> 'w NodeConfig \<Rightarrow> ('w proc, unit) rpc" where
  "initL1 E cfg =
     rbind (rmap_err (Wrap ''failed to dial L1 address'') (dial_client E (nc_L1NodeAddr cfg))) (\<lambda>l1Node.
     rbind (lift_res (map_err (\<lambda>e. ErrMsg ''failed to create L1 source'') (L1_NewSource l1Node (DefaultConfig (nc_Rollup cfg) (nc_L1TrustRPC cfg))))) (\<lambda>src.
     modify (\<lambda>p. acquire RHeadSub (upd_node (\<lambda>n. n\<lparr>on_l1Source := Some src, on_l1HeadsSub := True\<rparr>) p))))"

definition AttachEngine :: "'w node_env \<Rightarrow> string \<Rightarrow> ('w proc, unit) rpc" where
  "AttachEngine E addr =
     rbind (dial_client E addr) (\<lambda>l2Node.
     modify (upd_node (\<lambda>n. n\<lparr>on_l2Nodes := on_l2Nodes n @ [l2Node], on_l2Engines := on_l2Engines n @ [length (on_l2Engines n)]\<rparr>)))"

fun initL2 :: "'w node_env \<Rightarrow> string list \<Rightarrow> ('w proc, unit) rpc" where
  "initL2 E [] = ret ()"
| "initL2 E (addr # addrs) = rbind (rmap_err (\<lambda>e. ErrMsg ''failed to attach configured engine'') (AttachEngine E addr)) (\<lambda>_. initL2 E addrs)"

definition initP2PSigner :: "'w NodeConfig \<Rightarrow> ('w proc, unit) rpc" where
  "initP2PSigner cfg =
     (case nc_P2PSigner cfg of None \<Rightarrow> ret ()
      | Some setupSigner \<Rightarrow> rbind (on_env setupSigner) (\<lambda>s.
          modify (\<lambda>p. p\<lparr>px_node := (px_node p)\<lparr>on_p2pSigner := s\<rparr>,
                        px_open := px_open p + (case s of None \<Rightarrow> {#} | Some h \<Rightarrow> {#RSigner h#})\<rparr>)))"

text \<open>\<open>NewNodeP2P\<close> returns nil when there is no host; \<open>Dv5Udp\<close> then reads a field of a nil pointer.\<close>

definition initP2P :: "'w node_env \<Rightarrow> 'w NodeConfig \<Rightarrow> ('w proc, unit) rpc" where
  "initP2P E cfg =
     (case nc_P2P cfg of None \<Rightarrow> ret ()
      | Some su \<Rightarrow> rbind (NewNodeP2P E su) (\<lambda>p2pNode.
          rbind (modify (upd_node (on_p2pNode_update (\<lambda>_. p2pNode)))) (\<lambda>_.
          case p2pNode of
            None \<Rightarrow> lift_res (Panic ''nil pointer dereference'')
          | Some n \<Rightarrow> modify (upd_node (on_discovering_update (\<lambda>_. np_dv5Udp n \<noteq> None))))))"

definition newRPCServer :: "RPCConfig \<Rightarrow> string \<Rightarrow> rpcServer" where
  "newRPCServer rpcCfg appVersion =
     \<lparr>rs_endpoint = rc_ListenAddr rpcCfg @ '':'' @ int_String (sint (rc_ListenPort rpcCfg)), rs_apis = [''optimism''], rs_httpServer = False,
      rs_appVersion = appVersion, rs_listenAddr = None\<rparr>"

definition EnableP2P :: "rpcServer \<Rightarrow> rpcServer" where
  "EnableP2P s = s\<lparr>rs_apis := rs_apis s @ [''opp2p'']\<rparr>"

definition rpcServer_Start :: "'w node_env \<Rightarrow> rpcServer \<Rightarrow> ('w proc, unit) rpc" where
  "rpcServer_Start E s =
     rbind (lift_res (ne_RegisterApis E (rs_apis s))) (\<lambda>_.
     rbind (on_env (ne_Listen E (rs_endpoint s))) (\<lambda>addr.
     modify (\<lambda>p. acquire RListener (upd_node (on_server_update (\<lambda>_. Some (s\<lparr>rs_listenAddr := Some addr, rs_httpServer := True\<rparr>))) p))))"

definition initRPCServer :: "'w node_env \<Rightarrow> 'w NodeConfig \<Rightarrow> ('w proc, unit) rpc" where
  "initRPCServer E cfg =
     rbind (rmap_err (Wrap ''failed to dial l2 address'') (dial_client E (nc_L2NodeAddr cfg))) (\<lambda>l2Node p.
     let s = (if on_p2pNode (px_node p) \<noteq> None then EnableP2P (newRPCServer (nc_RPC cfg) (ne_appVersion E)) else newRPCServer (nc_RPC cfg) (ne_appVersion E)) in
     rbind (modify (upd_node (on_server_update (\<lambda>_. Some s)))) (\<lambda>_.
     rmap_err (Wrap ''unable to start RPC server'') (rpcServer_Start E s)) p)"

definition OpNode_init :: "'w node_env \<Rightarrow> 'w NodeConfig \<Rightarrow> ('w proc, unit) rpc" where
  "OpNode_init E cfg =
     rbind (initL1 E cfg) (\<lambda>_.
     rbind (initL2 E (nc_L2EngineAddrs cfg)) (\<lambda>_.
     rbind (initP2PSigner cfg) (\<lambda>_.
     rbind (initP2P E cfg) (\<lambda>_.
     initRPCServer E cfg))))"

section \<open>Shutdown\<close>

text \<open>\<open>Stop\<close> calls \<open>Shutdown\<close> on the HTTP server, which is nil before \<open>Start\<close> has succeeded.\<close>

definition close_server :: "('w proc, unit) rpc" where
  "close_server p =
     (case on_server (px_node p) of
        None \<Rightarrow> (Ok (), p)
      | Some s \<Rightarrow> if rs_httpServer s then (Ok (), dispose RListener p) else (Panic ''nil pointer dereference'', p))"

definition close_client :: "nat option \<Rightarrow> ('w proc, unit) rpc" where
  "close_client c p = (case c of None \<Rightarrow> (Panic ''nil pointer dereference'', p) | Some h \<Rightarrow> (Ok (), dispose (RClient h) p))"

fun close_clients :: "nat option list \<Rightarrow> ('w proc, unit) rpc" where
  "close_clients [] = ret ()"
| "close_clients (c # cs) = rbind (close_client c) (\<lambda>_. close_clients cs)"

text \<open>The errors of the parts, all of which are closed. Closing an engine never fails.\<close>

definition OpNode_Close :: "'w node_env \<Rightarrow> ('w proc, error list) rpc" where
  "OpNode_Close E p0 =
     (let n = px_node p0 in
      rbind close_server (\<lambda>_.
      rbind (case on_p2pNode n of None \<Rightarrow> ret [] | Some np \<Rightarrow> NodeP2P_Close E np) (\<lambda>es1.
      rbind (close_part (ne_closeSigner E) RSigner (on_p2pSigner n)) (\<lambda>es2.
      rbind (modify (if on_l1HeadsSub n then dispose RHeadSub else (\<lambda>p. p))) (\<lambda>_.
      rbind (close_clients (on_l2Nodes n)) (\<lambda>_.
      rbind (case on_l1Source n of None \<Rightarrow> ret () | Some c \<Rightarrow> close_client c) (\<lambda>_.
      ret (es1 @ es2))))))) p0)"

definition New :: "'w node_env \<Rightarrow> 'w NodeConfig \<Rightarrow> ('w proc, unit) rpc" where
  "New E cfg p =
     rbind (lift_res (NodeConfig_Check cfg)) (\<lambda>_.
     rcatch (OpNode_init E cfg)
       (\<lambda>err. rbind (OpNode_Close E) (\<lambda>closeErrs. lift_res (Err (if closeErrs = [] then err else ErrMsg ''multiple errors''))))
       (\<lambda>_. ret ())) (p\<lparr>px_node := OpNode_zero\<rparr>)"

section \<open>Resources of a node\<close>

definition opt_res :: "(nat \<Rightarrow> resource) \<Rightarrow> nat option \<Rightarrow> resource multiset" where
  "opt_res f x = (case x of None \<Rightarrow> {#} | Some h \<Rightarrow> {#f h#})"

lemma opt_res_simps [simp]: "opt_res f None = {#}" "opt_res f (Some h) = {#f h#}"
  by (simp_all add: opt_res_def)

lemma client_res_simps [simp]: "client_res None = {#}" "client_res (Some h) = {#RClient h#}"
  by (simp_all add: client_res_def)

definition p2p_held :: "NodeP2P \<Rightarrow> resource multiset" where
  "p2p_held np = opt_res RDv5 (np_dv5Udp np) + opt_res RGossip (np_gsOut np) + opt_res RHost (np_host np)"

definition held :: "OpNode \<Rightarrow> resource multiset" where
  "held n = (case on_server n of None \<Rightarrow> {#} | Some s \<Rightarrow> if rs_httpServer s then {#RListener#} else {#}) +
     (case on_p2pNode n of None \<Rightarrow> {#} | Some np \<Rightarrow> p2p_held np) + opt_res RSigner (on_p2pSigner n) +
     (if on_l1HeadsSub n then {#RHeadSub#} else {#}) + sum_list (map client_res (on_l2Nodes n)) +
     (case on_l1Source n of None \<Rightarrow> {#} | Some c \<Rightarrow> client_res c)"

definition balanced :: "resource multiset \<Rightarrow> 'w proc \<Rightarrow> bool" where
  "balanced B p \<longleftrightarrow> px_open p = B + held (px_node p)"

subsection \<open>The p2p node\<close>

lemmas action_defs = rbind_def rmap_err_def on_env_def modify_def

lemma NodeP2P_init_open:
  assumes "NodeP2P_init E su p = (r, p')" and "px_p2p p = NodeP2P_zero"
  shows "px_node p' = px_node p \<and> px_open p' = px_open p + p2p_held (px_p2p p') \<and>
    (np_host (px_p2p p') = None \<longrightarrow> p2p_held (px_p2p p') = {#})"
  using assms unfolding NodeP2P_init_def action_defs
  by (auto simp: p2p_held_def NodeP2P_zero_def split: prod.splits res.splits option.splits)

lemma close_part_open:
  assumes "close_part closer f x p = (r, p')"
  shows "px_node p' = px_node p \<and> px_p2p p' = px_p2p p \<and> px_open p' = px_open p - opt_res f x \<and> (\<forall>e. r \<noteq> Err e)"
  using assms unfolding close_part_def action_defs rcatch_def
  by (auto split: prod.splits res.splits option.splits)

lemma NodeP2P_Close_open:
  assumes "NodeP2P_Close E np p = (r, p')"
  shows "px_node p' = px_node p \<and> (\<forall>e. r \<noteq> Err e) \<and> (\<forall>es. r = Ok es \<longrightarrow> px_open p' = px_open p - p2p_held np)"
proof -
  let ?p1 = "(case np_dv5Udp np of None \<Rightarrow> (\<lambda>p. p) | Some u \<Rightarrow> dispose (RDv5 u)) p"
  have p1: "px_node ?p1 = px_node p" "px_open ?p1 = px_open p - opt_res RDv5 (np_dv5Udp np)" by (auto split: option.split)
  obtain r2 p2 where 2: "close_part (ne_closeGossip E) RGossip (np_gsOut np) ?p1 = (r2, p2)" by fastforce
  obtain r3 p3 where 3: "close_part (ne_closeHost E) RHost (np_host np) p2 = (r3, p3)" by fastforce
  have "(r, p') = (case r2 of Ok es1 \<Rightarrow> (case r3 of Ok es2 \<Rightarrow> (Ok (es1 @ es2), p3) | Err e \<Rightarrow> (Err e, p3) | Panic m \<Rightarrow> (Panic m, p3) | Diverge \<Rightarrow> (Diverge, p3))
      | Err e \<Rightarrow> (Err e, p2) | Panic m \<Rightarrow> (Panic m, p2) | Diverge \<Rightarrow> (Diverge, p2))"
    using assms 2 3 by (cases r2; cases r3; auto simp: NodeP2P_Close_def rbind_def modify_def)
  with close_part_open [OF 2] close_part_open [OF 3] p1 show ?thesis
    by (auto simp: p2p_held_def split: res.splits)
qed

lemma NewNodeP2P_open:
  assumes "NewNodeP2P E su p = (r, p')"
  shows "px_node p' = px_node p \<and> (\<forall>np. r = Ok (Some np) \<longrightarrow> px_open p' = px_open p + p2p_held np) \<and>
    (r = Ok None \<or> (\<exists>e. r = Err e) \<longrightarrow> px_open p' = px_open p)"
proof -
  obtain r1 p1 where 1: "NodeP2P_init E su (p\<lparr>px_p2p := NodeP2P_zero\<rparr>) = (r1, p1)" by fastforce
  note init = NodeP2P_init_open [OF 1, simplified]
  show ?thesis
  proof (cases r1)
    case (Err e)
    obtain r2 p2 where 2: "NodeP2P_Close E (px_p2p p1) p1 = (r2, p2)" by fastforce
    with Err 1 assms have "r = (case r2 of Ok es \<Rightarrow> Err e | Err e' \<Rightarrow> Err e' | Panic m \<Rightarrow> Panic m | Diverge \<Rightarrow> Diverge)" "p' = p2"
      by (auto simp: NewNodeP2P_def rbind_def split: res.splits)
    with NodeP2P_Close_open [OF 2] init show ?thesis by (auto split: res.splits)
  qed (use 1 assms init in \<open>auto simp: NewNodeP2P_def rcatch_def split: if_splits\<close>)
qed

subsection \<open>Stages of construction\<close>

lemma dial_client_open:
  assumes "dial_client E addr p = (r, p')"
  shows "px_node p' = px_node p \<and> px_open p' = px_open p + (case r of Ok c \<Rightarrow> client_res c | _ \<Rightarrow> {#})"
  using assms unfolding dial_client_def action_defs by (auto split: prod.splits res.splits)

lemma rmap_err_eq: "rmap_err g m p = (r, p') \<longleftrightarrow> (\<exists>r0. m p = (r0, p') \<and> r = map_err g r0)"
  by (auto simp: rmap_err_def split: prod.splits)

lemma initL1_balanced:
  assumes "initL1 E cfg p = (r, p')" and "px_node p = OpNode_zero" and "px_open p = B"
    and "SourceConfig_Check (DefaultConfig (nc_Rollup cfg) (nc_L1TrustRPC cfg)) = Ok ()"
  shows "balanced B p' \<and> on_server (px_node p') = None \<and> on_p2pNode (px_node p') = None \<and> on_p2pSigner (px_node p') = None"
proof -
  obtain r1 p1 where 1: "dial_client E (nc_L1NodeAddr cfg) p = (r1, p1)" by fastforce
  from dial_client_open [OF 1] assms 1 show ?thesis
    by (cases r1) (auto simp: initL1_def rbind_def rmap_err_def modify_def L1_NewSource_def balanced_def held_def OpNode_zero_def)
qed

lemma initL2_balanced:
  assumes "initL2 E addrs p = (r, p')" and "balanced B p" and "on_server (px_node p) = None"
    and "on_p2pNode (px_node p) = None" and "on_p2pSigner (px_node p) = None"
  shows "balanced B p' \<and> on_server (px_node p') = None \<and> on_p2pNode (px_node p') = None \<and> on_p2pSigner (px_node p') = None"
  using assms
proof (induction addrs arbitrary: p)
  case (Cons addr addrs)
  obtain r1 p1 where 1: "dial_client E addr p = (r1, p1)" by fastforce
  note d = dial_client_open [OF 1]
  show ?case
  proof (cases r1)
    case (Ok c)
    let ?p2 = "upd_node (\<lambda>n. n\<lparr>on_l2Nodes := on_l2Nodes n @ [c], on_l2Engines := on_l2Engines n @ [length (on_l2Engines n)]\<rparr>) p1"
    have "initL2 E addrs ?p2 = (r, p')" using Cons.prems(1) 1 Ok by (simp add: AttachEngine_def rbind_def rmap_err_def modify_def)
    moreover have "balanced B ?p2" using d Ok Cons.prems(2) by (simp add: balanced_def held_def)
    ultimately show ?thesis using Cons.IH [of ?p2] Cons.prems d by simp
  qed (use 1 d Cons.prems in \<open>auto simp: AttachEngine_def rbind_def rmap_err_def balanced_def\<close>)
qed simp

lemma initP2PSigner_balanced:
  assumes "initP2PSigner cfg p = (r, p')" and "balanced B p" and "on_server (px_node p) = None"
    and "on_p2pNode (px_node p) = None" and "on_p2pSigner (px_node p) = None"
  shows "balanced B p' \<and> on_server (px_node p') = None \<and> on_p2pNode (px_node p') = None"
  using assms unfolding initP2PSigner_def action_defs
  by (auto simp: balanced_def held_def opt_res_def split: option.splits prod.splits res.splits)

lemma initP2P_balanced:
  assumes "initP2P E cfg p = (r, p')" and "balanced B p" and "on_server (px_node p) = None" and "on_p2pNode (px_node p) = None"
    and "\<nexists>m. r = Panic m" and "r \<noteq> Diverge"
  shows "balanced B p' \<and> on_server (px_node p') = None"
proof (cases "nc_P2P cfg")
  case (Some su)
  obtain r1 p1 where 1: "NewNodeP2P E su p = (r1, p1)" by fastforce
  from NewNodeP2P_open [OF 1] assms Some 1 show ?thesis
    by (cases r1) (auto simp: initP2P_def rbind_def modify_def balanced_def held_def split: option.splits)
qed (use assms in \<open>simp add: initP2P_def\<close>)

text \<open>A server object without a running HTTP server: what is left when \<open>Start\<close> fails.\<close>

definition half_started :: "OpNode \<Rightarrow> bool" where
  "half_started n \<longleftrightarrow> (\<exists>s. on_server n = Some s \<and> \<not> rs_httpServer s)"

text \<open>The server can register its APIs and listen.\<close>

definition server_starts :: "'w node_env \<Rightarrow> bool" where
  "server_starts E \<longleftrightarrow> (\<forall>apis. ne_RegisterApis E apis = Ok ()) \<and> (\<forall>a w. \<exists>b. fst (ne_Listen E a w) = Ok b)"

lemma rpcServer_Start_cases:
  assumes "rpcServer_Start E s p = (r, p')"
  shows "(r = Ok () \<longrightarrow> (\<exists>addr. px_node p' = (px_node p)\<lparr>on_server := Some (s\<lparr>rs_listenAddr := Some addr, rs_httpServer := True\<rparr>)\<rparr>) \<and> px_open p' = px_open p + {#RListener#}) \<and>
    (r \<noteq> Ok () \<longrightarrow> px_node p' = px_node p \<and> px_open p' = px_open p \<and> \<not> server_starts E)"
proof -
  obtain r1 w1 where 1: "ne_Listen E (rs_endpoint s) (px_world p) = (r1, w1)" by fastforce
  have fails: "(\<And>b. r1 \<noteq> Ok b) \<Longrightarrow> \<not> server_starts E" using 1 unfolding server_starts_def by (metis fst_conv)
  show ?thesis
  proof (cases "ne_RegisterApis E (rs_apis s)")
    case (Ok u)
    with 1 fails assms show ?thesis by (cases r1) (auto simp: rpcServer_Start_def rbind_def modify_def on_env_def intro!: exI)
  qed (use assms in \<open>auto simp: rpcServer_Start_def rbind_def server_starts_def\<close>)
qed

lemma initRPCServer_balanced:
  assumes "initRPCServer E cfg p = (r, p')" and "balanced B p" and "on_server (px_node p) = None"
  shows "(r = Ok () \<longrightarrow> (\<exists>c. fst (dial_client E (nc_L2NodeAddr cfg) p) = Ok c \<and> balanced (B + client_res c) p')) \<and>
    (\<forall>e. r = Err e \<longrightarrow> balanced B p' \<and> on_server (px_node p') = None \<or> half_started (px_node p') \<and> \<not> server_starts E)"
proof -
  obtain r1 p1 where 1: "dial_client E (nc_L2NodeAddr cfg) p = (r1, p1)" by fastforce
  note d = dial_client_open [OF 1]
  show ?thesis
  proof (cases r1)
    case (Ok c)
    define s where "s = (if on_p2pNode (px_node p1) \<noteq> None then EnableP2P (newRPCServer (nc_RPC cfg) (ne_appVersion E)) else newRPCServer (nc_RPC cfg) (ne_appVersion E))"
    have s: "\<not> rs_httpServer s" by (simp add: s_def EnableP2P_def newRPCServer_def)
    obtain r2 p2 where 2: "rpcServer_Start E s (upd_node (on_server_update (\<lambda>_. Some s)) p1) = (r2, p2)" by fastforce
    then have "r = map_err (Wrap ''unable to start RPC server'') r2" "p' = p2"
      using assms(1) 1 Ok by (auto simp: initRPCServer_def rbind_def rmap_err_def modify_def s_def Let_def)
    with rpcServer_Start_cases [OF 2] d Ok 1 assms(2,3) s show ?thesis
      by (cases r2) (auto simp: balanced_def held_def half_started_def)
  qed (use 1 d assms in \<open>auto simp: initRPCServer_def rbind_def rmap_err_def balanced_def\<close>)
qed

lemma rbind_Err_iff: "rbind m f p = (Err e, p') \<longleftrightarrow> m p = (Err e, p') \<or> (\<exists>x q. m p = (Ok x, q) \<and> f x q = (Err e, p'))"
  by (auto simp: rbind_def split: prod.splits res.splits)

lemma OpNode_init_balanced:
  assumes "OpNode_init E cfg p = (r, p')" and "px_node p = OpNode_zero" and "px_open p = B"
    and "SourceConfig_Check (DefaultConfig (nc_Rollup cfg) (nc_L1TrustRPC cfg)) = Ok ()"
  shows "(r = Ok () \<longrightarrow> (\<exists>c q. fst (dial_client E (nc_L2NodeAddr cfg) q) = Ok c \<and> balanced (B + client_res c) p')) \<and>
    (\<forall>e. r = Err e \<longrightarrow> balanced B p' \<and> on_server (px_node p') = None \<or> half_started (px_node p') \<and> \<not> server_starts E)"
proof -
  have s1: "balanced B q \<and> on_server (px_node q) = None \<and> on_p2pNode (px_node q) = None \<and> on_p2pSigner (px_node q) = None"
    if "initL1 E cfg p = (x, q)" for x q
    using initL1_balanced [OF that assms(2-4)] .
  have s2: "balanced B q2 \<and> on_server (px_node q2) = None \<and> on_p2pNode (px_node q2) = None \<and> on_p2pSigner (px_node q2) = None"
    if "initL1 E cfg p = (x, q)" "initL2 E (nc_L2EngineAddrs cfg) q = (y, q2)" for x q y q2
    using initL2_balanced [OF that(2)] s1 [OF that(1)] by blast
  have s3: "balanced B q3 \<and> on_server (px_node q3) = None \<and> on_p2pNode (px_node q3) = None"
    if "initL1 E cfg p = (x, q)" "initL2 E (nc_L2EngineAddrs cfg) q = (y, q2)" "initP2PSigner cfg q2 = (z, q3)" for x q y q2 z q3
    using initP2PSigner_balanced [OF that(3)] s2 [OF that(1,2)] by blast
  have s4: "balanced B q4 \<and> on_server (px_node q4) = None"
    if "initL1 E cfg p = (x, q)" "initL2 E (nc_L2EngineAddrs cfg) q = (y, q2)" "initP2PSigner cfg q2 = (z, q3)" "initP2P E cfg q3 = (v, q4)"
      "v = Ok () \<or> (\<exists>e. v = Err e)" for x q y q2 z q3 v q4
    using initP2P_balanced [OF that(4)] s3 [OF that(1-3)] that(5) by blast
  have ok: "\<exists>c q. fst (dial_client E (nc_L2NodeAddr cfg) q) = Ok c \<and> balanced (B + client_res c) p'" if "r = Ok ()"
  proof -
    from assms(1) that obtain q q2 q3 q4 where st: "initL1 E cfg p = (Ok (), q)" "initL2 E (nc_L2EngineAddrs cfg) q = (Ok (), q2)"
      "initP2PSigner cfg q2 = (Ok (), q3)" "initP2P E cfg q3 = (Ok (), q4)" "initRPCServer E cfg q4 = (Ok (), p')"
      by (auto simp: OpNode_init_def res_simps)
    from s4 [OF st(1-4)] initRPCServer_balanced [OF st(5), of B] show ?thesis by blast
  qed
  have err: "balanced B p' \<and> on_server (px_node p') = None \<or> half_started (px_node p') \<and> \<not> server_starts E" if "r = Err e" for e
    using assms(1) [unfolded that OpNode_init_def rbind_Err_iff]
  proof (elim disjE exE conjE, goal_cases)
    case (5 u1 q1 u2 q2 u3 q3 u4 q4)
    from s4 [OF 5(1-4)] initRPCServer_balanced [OF 5(5), of B] show ?case by simp
  next
    case 1
    from s1 [OF 1] show ?case by simp
  next
    case (2 u1 q1)
    from s2 [OF 2] show ?case by simp
  next
    case (3 u1 q1 u2 q2)
    from s3 [OF 3] show ?case by simp
  next
    case (4 u1 q1 u2 q2 u3 q3)
    from s4 [OF 4] show ?case by simp
  qed
  from ok err show ?thesis by blast
qed

subsection \<open>Shutdown\<close>

lemma close_client_open: "close_client c p = (Ok (), p') \<Longrightarrow> px_node p' = px_node p \<and> px_open p' = px_open p - client_res c"
  by (auto simp: close_client_def split: option.splits)

lemma close_clients_open:
  "close_clients cs p = (Ok (), p') \<Longrightarrow> px_node p' = px_node p \<and> px_open p' = px_open p - sum_list (map client_res cs)"
proof (induction cs arbitrary: p)
  case (Cons c cs)
  then obtain p1 where "close_client c p = (Ok (), p1)" "close_clients cs p1 = (Ok (), p')"
    by (auto simp: res_simps)
  with close_client_open [of c p p1] Cons.IH [of p1] show ?case by simp
qed simp

lemma OpNode_Close_open:
  assumes "OpNode_Close E p = (Ok es, p')"
  shows "px_node p' = px_node p \<and> px_open p' = px_open p - held (px_node p) \<and> \<not> half_started (px_node p)"
proof -
  let ?n = "px_node p"
  from assms obtain p1 es1 p2 es2 p3 p4 p5 where st: "close_server p = (Ok (), p1)"
    "(case on_p2pNode ?n of None \<Rightarrow> ret [] | Some np \<Rightarrow> NodeP2P_Close E np) p1 = (Ok es1, p2)"
    "close_part (ne_closeSigner E) RSigner (on_p2pSigner ?n) p2 = (Ok es2, p3)"
    "p4 = (if on_l1HeadsSub ?n then dispose RHeadSub else (\<lambda>p. p)) p3" "close_clients (on_l2Nodes ?n) p4 = (Ok (), p5)"
    "(case on_l1Source ?n of None \<Rightarrow> ret () | Some c \<Rightarrow> close_client c) p5 = (Ok (), p')"
    by (auto simp: OpNode_Close_def res_simps Let_def modify_def)
  have 1: "px_node p1 = ?n" "px_open p1 = px_open p - (case on_server ?n of None \<Rightarrow> {#} | Some s \<Rightarrow> if rs_httpServer s then {#RListener#} else {#})" "\<not> half_started ?n"
    using st(1) by (auto simp: close_server_def half_started_def split: option.splits if_splits)
  have 2: "px_node p2 = ?n" "px_open p2 = px_open p1 - (case on_p2pNode ?n of None \<Rightarrow> {#} | Some np \<Rightarrow> p2p_held np)"
    using st(2) 1 NodeP2P_Close_open [of E _ p1 "Ok es1" p2] by (auto split: option.splits)
  have 3: "px_node p3 = ?n" "px_open p3 = px_open p2 - opt_res RSigner (on_p2pSigner ?n)"
    using close_part_open [OF st(3)] 2 by auto
  have 4: "px_node p4 = ?n" "px_open p4 = px_open p3 - (if on_l1HeadsSub ?n then {#RHeadSub#} else {#})"
    using st(4) 3 by auto
  have 5: "px_node p5 = ?n" "px_open p5 = px_open p4 - sum_list (map client_res (on_l2Nodes ?n))"
    using close_clients_open [OF st(5)] 4 by auto
  have 6: "px_node p' = ?n" "px_open p' = px_open p5 - (case on_l1Source ?n of None \<Rightarrow> {#} | Some c \<Rightarrow> client_res c)"
    using st(6) 5 close_client_open [of _ p5 p'] by (auto split: option.splits)
  show ?thesis unfolding held_def by (simp add: 1(2,3) 2(2) 3(2) 4(2) 5(2) 6 diff_diff_eq)
qed

section \<open>Construction is all or nothing\<close>

definition calm :: "('s, 'a) rpc \<Rightarrow> bool" where
  "calm m \<longleftrightarrow> (\<forall>s. (\<exists>x. fst (m s) = Ok x) \<or> (\<exists>e. fst (m s) = Err e))"

lemma calmI: "(\<And>s. (\<exists>x. fst (m s) = Ok x) \<or> (\<exists>e. fst (m s) = Err e)) \<Longrightarrow> calm m"
  by (simp add: calm_def)

lemma calmE:
  assumes "calm m"
  obtains x s' where "m s = (Ok x, s')" | e s' where "m s = (Err e, s')"
  using assms unfolding calm_def by (metis prod.collapse)

lemma calm_rcatch:
  assumes "calm m" and "\<And>x. calm (f x)" and "\<And>e. calm (h e)"
  shows "calm (rcatch m h f)"
proof (rule calmI)
  fix s
  show "(\<exists>x. fst (rcatch m h f s) = Ok x) \<or> (\<exists>e. fst (rcatch m h f s) = Err e)"
    by (rule calmE [OF assms(1), of s]) (use assms(2,3) in \<open>simp_all add: calm_def\<close>)
qed

lemma calm_rbind:
  assumes "calm m" and "\<And>x. calm (f x)"
  shows "calm (rbind m f)"
proof (rule calmI)
  fix s
  show "(\<exists>x. fst (rbind m f s) = Ok x) \<or> (\<exists>e. fst (rbind m f s) = Err e)"
    by (rule calmE [OF assms(1), of s]) (use assms(2) in \<open>simp_all add: calm_def\<close>)
qed

lemma calm_rmap_err: "calm m \<Longrightarrow> calm (rmap_err g m)"
  unfolding calm_def rmap_err_def by (auto split: prod.split) (metis fst_conv map_err.simps(1,2))

lemma calm_on_env: "calm m \<Longrightarrow> calm (on_env m)"
  unfolding calm_def on_env_def by (auto split: prod.split) (metis fst_conv)

lemma calm_simps [simp]: "calm (ret x)" "calm (modify f)" "calm (lift_res (Ok x))" "calm (lift_res (Err e))"
  by (simp_all add: calm_def modify_def)

lemmas calm_intros = calm_rbind calm_rcatch calm_rmap_err calm_on_env

text \<open>What construction relies on: the libraries return, dialing gives a client or an error, the p2p setup gives a host, and the
  server can listen.\<close>

definition calm_env :: "'w node_env \<Rightarrow> 'w NodeConfig \<Rightarrow> bool" where
  "calm_env E cfg \<longleftrightarrow>
     (\<forall>addr w. fst (fst (ne_dial E addr w)) \<noteq> None \<or> snd (fst (ne_dial E addr w)) \<noteq> None) \<and>
     (\<forall>h. calm (ne_NewGossipSub E h) \<and> calm (ne_JoinGossip E h) \<and> calm (ne_closeGossip E h) \<and> calm (ne_closeHost E h) \<and> calm (ne_closeSigner E h)) \<and>
     (\<forall>s. nc_P2PSigner cfg = Some s \<longrightarrow> calm s) \<and>
     (\<forall>su. nc_P2P cfg = Some su \<longrightarrow> calm (su_Host su) \<and> (\<forall>port. calm (su_Discovery su port)) \<and> (su_Check su = Ok () \<or> (\<exists>e. su_Check su = Err e)))"

definition host_given :: "'w NodeConfig \<Rightarrow> bool" where
  "host_given cfg \<longleftrightarrow> (\<forall>su w. nc_P2P cfg = Some su \<longrightarrow> fst (su_Host su w) \<noteq> Ok None)"

lemma dial_client_calm:
  assumes "calm_env E cfg"
  shows "(\<exists>c. fst (dial_client E addr p) = Ok (Some c)) \<or> (\<exists>e. fst (dial_client E addr p) = Err e)"
proof -
  have "\<And>w. fst (fst (ne_dial E addr w)) \<noteq> None \<or> snd (fst (ne_dial E addr w)) \<noteq> None"
    using assms unfolding calm_env_def by blast
  from dial_result [of "ne_dial E" addr, OF this, of "ne_rand E" "ne_sleep E" "px_world p"]
  show ?thesis by (auto simp: dial_client_def on_env_def rbind_def modify_def)
qed

lemma calm_dial_client: "calm_env E cfg \<Longrightarrow> calm (dial_client E addr)"
  using dial_client_calm [of E cfg addr] unfolding calm_def by blast

lemma calm_close_part: "(\<And>h. calm (closer h)) \<Longrightarrow> calm (close_part closer f x)"
  unfolding close_part_def by (cases x) (auto intro!: calm_intros)

lemma calm_NodeP2P_Close: "calm_env E cfg \<Longrightarrow> calm (NodeP2P_Close E np)"
  unfolding NodeP2P_Close_def by (intro calm_rbind calm_close_part calm_simps) (auto simp: calm_env_def)

lemma calm_NewNodeP2P:
  assumes "calm_env E cfg" and "nc_P2P cfg = Some su"
  shows "calm (NewNodeP2P E su)"
proof -
  have "calm (NodeP2P_init E su)"
    unfolding NodeP2P_init_def using assms
    by (auto intro!: calm_intros simp: calm_env_def split: option.split)
  then have "calm (rcatch (NodeP2P_init E su) (\<lambda>err p1. rbind (NodeP2P_Close E (px_p2p p1)) (\<lambda>closeErr. lift_res (Err err)) p1)
      (\<lambda>_ p1. (Ok (if np_host (px_p2p p1) = None then None else Some (px_p2p p1)), p1)))"
  proof (rule calm_rcatch)
    fix err
    have "calm (rbind (NodeP2P_Close E np) (\<lambda>closeErr. lift_res (Err err)))" for np
      by (intro calm_rbind calm_NodeP2P_Close [OF assms(1)] calm_simps)
    then show "calm (\<lambda>p1. rbind (NodeP2P_Close E (px_p2p p1)) (\<lambda>closeErr. lift_res (Err err)) p1)" unfolding calm_def by blast
  qed (simp add: calm_def)
  then show ?thesis by (simp add: calm_def NewNodeP2P_def)
qed

lemma NewNodeP2P_host:
  assumes "fst (NewNodeP2P E su p) = Ok None"
  shows "\<exists>w. fst (su_Host su w) = Ok None"
proof -
  from assms obtain p1 where "NodeP2P_init E su (p\<lparr>px_p2p := NodeP2P_zero\<rparr>) = (Ok (), p1)" "np_host (px_p2p p1) = None"
    by (auto simp: NewNodeP2P_def rcatch_def rbind_def split: prod.splits res.splits if_splits)
  then show ?thesis unfolding NodeP2P_init_def action_defs
    by (auto split: prod.splits res.splits option.splits) (metis fst_conv)
qed

lemma initP2P_calm:
  assumes "calm_env E cfg" and "host_given cfg"
  shows "calm (initP2P E cfg)"
proof (cases "nc_P2P cfg")
  case (Some su)
  show ?thesis
  proof (rule calmI)
    fix p
    have "fst (NewNodeP2P E su p) \<noteq> Ok None"
      using NewNodeP2P_host [of E su p] assms(2) Some by (auto simp: host_given_def)
    then show "(\<exists>x. fst (initP2P E cfg p) = Ok x) \<or> (\<exists>e. fst (initP2P E cfg p) = Err e)"
      by (rule_tac calmE [OF calm_NewNodeP2P [OF assms(1) Some], of p]) (auto simp: initP2P_def Some rbind_def modify_def split: option.split)
  qed
qed (simp add: initP2P_def)

text \<open>Every client that the node keeps is one that was dialed.\<close>

definition clients_ok :: "OpNode \<Rightarrow> bool" where
  "clients_ok n \<longleftrightarrow> None \<notin> set (on_l2Nodes n) \<and> on_l1Source n \<noteq> Some None"

lemma initL1_clients:
  assumes "calm_env E cfg" and "clients_ok (px_node p)"
  shows "clients_ok (px_node (snd (initL1 E cfg p)))"
proof -
  obtain r1 p1 where 1: "dial_client E (nc_L1NodeAddr cfg) p = (r1, p1)" by fastforce
  note d = dial_client_open [OF 1]
  from dial_client_calm [OF assms(1), of "nc_L1NodeAddr cfg" p] 1 consider c where "r1 = Ok (Some c)" | e where "r1 = Err e" by auto
  then show ?thesis
  proof cases
    case 1
    with \<open>dial_client E (nc_L1NodeAddr cfg) p = (r1, p1)\<close> d assms(2) show ?thesis
      by (cases "SourceConfig_Check (DefaultConfig (nc_Rollup cfg) (nc_L1TrustRPC cfg))")
        (simp_all add: initL1_def rbind_def rmap_err_def modify_def clients_ok_def L1_NewSource_def)
  qed (use 1 d assms(2) in \<open>simp add: initL1_def rbind_def rmap_err_def\<close>)
qed

lemma initL2_clients:
  assumes "calm_env E cfg" and "clients_ok (px_node p)"
  shows "clients_ok (px_node (snd (initL2 E addrs p)))"
  using assms(2)
proof (induction addrs arbitrary: p)
  case (Cons addr addrs)
  obtain r1 p1 where 1: "dial_client E addr p = (r1, p1)" by fastforce
  note d = dial_client_open [OF 1]
  from dial_client_calm [OF assms(1), of addr p] 1 consider c where "r1 = Ok (Some c)" | e where "r1 = Err e" by auto
  then show ?case
  proof cases
    case (1 c)
    let ?q = "upd_node (\<lambda>n. n\<lparr>on_l2Nodes := on_l2Nodes n @ [Some c], on_l2Engines := on_l2Engines n @ [length (on_l2Engines n)]\<rparr>) p1"
    have "initL2 E (addr # addrs) p = initL2 E addrs ?q"
      using 1 \<open>dial_client E addr p = (r1, p1)\<close> by (simp add: AttachEngine_def rbind_def rmap_err_def modify_def)
    moreover have "clients_ok (px_node ?q)" using Cons.prems d by (simp add: clients_ok_def)
    ultimately show ?thesis using Cons.IH [of ?q] by (simp only:)
  qed (use 1 d Cons.prems in \<open>simp add: AttachEngine_def rbind_def rmap_err_def\<close>)
qed simp

lemma initP2PSigner_clients: "clients_ok (px_node p) \<Longrightarrow> clients_ok (px_node (snd (initP2PSigner cfg p)))"
  unfolding initP2PSigner_def action_defs by (auto simp: clients_ok_def split: option.splits prod.splits res.splits)

lemma initP2P_clients:
  assumes "clients_ok (px_node p)"
  shows "clients_ok (px_node (snd (initP2P E cfg p)))"
proof (cases "nc_P2P cfg")
  case (Some su)
  obtain r1 p1 where 1: "NewNodeP2P E su p = (r1, p1)" by fastforce
  from NewNodeP2P_open [OF 1] 1 assms show ?thesis
    by (cases r1) (auto simp: initP2P_def Some rbind_def modify_def clients_ok_def split: option.split)
qed (use assms in \<open>simp add: initP2P_def\<close>)

lemma initRPCServer_clients:
  assumes "clients_ok (px_node p)"
  shows "clients_ok (px_node (snd (initRPCServer E cfg p)))"
proof -
  obtain r1 p1 where 1: "dial_client E (nc_L2NodeAddr cfg) p = (r1, p1)" by fastforce
  from dial_client_open [OF 1] 1 assms show ?thesis
    by (cases r1) (auto simp: initRPCServer_def rpcServer_Start_def action_defs Let_def clients_ok_def split: prod.split res.split)
qed

lemma snd_rbind:
  assumes "I (snd (m p))" and "\<And>x q. I q \<Longrightarrow> I (snd (f x q))"
  shows "I (snd (rbind m f p))"
  using assms by (cases "m p") (auto simp: rbind_def split: res.split)

lemma OpNode_init_clients:
  assumes "calm_env E cfg" and "clients_ok (px_node p)"
  shows "clients_ok (px_node (snd (OpNode_init E cfg p)))"
  unfolding OpNode_init_def
  by (intro snd_rbind [where I = "\<lambda>q. clients_ok (px_node q)"] initL1_clients [OF assms(1)] initL2_clients [OF assms(1)]
      initP2PSigner_clients initP2P_clients initRPCServer_clients assms(2))

lemma calm_initL1: "calm_env E cfg \<Longrightarrow> calm (initL1 E cfg)"
  unfolding initL1_def L1_NewSource_def SourceConfig_Check_def
  by (intro calm_intros calm_dial_client) (auto intro!: calm_intros)

lemma calm_initL2: "calm_env E cfg \<Longrightarrow> calm (initL2 E addrs)"
  by (induction addrs) (auto simp: AttachEngine_def intro!: calm_intros calm_dial_client)

lemma calm_initP2PSigner: "calm_env E cfg \<Longrightarrow> calm (initP2PSigner cfg)"
  unfolding initP2PSigner_def by (auto simp: calm_env_def intro!: calm_intros split: option.split)

lemma calm_initRPCServer:
  assumes "calm_env E cfg" and "server_starts E"
  shows "calm (initRPCServer E cfg)"
  unfolding initRPCServer_def
proof (intro calm_rbind calm_rmap_err calm_dial_client [OF assms(1)])
  have "calm (ne_Listen E a)" for a using assms(2) by (simp add: calm_def server_starts_def)
  then have "calm (rbind (modify (upd_node (on_server_update (\<lambda>_. Some s)))) (\<lambda>_. rmap_err (Wrap m) (rpcServer_Start E s)))" for s m
    using assms(2) unfolding rpcServer_Start_def server_starts_def by (auto intro!: calm_intros)
  then show "calm (\<lambda>p. let s = (if on_p2pNode (px_node p) \<noteq> None then EnableP2P (newRPCServer (nc_RPC cfg) (ne_appVersion E)) else newRPCServer (nc_RPC cfg) (ne_appVersion E)) in
      rbind (modify (upd_node (on_server_update (\<lambda>_. Some s)))) (\<lambda>_. rmap_err (Wrap ''unable to start RPC server'') (rpcServer_Start E s)) p)"
    unfolding calm_def Let_def by blast
qed

lemma calm_OpNode_init:
  assumes "calm_env E cfg" and "host_given cfg" and "server_starts E"
  shows "calm (OpNode_init E cfg)"
  unfolding OpNode_init_def
  by (intro calm_rbind calm_initL1 calm_initL2 [OF assms(1)] calm_initP2PSigner [OF assms(1)] initP2P_calm calm_initRPCServer assms)

lemma close_part_ok:
  assumes "\<And>h. calm (closer h)"
  shows "\<exists>es p'. close_part closer f x p = (Ok es, p')"
proof -
  have "calm (close_part closer f x)" by (rule calm_close_part [OF assms])
  moreover obtain r p' where r: "close_part closer f x p = (r, p')" by fastforce
  ultimately show ?thesis using close_part_open [OF r] unfolding calm_def by (metis fst_conv)
qed

lemma NodeP2P_Close_ok:
  assumes "calm_env E cfg"
  shows "\<exists>es p'. NodeP2P_Close E np p = (Ok es, p')"
proof -
  obtain r p' where r: "NodeP2P_Close E np p = (r, p')" by fastforce
  with calm_NodeP2P_Close [OF assms, of np] NodeP2P_Close_open [OF r] show ?thesis unfolding calm_def by (metis fst_conv)
qed

lemma close_clients_ok: "None \<notin> set cs \<Longrightarrow> \<exists>p'. close_clients cs p = (Ok (), p')"
proof (induction cs arbitrary: p)
  case (Cons c cs)
  then obtain h where "c = Some h" by (cases c) auto
  with Cons show ?case by (simp add: close_client_def rbind_def)
qed simp

lemma OpNode_Close_ok:
  assumes "calm_env E cfg" and "clients_ok (px_node p)" and "\<not> half_started (px_node p)"
  shows "\<exists>es p'. OpNode_Close E p = (Ok es, p')"
proof -
  let ?n = "px_node p"
  obtain p1 where 1: "close_server p = (Ok (), p1)"
    using assms(3) by (cases "on_server (px_node p)") (auto simp: close_server_def half_started_def)
  obtain es1 p2 where 2: "(case on_p2pNode ?n of None \<Rightarrow> ret [] | Some np \<Rightarrow> NodeP2P_Close E np) p1 = (Ok es1, p2)"
    using that NodeP2P_Close_ok [OF assms(1), of "the (on_p2pNode ?n)" p1] by (cases "on_p2pNode ?n") auto
  have "\<And>h. calm (ne_closeSigner E h)" using assms(1) by (simp add: calm_env_def)
  from close_part_ok [of "ne_closeSigner E" RSigner "on_p2pSigner ?n" p2, OF this] obtain es2 p3 where 3: "close_part (ne_closeSigner E) RSigner (on_p2pSigner ?n) p2 = (Ok es2, p3)" by blast
  let ?p4 = "(if on_l1HeadsSub ?n then dispose RHeadSub else (\<lambda>p. p)) p3"
  have "None \<notin> set (on_l2Nodes ?n)" using assms(2) by (simp add: clients_ok_def)
  from close_clients_ok [OF this, of ?p4] obtain p5 where 5: "close_clients (on_l2Nodes ?n) ?p4 = (Ok (), p5)" by blast
  obtain p6 where 6: "(case on_l1Source ?n of None \<Rightarrow> ret () | Some c \<Rightarrow> close_client c) p5 = (Ok (), p6)"
    using that assms(2) by (cases "on_l1Source ?n") (auto simp: clients_ok_def close_client_def)
  show ?thesis using 1 2 3 5 6 by (simp add: OpNode_Close_def Let_def rbind_def modify_def)
qed

lemma NodeConfig_Check_outcome:
  assumes "calm_env E cfg"
  shows "NodeConfig_Check cfg = Ok () \<or> (\<exists>e. NodeConfig_Check cfg = Err e)"
proof (cases "Config_Check (nc_Rollup cfg) = Ok ()")
  case True
  with assms show ?thesis by (cases "nc_P2P cfg") (auto simp: NodeConfig_Check_def calm_env_def)
next
  case False
  then obtain e where "Config_Check (nc_Rollup cfg) = Err e" unfolding Config_Check_def by (simp split: if_splits)
  then show ?thesis by (simp add: NodeConfig_Check_def)
qed


text \<open>Without a host, which is how the configuration disables p2p, no node is ever built: \<open>initP2P\<close> follows the nil p2p node.\<close>

theorem disabled_p2p_never_starts:
  assumes "nc_P2P cfg = Some su" and "su_Host su = ret None"
  shows "New E cfg p \<noteq> (Ok (), p')"
proof
  assume "New E cfg p = (Ok (), p')"
  then obtain q q' where "initP2P E cfg q = (Ok (), q')"
    by (auto simp: New_def OpNode_init_def res_simps)
  then show False using assms
    by (simp add: initP2P_def NewNodeP2P_def NodeP2P_init_def NodeP2P_zero_def action_defs)
qed

text \<open>When the server cannot listen, \<open>New\<close> does not return the error: its clean-up panics on the HTTP server that was never set.\<close>

theorem listen_failure_panics:
  assumes "OpNode_init E cfg (p\<lparr>px_node := OpNode_zero\<rparr>) = (Err e, p1)" and "half_started (px_node p1)" and "NodeConfig_Check cfg = Ok ()"
  shows "New E cfg p = (Panic ''nil pointer dereference'', p1)"
proof -
  have "close_server p1 = (Panic ''nil pointer dereference'', p1)"
    using assms(2) by (auto simp: close_server_def half_started_def)
  then have "OpNode_Close E p1 = (Panic ''nil pointer dereference'', p1)" by (simp add: OpNode_Close_def Let_def)
  then show ?thesis using assms(1,3) by (simp add: New_def rbind_def)
qed

text \<open>\<open>Close\<close> never closes the client that was dialed for the RPC server.\<close>

theorem Close_leaks_rpc_client:
  assumes "px_open p = B + held (px_node p) + {#RClient c#}" and "OpNode_Close E p = (Ok es, p')"
  shows "px_open p' = B + {#RClient c#}"
  using OpNode_Close_open [OF assms(2)] assms(1) by simp

section \<open>Start and signals to the drivers (node.go, driver.go, state.go)\<close>

text \<open>The drivers are started in order, up to the first error.\<close>

fun OpNode_Start :: "('w conns \<times> driver_state) list \<Rightarrow> 'w \<Rightarrow> unit res \<times> driver_state list \<times> 'w" where
  "OpNode_Start [] w = (Ok (), [], w)"
| "OpNode_Start ((c, s) # engines) w =
     (case Start c s w of
        (Ok u, s', w') \<Rightarrow> (case OpNode_Start engines w' of (r, ss, w'') \<Rightarrow> (r, s' # ss, w''))
      | (r, s', w') \<Rightarrow> (r, s' # map snd engines, w'))"

text \<open>A driver takes a signal into its channel, or gives up when the context expires; a full channel blocks until then.\<close>

definition Driver_OnL1Head :: "bool \<Rightarrow> L1BlockRef \<Rightarrow> loop_state \<Rightarrow> error option \<times> loop_state" where
  "Driver_OnL1Head expired head L =
     (if \<not> expired \<and> length (ls_l1Heads L) < chan_capacity then (None, L\<lparr>ls_l1Heads := ls_l1Heads L @ [head]\<rparr>)
      else (Some ContextCanceled, L))"

definition Driver_OnUnsafeL2Payload :: "bool \<Rightarrow> ExecutionPayload \<Rightarrow> loop_state \<Rightarrow> error option \<times> loop_state" where
  "Driver_OnUnsafeL2Payload expired payload L =
     (if \<not> expired \<and> length (ls_unsafeL2Payloads L) < chan_capacity
      then (None, L\<lparr>ls_unsafeL2Payloads := ls_unsafeL2Payloads L @ [payload]\<rparr>)
      else (Some ContextCanceled, L))"

text \<open>One goroutine for each engine; an error is only logged. The flags say whose context expires first.\<close>

definition OnNewL1Head :: "bool list \<Rightarrow> L1BlockRef \<Rightarrow> loop_state list \<Rightarrow> loop_state list" where
  "OnNewL1Head expired sig engines = map2 (\<lambda>x L. snd (Driver_OnL1Head x sig L)) expired engines"

definition OnUnsafeL2Payload :: "'p option \<Rightarrow> bool list \<Rightarrow> 'p \<Rightarrow> ExecutionPayload \<Rightarrow> loop_state list \<Rightarrow> loop_state list" where
  "OnUnsafeL2Payload self expired sender payload engines =
     (if self = Some sender then engines
      else map2 (\<lambda>x L. snd (Driver_OnUnsafeL2Payload x payload L)) expired engines)"

text \<open>Publishing needs a signer if p2p is on, and does nothing if it is off.\<close>

definition OpNode_PublishL2Payload ::
  "geth \<Rightarrow> ('k, 'p, 'l) p2p_lib \<Rightarrow> Config \<Rightarrow> bool \<Rightarrow> 'k option option \<Rightarrow> bytes \<Rightarrow> ExecutionPayload \<Rightarrow> bytes option res" where
  "OpNode_PublishL2Payload G L cfg p2pOn signer pool payload =
     (if p2pOn then
        (case signer of
           None \<Rightarrow> Err (ErrMsg ''node has no p2p signer, payload cannot be published'')
         | Some k \<Rightarrow> bind_res (PublishL2Payload G L cfg k pool payload) (\<lambda>m. Ok (Some m)))
      else Ok None)"

text \<open>The signals are steps of the drivers' event loops, so what holds in every reachable state of a loop
  holds for every driver of the node.\<close>

lemma OnNewL1Head_steps:
  assumes "length expired = length engines" and "parent_of H hs par" and "h \<in> hs"
  shows "list_all2 (\<lambda>L L'. (loop_step c (head_ok par))\<^sup>*\<^sup>* (L, w) (L', w)) engines (OnNewL1Head expired (head_signal H h) engines)"
proof -
  have "(loop_step c (head_ok par))\<^sup>*\<^sup>* (L, w) (snd (Driver_OnL1Head x (head_signal H h) L), w)" for x L
    using loop_step.OnL1Head [of "head_ok par" "head_signal H h" L c w] head_signal_ok [OF assms(2,3)]
    by (auto simp: Driver_OnL1Head_def)
  then show ?thesis using assms(1) by (simp add: OnNewL1Head_def list_all2_conv_all_nth)
qed

lemma OnUnsafeL2Payload_steps:
  assumes "length expired = length engines"
  shows "list_all2 (\<lambda>L L'. (loop_step c ok)\<^sup>*\<^sup>* (L, w) (L', w)) engines (OnUnsafeL2Payload self expired sender payload engines)"
proof -
  have "(loop_step c ok)\<^sup>*\<^sup>* (L, w) (snd (Driver_OnUnsafeL2Payload x payload L), w)" for x L
    using loop_step.OnUnsafeL2Payload [of L c ok w payload] by (auto simp: Driver_OnUnsafeL2Payload_def)
  then show ?thesis using assms by (simp add: OnUnsafeL2Payload_def list_all2_conv_all_nth)
qed

section \<open>A concrete node\<close>

definition demo_node_env :: "unit node_env" where
  "demo_node_env = \<lparr>ne_rand = (\<lambda>n w. (0, w)), ne_sleep = (\<lambda>d w. w), ne_dial = (\<lambda>a w. ((Some (length a), None), w)),
     ne_NewGossipSub = (\<lambda>h. ret ()), ne_JoinGossip = (\<lambda>h. ret 5), ne_Addrs = (\<lambda>h. []), ne_closeGossip = (\<lambda>h. ret ()),
     ne_closeHost = (\<lambda>h. ret ()), ne_closeSigner = (\<lambda>h. ret ()), ne_RegisterApis = (\<lambda>a. Ok ()), ne_Listen = ret, ne_appVersion = ''v1''\<rparr>"

definition demo_setup :: "unit SetupP2P" where
  "demo_setup = \<lparr>su_Check = Ok (), su_Host = ret (Some 3), su_Discovery = (\<lambda>p. ret (Some 4)), su_TargetPeers = 20\<rparr>"

definition demo_node_config :: "unit NodeConfig" where
  "demo_node_config = \<lparr>nc_L1NodeAddr = ''a'', nc_L2EngineAddrs = [''bb''], nc_L2NodeAddr = ''ccc'', nc_L1TrustRPC = False,
     nc_Rollup = demo_config, nc_Sequencer = False, nc_P2PSigner = None, nc_RPC = \<lparr>rc_ListenAddr = ''::'', rc_ListenPort = 8545\<rparr>, nc_P2P = Some demo_setup\<rparr>"

definition demo_proc :: "unit proc" where
  "demo_proc = \<lparr>px_node = OpNode_zero, px_p2p = NodeP2P_zero, px_open = {#}, px_world = ()\<rparr>"

lemma demo_node_ok:
  "calm_env demo_node_env demo_node_config" "host_given demo_node_config" "server_starts demo_node_env"
  "SourceConfig_Check (DefaultConfig (nc_Rollup demo_node_config) (nc_L1TrustRPC demo_node_config)) = Ok ()"
  by (simp_all add: calm_env_def host_given_def server_starts_def demo_node_env_def demo_node_config_def demo_setup_def
      SourceConfig_Check_def DefaultConfig_def demo_config_def)

lemma demo_dial: "dial_client demo_node_env addr p = (Ok (Some (length addr)), p\<lparr>px_open := px_open p + {#RClient (length addr)#}\<rparr>)"
  by (simp add: dial_client_def on_env_def dialRPCClientWithBackoff_def Do_def Do_loop.simps dial_op_def demo_node_env_def rbind_def modify_def)

lemma demo_env_fields:
  "ne_NewGossipSub demo_node_env = (\<lambda>h. ret ())" "ne_JoinGossip demo_node_env = (\<lambda>h. ret 5)" "ne_Addrs demo_node_env = (\<lambda>h. [])"
  "ne_RegisterApis demo_node_env = (\<lambda>a. Ok ())" "ne_Listen demo_node_env = ret"
  by (simp_all add: demo_node_env_def)

lemma demo_New: "fst (New demo_node_env demo_node_config demo_proc) = Ok ()"
  by (simp add: New_def NodeConfig_Check_def Config_Check_def OpNode_init_def initL1_def L1_NewSource_def SourceConfig_Check_def DefaultConfig_def
      AttachEngine_def initP2PSigner_def initP2P_def NewNodeP2P_def NodeP2P_init_def NodeP2P_zero_def initRPCServer_def rpcServer_Start_def Let_def
      demo_dial demo_env_fields demo_node_config_def demo_setup_def demo_config_def action_defs rcatch_def)


end
