(* ===== verification/P2PAdmin.thy ===== *)
theory P2PAdmin
  imports OpNode
begin

text \<open>
  The libp2p host built from the configuration (\<open>op-node/p2p/host.go\<close>), and the administration API over it: its RPC methods
  (\<open>rpc_server.go\<close>), the peer information they report (\<open>rpc_api.go\<close>) and the client stubs (\<open>rpc_client.go\<close>). The
  peerstore, the connection gater and manager and the host are libp2p: records of calls on a world.
\<close>

section \<open>The host (host.go)\<close>

record AutoNATConfig =
  an_EnableService :: bool
  an_ThrottleGlobalLimit :: nat
  an_ThrottlePeerLimit :: nat
  an_ThrottleInterval :: duration

record ('k, 'a, 'h) host_conf =
  hc_UserAgent :: string
  hc_PeerKey :: 'k
  hc_Muxers :: "string list"
  hc_SecurityTransports :: "string list"
  hc_Insecure :: bool
  hc_PSK :: "bytes option"
  hc_DialTimeout :: duration
  hc_RelayCustom :: bool
  hc_Relay :: bool
  hc_EnableRelayService :: bool
  hc_ListenAddrs :: "'a list"
  hc_NATManager :: bool                                            \<comment> \<open>disabled if nil\<close>
  hc_Peerstore :: "'h option"
  hc_DisablePing :: bool
  hc_EnableAutoRelay :: bool
  hc_AutoNATConfig :: AutoNATConfig
  hc_EnableHolePunching :: bool

record ('k, 'p, 'a, 'h, 'w) host_lib =
  hl_IDFromPublicKey :: "'k \<Rightarrow> 'p res"
  hl_NewPeerstore :: "'h option \<Rightarrow> ('w, unit) rpc"
  hl_AddPrivKey :: "'p \<Rightarrow> 'k \<Rightarrow> ('w, unit) rpc"
  hl_AddPubKey :: "'p \<Rightarrow> 'k \<Rightarrow> ('w, unit) rpc"
  hl_NewConnGater :: "'h option \<Rightarrow> ('w, unit) rpc"
  hl_NewConnManager :: "int \<Rightarrow> int \<Rightarrow> duration \<Rightarrow> ('w, unit) rpc"
  hl_TransportConstructor :: "unit res"
  hl_NewNode :: "('k, 'a, 'h) host_conf \<Rightarrow> ('w, nat) rpc"
  hl_AddrInfoFromP2pAddr :: "'a \<Rightarrow> error + 'p \<times> 'a list"
  hl_AddAddrs :: "nat \<Rightarrow> 'p \<Rightarrow> 'a list \<Rightarrow> 'w \<Rightarrow> 'w"
  hl_Protect :: "'p \<Rightarrow> string \<Rightarrow> 'w \<Rightarrow> 'w"
  hl_DialPeer :: "nat \<Rightarrow> 'p \<Rightarrow> 'w \<Rightarrow> 'w"           \<comment> \<open>starts a dial in the background\<close>

definition DefaultConnGater :: "('k, 'p, 'a, 'h, 'w) host_lib \<Rightarrow> ('k, 'n, 'a, 'h) P2PConfig \<Rightarrow> ('w, unit) rpc" where
  "DefaultConnGater HL conf = hl_NewConnGater HL (pc_Store conf)"

definition DefaultConnManager :: "('k, 'p, 'a, 'h, 'w) host_lib \<Rightarrow> ('k, 'n, 'a, 'h) P2PConfig \<Rightarrow> ('w, unit) rpc" where
  "DefaultConnManager HL conf = hl_NewConnManager HL (sint (pc_PeersLo conf)) (sint (pc_PeersHi conf)) (pc_PeersGrace conf)"

text \<open>Static peers are stored, protected and dialed; a bad address ends the loop with an error.\<close>

fun static_peers :: "('k, 'p, 'a, 'h, 'w) host_lib \<Rightarrow> nat \<Rightarrow> 'a list \<Rightarrow> ('w, unit) rpc" where
  "static_peers HL h [] = ret ()"
| "static_peers HL h (peerAddr # addrs) =
     (case hl_AddrInfoFromP2pAddr HL peerAddr of
        Inl e \<Rightarrow> lift_res (Err (ErrMsg ''bad peer address''))
      | Inr (peerID, as) \<Rightarrow> (\<lambda>w. static_peers HL h addrs (hl_DialPeer HL h peerID (hl_Protect HL peerID ''static'' (hl_AddAddrs HL h peerID as w)))))"

definition p2p_host_conf :: "('k, 'n, 'a, 'h) P2PConfig \<Rightarrow> 'k \<Rightarrow> 'a \<Rightarrow> ('k, 'a, 'h) host_conf" where
  "p2p_host_conf conf priv listenAddr =
     \<lparr>hc_UserAgent = pc_UserAgent conf, hc_PeerKey = priv, hc_Muxers = pc_HostMux conf, hc_SecurityTransports = pc_HostSecurity conf,
      hc_Insecure = pc_NoTransportSecurity conf, hc_PSK = None, hc_DialTimeout = pc_TimeoutDial conf, hc_RelayCustom = False, hc_Relay = False,
      hc_EnableRelayService = False, hc_ListenAddrs = [listenAddr], hc_NATManager = pc_NAT conf, hc_Peerstore = pc_Store conf, hc_DisablePing = False,
      hc_EnableAutoRelay = False,
      hc_AutoNATConfig = \<lparr>an_EnableService = True, an_ThrottleGlobalLimit = 10, an_ThrottlePeerLimit = 5, an_ThrottleInterval = 60 * 1000 * Millisecond\<rparr>,
      hc_EnableHolePunching = False\<rparr>"

definition Config_Host ::
  "('k, 'p, 'a, 'h, 'w) host_lib \<Rightarrow> ('n, 'p, 'a) disc_lib \<Rightarrow> ('k, 'n, 'a, 'h) P2PConfig \<Rightarrow> ('w, nat option) rpc" where
  "Config_Host HL L conf =
     (if pc_DisableP2P conf then ret None
      else (case pc_Priv conf of
          None \<Rightarrow> lift_res (Panic ''nil pointer dereference'')
        | Some priv \<Rightarrow>
            rbind (rmap_err (\<lambda>e. ErrMsg ''failed to derive pubkey from network priv key'') (lift_res (hl_IDFromPublicKey HL priv))) (\<lambda>pid.
            rbind (rmap_err (\<lambda>e. ErrMsg ''failed to open peerstore'') (hl_NewPeerstore HL (pc_Store conf))) (\<lambda>_.
            rbind (rmap_err (\<lambda>e. ErrMsg ''failed to set up peerstore with priv key'') (hl_AddPrivKey HL pid priv)) (\<lambda>_.
            rbind (rmap_err (\<lambda>e. ErrMsg ''failed to set up peerstore with pub key'') (hl_AddPubKey HL pid priv)) (\<lambda>_.
            rbind (rmap_err (\<lambda>e. ErrMsg ''failed to open connection gater'') (DefaultConnGater HL conf)) (\<lambda>_.
            rbind (rmap_err (\<lambda>e. ErrMsg ''failed to open connection manager'') (DefaultConnManager HL conf)) (\<lambda>_.
            rbind (rmap_err (\<lambda>e. ErrMsg ''failed to make listen addr'') (lift_res (of_sum (addrFromIPAndPort L (pc_ListenIP conf) (pc_ListenTCPPort conf))))) (\<lambda>listenAddr.
            rbind (rmap_err (\<lambda>e. ErrMsg ''failed to create TCP transport'') (lift_res (hl_TransportConstructor HL))) (\<lambda>_.
            rbind (hl_NewNode HL (p2p_host_conf conf priv listenAddr)) (\<lambda>h.
            rbind (static_peers HL h (pc_StaticPeers conf)) (\<lambda>_.
            ret (Some h)))))))))))))"

text \<open>The setup that the node gets from the command line.\<close>

definition config_setup ::
  "('k, 'p, 'a, 'h, 'w) host_lib \<Rightarrow> ('n, 'p, 'a) disc_lib \<Rightarrow> (ip option \<Rightarrow> 16 word \<Rightarrow> ('w, 'c \<times> nat) rpc) \<Rightarrow>
   ('c \<Rightarrow> local_node \<Rightarrow> 'n list \<Rightarrow> ('w, nat) rpc) \<Rightarrow> ('k, 'n, 'a, 'h) P2PConfig \<Rightarrow> Config \<Rightarrow> 'w SetupP2P" where
  "config_setup HL L listenUDP listenV5 conf cfg =
     \<lparr>su_Check = P2PConfig_Check conf, su_Host = Config_Host HL L conf,
      su_Discovery = (\<lambda>port. rbind (Discovery L listenUDP listenV5 conf cfg port) (\<lambda>r. ret (map_option snd r))), su_TargetPeers = TargetPeers conf\<rparr>"

text \<open>The host that is created offers exactly the configured transports, and is insecure only if the configuration says so;
  with a loaded configuration, that is only if the security flag is \<open>none\<close>.\<close>

lemma Config_Host_created:
  assumes "Config_Host HL L conf w = (Ok (Some h), w')"
  shows "\<exists>w1 w2 addr priv. pc_Priv conf = Some priv \<and> hl_NewNode HL (p2p_host_conf conf priv addr) w1 = (Ok h, w2) \<and> addrFromIPAndPort L (pc_ListenIP conf) (pc_ListenTCPPort conf) = Inr addr \<and>
    \<not> pc_DisableP2P conf"
proof (cases "pc_Priv conf")
  case (Some priv)
  with assms show ?thesis
    by (auto simp: Config_Host_def res_simps of_sum_def split: if_splits sum.splits)
qed (use assms in \<open>simp add: Config_Host_def split: if_splits\<close>)

text \<open>With p2p disabled on the command line no node is built, in any environment.\<close>

theorem disable_flag_crashes:
  assumes "f_DisableP2P ctx" and "NewConfig CL ctx w0 = (Ok conf, w1)" and "nc_P2P cfg = Some (config_setup HL L listenUDP listenV5 conf rollupCfg)"
  shows "New E cfg p \<noteq> (Ok (), p')"
proof (rule disabled_p2p_never_starts)
  show "nc_P2P cfg = Some (config_setup HL L listenUDP listenV5 conf rollupCfg)" by (rule assms)
  have "pc_DisableP2P conf" using assms(1,2) by (auto simp: NewConfig_def)
  then show "su_Host (config_setup HL L listenUDP listenV5 conf rollupCfg) = ret None"
    by (simp add: config_setup_def Config_Host_def)
qed

text \<open>A static peer whose address has no peer id is only noticed after the host was started; the error path returns without closing it.\<close>

lemma static_peers_bad:
  assumes "x \<in> set addrs" and "hl_AddrInfoFromP2pAddr HL x = Inl e"
  shows "\<exists>w'. static_peers HL h addrs w = (Err (ErrMsg ''bad peer address''), w')"
  using assms(1)
proof (induction addrs arbitrary: w)
  case (Cons a addrs)
  with assms(2) show ?case by (cases "hl_AddrInfoFromP2pAddr HL a") auto
qed simp

section \<open>Peer information (rpc_api.go, rpc_server.go)\<close>

datatype connectedness = NotConnected | Connected | CanConnect | CannotConnect
datatype direction = DirUnknown | DirInbound | DirOutbound

text \<open>Values of the peerstore, which are interfaces; a key is a bogus test key, a secp256k1 key or of another type.\<close>

datatype 'n pvalue = PNil | PString string | PNode 'n | PUint u64
datatype pubkey = TestKey bytes | Secp256k1 bytes | OtherKey

record 'p PeerInfo =
  pi_PeerID :: 'p
  pi_NodeID :: bytes
  pi_UserAgent :: string
  pi_ProtocolVersion :: string
  pi_ENR :: string
  pi_Addresses :: "string list"
  pi_Protocols :: "string list"
  pi_Connectedness :: connectedness
  pi_Direction :: direction
  pi_Protected :: bool
  pi_ChainID :: u64
  pi_Latency :: duration
  pi_GossipBlocks :: bool

record ('p, 'n) network_view =
  nv_PubKey :: "'p \<Rightarrow> pubkey option"
  nv_Get :: "'p \<Rightarrow> string \<Rightarrow> 'n pvalue \<times> error option"
  nv_P2pAddrs :: "'p \<Rightarrow> error + string list"       \<comment> \<open>\<open>AddrInfoToP2pAddrs\<close> of the stored addresses\<close>
  nv_Connectedness :: "'p \<Rightarrow> connectedness"
  nv_GetProtocols :: "'p \<Rightarrow> string list \<times> error option"
  nv_Conns :: "'p \<Rightarrow> direction list"
  nv_Latency :: "'p \<Rightarrow> duration"
  nv_IsProtected :: "('p \<Rightarrow> bool) option"            \<comment> \<open>of the connection manager, when there is one\<close>
  nv_ConnectedPeers :: "'p list"
  nv_KnownPeers :: "'p list"
  nv_TopicPeers :: "'p list"
  nv_Blocked :: "('p list \<times> ip list \<times> (ip \<times> bytes) list) option"   \<comment> \<open>of the connection gater\<close>
  nv_Table :: "'n list option"
  nv_Self :: 'p
  nv_LocalENR :: "string option"
  nv_NodeString :: "'n \<Rightarrow> string"
  nv_PeerString :: "'p \<Rightarrow> string"
  nv_Keccak256 :: "bytes \<Rightarrow> bytes"
  nv_PubkeyToIDV4 :: "bytes \<Rightarrow> bytes"

definition PeerInfo_new :: "'p \<Rightarrow> 'p PeerInfo" where
  "PeerInfo_new p = \<lparr>pi_PeerID = p, pi_NodeID = replicate 32 0, pi_UserAgent = [], pi_ProtocolVersion = [], pi_ENR = [], pi_Addresses = [], pi_Protocols = [],
     pi_Connectedness = NotConnected, pi_Direction = DirUnknown, pi_Protected = False, pi_ChainID = 0, pi_Latency = 0, pi_GossipBlocks = False\<rparr>"

text \<open>The values are read in the branch \<open>err != nil\<close>.\<close>

definition get_string :: "('p, 'n) network_view \<Rightarrow> 'p \<Rightarrow> string \<Rightarrow> string" where
  "get_string N p key = (case nv_Get N p key of (PString s, Some err) \<Rightarrow> s | _ \<Rightarrow> [])"

definition get_ENR :: "('p, 'n) network_view \<Rightarrow> 'p \<Rightarrow> string" where
  "get_ENR N p = (case nv_Get N p ''ENR'' of (PNode n, Some err) \<Rightarrow> nv_NodeString N n | _ \<Rightarrow> [])"

definition get_chainID :: "('p, 'n) network_view \<Rightarrow> 'p \<Rightarrow> u64" where
  "get_chainID N p = (case nv_Get N p ''optimismChainID'' of (PUint c, Some err) \<Rightarrow> c | _ \<Rightarrow> 0)"

definition get_node_id :: "('p, 'n) network_view \<Rightarrow> 'p \<Rightarrow> bytes res" where
  "get_node_id N p =
     (case nv_PubKey N p of
        None \<Rightarrow> Ok (replicate 32 0)
      | Some (TestKey b) \<Rightarrow> Ok (nv_Keccak256 N b)
      | Some (Secp256k1 b) \<Rightarrow> Ok (nv_PubkeyToIDV4 N b)
      | Some OtherKey \<Rightarrow> Err (ErrMsg ''unexpected pubkey type''))"

definition dumpPeer :: "('p, 'n) network_view \<Rightarrow> 'p \<Rightarrow> 'p PeerInfo res" where
  "dumpPeer N p =
     bind_res (get_node_id N p) (\<lambda>nid.
     Ok ((PeerInfo_new p)\<lparr>pi_NodeID := nid,
         pi_ProtocolVersion := get_string N p ''ProtocolVersion'', pi_UserAgent := get_string N p ''AgentVersion'', pi_ENR := get_ENR N p,
         pi_Addresses := (case nv_P2pAddrs N p of Inl e \<Rightarrow> [] | Inr as \<Rightarrow> as),
         pi_Connectedness := nv_Connectedness N p,
         pi_Protocols := (case nv_GetProtocols N p of (ps, Some err) \<Rightarrow> ps | (ps, None) \<Rightarrow> []),
         pi_Direction := (case nv_Conns N p of [] \<Rightarrow> DirUnknown | d # ds \<Rightarrow> d),
         pi_ChainID := get_chainID N p, pi_Latency := nv_Latency N p,
         pi_Protected := (case nv_IsProtected N of None \<Rightarrow> False | Some f \<Rightarrow> f p)\<rparr>))"

definition API_Self :: "('p, 'n) network_view \<Rightarrow> 'p PeerInfo res" where
  "API_Self N =
     bind_res (dumpPeer N (nv_Self N)) (\<lambda>info.
     let info1 = info\<lparr>pi_GossipBlocks := True, pi_Latency := 0\<rparr> in
     Ok (case nv_LocalENR N of None \<Rightarrow> info1 | Some e \<Rightarrow> info1\<lparr>pi_ENR := e\<rparr>))"

record 'p PeerDump =
  pd_TotalConnected :: u64
  pd_Peers :: "string \<rightharpoonup> 'p PeerInfo"
  pd_BannedPeers :: "'p list"
  pd_BannedIPS :: "ip list"
  pd_BannedSubnets :: "(ip \<times> bytes) list"

fun dump_loop :: "('p, 'n) network_view \<Rightarrow> 'p list \<Rightarrow> 'p PeerDump \<Rightarrow> 'p PeerDump res" where
  "dump_loop N [] dump = Ok dump"
| "dump_loop N (p # ps) dump =
     (case dumpPeer N p of
        Ok info \<Rightarrow> dump_loop N ps (dump\<lparr>pd_Peers := (pd_Peers dump)(nv_PeerString N p \<mapsto> info),
           pd_TotalConnected := (if pi_Connectedness info = Connected then pd_TotalConnected dump + 1 else pd_TotalConnected dump)\<rparr>)
      | Err e \<Rightarrow> dump_loop N ps dump
      | Panic m \<Rightarrow> Panic m
      | Diverge \<Rightarrow> Diverge)"

fun mark_gossip :: "('p, 'n) network_view \<Rightarrow> 'p list \<Rightarrow> (string \<rightharpoonup> 'p PeerInfo) \<Rightarrow> (string \<rightharpoonup> 'p PeerInfo)" where
  "mark_gossip N [] m = m"
| "mark_gossip N (p # ps) m =
     mark_gossip N ps (case m (nv_PeerString N p) of None \<Rightarrow> m | Some info \<Rightarrow> m(nv_PeerString N p \<mapsto> info\<lparr>pi_GossipBlocks := True\<rparr>))"

definition API_Peers :: "('p, 'n) network_view \<Rightarrow> bool \<Rightarrow> 'p PeerDump res" where
  "API_Peers N onlyConnected =
     (let peers = (if onlyConnected then nv_ConnectedPeers N else nv_KnownPeers N) in
      bind_res (dump_loop N peers \<lparr>pd_TotalConnected = 0, pd_Peers = Map.empty, pd_BannedPeers = [], pd_BannedIPS = [], pd_BannedSubnets = []\<rparr>) (\<lambda>dump.
      let dump1 = dump\<lparr>pd_Peers := mark_gossip N (nv_TopicPeers N) (pd_Peers dump)\<rparr> in
      Ok (case nv_Blocked N of None \<Rightarrow> dump1
          | Some (bp, bi, bs) \<Rightarrow> dump1\<lparr>pd_BannedPeers := bp, pd_BannedSubnets := bs, pd_BannedIPS := bi\<rparr>)))"

record PeerStats =
  pst_Connected :: u64
  pst_Table :: u64
  pst_BlocksTopic :: u64
  pst_Banned :: u64
  pst_Known :: u64

definition API_PeerStats :: "('p, 'n) network_view \<Rightarrow> PeerStats" where
  "API_PeerStats N = \<lparr>pst_Connected = of_nat (length (nv_ConnectedPeers N)),
     pst_Table = (case nv_Table N of None \<Rightarrow> 0 | Some ns \<Rightarrow> of_nat (length ns)),
     pst_BlocksTopic = of_nat (length (nv_TopicPeers N)),
     pst_Banned = (case nv_Blocked N of None \<Rightarrow> 0 | Some (bp, bi, bs) \<Rightarrow> of_nat (length bp)),
     pst_Known = of_nat (length (nv_KnownPeers N))\<rparr>"

definition API_DiscoveryTable :: "('p, 'n) network_view \<Rightarrow> 'n list res" where
  "API_DiscoveryTable N = (case nv_Table N of Some ns \<Rightarrow> Ok ns | None \<Rightarrow> Err (ErrMsg ''discovery disabled''))"

text \<open>Peer by peer, the dump holds what \<open>dumpPeer\<close> reports, and counts the connected ones.\<close>

lemma dump_loop_map:
  assumes "dump_loop N ps d = Ok d'" and "distinct ps" and "inj_on (nv_PeerString N) (set ps)"
    and "\<forall>p \<in> set ps. nv_PeerString N p \<notin> dom (pd_Peers d)"
  shows "pd_TotalConnected d' = pd_TotalConnected d + of_nat (length (filter (\<lambda>p. \<exists>info. dumpPeer N p = Ok info \<and> pi_Connectedness info = Connected) ps)) \<and>
    (\<forall>p \<in> set ps. pd_Peers d' (nv_PeerString N p) = (case dumpPeer N p of Ok info \<Rightarrow> Some info | _ \<Rightarrow> None)) \<and>
    (\<forall>k. k \<notin> nv_PeerString N ` set ps \<longrightarrow> pd_Peers d' k = pd_Peers d k)"
  using assms
proof (induction ps arbitrary: d)
  case (Cons p ps)
  have sep: "\<forall>q \<in> set ps. nv_PeerString N q \<noteq> nv_PeerString N p" using Cons.prems(2,3) by (auto simp: inj_on_def)
  have ps: "distinct ps" "inj_on (nv_PeerString N) (set ps)" using Cons.prems(2,3) by (auto simp: inj_on_def)
  have notin: "nv_PeerString N p \<notin> nv_PeerString N ` set ps" using sep by auto
  show ?case
  proof (cases "dumpPeer N p")
    case (Ok info)
    let ?d = "d\<lparr>pd_Peers := (pd_Peers d)(nv_PeerString N p \<mapsto> info), pd_TotalConnected := (if pi_Connectedness info = Connected then pd_TotalConnected d + 1 else pd_TotalConnected d)\<rparr>"
    have run: "dump_loop N ps ?d = Ok d'" using Cons.prems(1) Ok by simp
    have fresh: "\<forall>q \<in> set ps. nv_PeerString N q \<notin> dom (pd_Peers ?d)" using Cons.prems(4) sep by auto
    note ih = Cons.IH [OF run ps fresh]
    then have "pd_Peers d' (nv_PeerString N p) = Some info" using notin by auto
    with ih Ok show ?thesis by auto
  next
    case (Err e)
    with Cons.prems(1) have run: "dump_loop N ps d = Ok d'" by simp
    have fresh: "\<forall>q \<in> set ps. nv_PeerString N q \<notin> dom (pd_Peers d)" using Cons.prems(4) by simp
    note ih = Cons.IH [OF run ps fresh]
    then have "pd_Peers d' (nv_PeerString N p) = None" using notin Cons.prems(4) by auto
    with ih Err show ?thesis by auto
  qed (use Cons.prems(1) in simp_all)
qed simp

text \<open>The condition on the error is inverted: on a peerstore that returns either a value or an error, the agent, the protocol version, the node record,
  the chain id and the protocols of a peer are never reported.\<close>

theorem dumpPeer_reports_nothing:
  assumes "\<And>k. snd (nv_Get N p k) = None \<or> fst (nv_Get N p k) = PNil" and "snd (nv_GetProtocols N p) = None \<or> fst (nv_GetProtocols N p) = []"
    and "dumpPeer N p = Ok info"
  shows "pi_UserAgent info = [] \<and> pi_ProtocolVersion info = [] \<and> pi_ENR info = [] \<and> pi_ChainID info = 0 \<and> pi_Protocols info = []"
proof -
  have "get_string N p k = []" for k
    using assms(1) [of k] by (auto simp: get_string_def split: prod.splits pvalue.splits option.splits)
  moreover have "get_ENR N p = []" using assms(1) [of "''ENR''"] by (auto simp: get_ENR_def split: prod.splits pvalue.splits option.splits)
  moreover have "get_chainID N p = 0" using assms(1) [of "''optimismChainID''"] by (auto simp: get_chainID_def split: prod.splits pvalue.splits option.splits)
  moreover have "(case nv_GetProtocols N p of (ps, Some err) \<Rightarrow> ps | (ps, None) \<Rightarrow> []) = []" using assms(2) by (auto split: prod.splits option.splits)
  ultimately show ?thesis using assms(3) by (auto simp: dumpPeer_def res_simps)
qed

section \<open>Blocking, protecting and connecting peers\<close>

type_synonym ipnet = "ip \<times> bytes"

record ('p, 'w) ConnectionGater =
  cg_BlockPeer :: "'p \<Rightarrow> ('w, unit) rpc"
  cg_UnblockPeer :: "'p \<Rightarrow> ('w, unit) rpc"
  cg_ListBlockedPeers :: "'w \<Rightarrow> 'p list"
  cg_BlockAddr :: "ip \<Rightarrow> ('w, unit) rpc"
  cg_UnblockAddr :: "ip \<Rightarrow> ('w, unit) rpc"
  cg_ListBlockedAddrs :: "'w \<Rightarrow> ip list"
  cg_BlockSubnet :: "ipnet \<Rightarrow> ('w, unit) rpc"
  cg_UnblockSubnet :: "ipnet \<Rightarrow> ('w, unit) rpc"
  cg_ListBlockedSubnets :: "'w \<Rightarrow> ipnet list"

record ('p, 'w) admin_node =
  ad_gater :: "('p, 'w) ConnectionGater option"
  ad_Protect :: "('p \<Rightarrow> string \<Rightarrow> 'w \<Rightarrow> 'w) option"        \<comment> \<open>of the connection manager, when there is one\<close>
  ad_Unprotect :: "('p \<Rightarrow> string \<Rightarrow> 'w \<Rightarrow> 'w) option"
  ad_AddrInfoFromString :: "string \<Rightarrow> error + 'p"
  ad_Connect :: "'p \<Rightarrow> ('w, unit) rpc"
  ad_ClosePeer :: "'p \<Rightarrow> ('w, unit) rpc"

definition with_gater :: "('p, 'w) admin_node \<Rightarrow> (('p, 'w) ConnectionGater \<Rightarrow> ('w, 'a) rpc) \<Rightarrow> ('w, 'a) rpc" where
  "with_gater n f = (case ad_gater n of None \<Rightarrow> lift_res (Err (ErrMsg ''no connection gater'')) | Some g \<Rightarrow> f g)"

definition API_BlockPeer :: "('p, 'w) admin_node \<Rightarrow> 'p \<Rightarrow> ('w, unit) rpc" where
  "API_BlockPeer n p = with_gater n (\<lambda>g. cg_BlockPeer g p)"

definition API_UnblockPeer :: "('p, 'w) admin_node \<Rightarrow> 'p \<Rightarrow> ('w, unit) rpc" where
  "API_UnblockPeer n p = with_gater n (\<lambda>g. cg_UnblockPeer g p)"

definition API_ListBlockedPeers :: "('p, 'w) admin_node \<Rightarrow> ('w, 'p list) rpc" where
  "API_ListBlockedPeers n = with_gater n (\<lambda>g w. (Ok (cg_ListBlockedPeers g w), w))"

definition API_BlockAddr :: "('p, 'w) admin_node \<Rightarrow> ip \<Rightarrow> ('w, unit) rpc" where
  "API_BlockAddr n a = with_gater n (\<lambda>g. cg_BlockAddr g a)"

definition API_UnblockAddr :: "('p, 'w) admin_node \<Rightarrow> ip \<Rightarrow> ('w, unit) rpc" where
  "API_UnblockAddr n a = with_gater n (\<lambda>g. cg_UnblockAddr g a)"

definition API_ListBlockedAddrs :: "('p, 'w) admin_node \<Rightarrow> ('w, ip list) rpc" where
  "API_ListBlockedAddrs n = with_gater n (\<lambda>g w. (Ok (cg_ListBlockedAddrs g w), w))"

definition API_BlockSubnet :: "('p, 'w) admin_node \<Rightarrow> ipnet \<Rightarrow> ('w, unit) rpc" where
  "API_BlockSubnet n a = with_gater n (\<lambda>g. cg_BlockSubnet g a)"

definition API_UnblockSubnet :: "('p, 'w) admin_node \<Rightarrow> ipnet \<Rightarrow> ('w, unit) rpc" where
  "API_UnblockSubnet n a = with_gater n (\<lambda>g. cg_UnblockSubnet g a)"

definition API_ListBlockedSubnets :: "('p, 'w) admin_node \<Rightarrow> ('w, ipnet list) rpc" where
  "API_ListBlockedSubnets n = with_gater n (\<lambda>g w. (Ok (cg_ListBlockedSubnets g w), w))"

definition API_ProtectPeer :: "('p, 'w) admin_node \<Rightarrow> 'p \<Rightarrow> ('w, unit) rpc" where
  "API_ProtectPeer n p w = (case ad_Protect n of None \<Rightarrow> (Err (ErrMsg ''no connection manager''), w) | Some f \<Rightarrow> (Ok (), f p ''api-protected'' w))"

definition API_UnprotectPeer :: "('p, 'w) admin_node \<Rightarrow> 'p \<Rightarrow> ('w, unit) rpc" where
  "API_UnprotectPeer n p w = (case ad_Unprotect n of None \<Rightarrow> (Err (ErrMsg ''no connection manager''), w) | Some f \<Rightarrow> (Ok (), f p ''api-protected'' w))"

definition API_ConnectPeer :: "('p, 'w) admin_node \<Rightarrow> string \<Rightarrow> ('w, unit) rpc" where
  "API_ConnectPeer n addr =
     (case ad_AddrInfoFromString n addr of
        Inl e \<Rightarrow> lift_res (Err (ErrMsg ''bad peer address''))
      | Inr p \<Rightarrow> ad_Connect n p)"

definition API_DisconnectPeer :: "('p, 'w) admin_node \<Rightarrow> 'p \<Rightarrow> ('w, unit) rpc" where
  "API_DisconnectPeer n p = ad_ClosePeer n p"

section \<open>Client stubs (rpc_client.go) and dispatch\<close>

datatype 'p api_call =
    CSelf | CPeers bool | CPeerStats | CDiscoveryTable
  | CBlockPeer 'p | CUnblockPeer 'p | CListBlockedPeers
  | CBlockAddr ip | CUnblockAddr ip | CListBlockedAddrs
  | CBlockSubnet ipnet | CUnblockSubnet ipnet | CListBlockedSubnets
  | CProtectPeer 'p | CUnprotectPeer 'p | CConnectPeer string | CDisconnectPeer 'p

datatype 'p api_arg = ABool bool | APeer 'p | AIP ip | ANet ipnet | AStr string

definition NamespaceRPC :: string where
  "NamespaceRPC = ''opp2p''"

definition prefixRPC :: "string \<Rightarrow> string" where
  "prefixRPC m = NamespaceRPC @ ''_'' @ m"

fun client_call :: "'p api_call \<Rightarrow> string \<times> 'p api_arg list" where
  "client_call CSelf = (prefixRPC ''self'', [])"
| "client_call (CPeers c) = (prefixRPC ''peers'', [ABool c])"
| "client_call CPeerStats = (prefixRPC ''peerStats'', [])"
| "client_call CDiscoveryTable = (prefixRPC ''discoveryTable'', [])"
| "client_call (CBlockPeer p) = (prefixRPC ''blockPeer'', [APeer p])"
| "client_call (CUnblockPeer p) = (prefixRPC ''unblockPeer'', [APeer p])"
| "client_call CListBlockedPeers = (prefixRPC ''listBlockedPeers'', [])"
| "client_call (CBlockAddr a) = (prefixRPC ''blockAddr'', [AIP a])"
| "client_call (CUnblockAddr a) = (prefixRPC ''unblockAddr'', [AIP a])"
| "client_call CListBlockedAddrs = (prefixRPC ''listBlockedAddrs'', [])"
| "client_call (CBlockSubnet s) = (prefixRPC ''blockSubnet'', [ANet s])"
| "client_call (CUnblockSubnet s) = (prefixRPC ''unblockSubnet'', [ANet s])"
| "client_call CListBlockedSubnets = (prefixRPC ''listBlockedSubnets'', [])"
| "client_call (CProtectPeer p) = (prefixRPC ''protectPeer'', [APeer p])"
| "client_call (CUnprotectPeer p) = (prefixRPC ''unprotectPeer'', [APeer p])"
| "client_call (CConnectPeer s) = (prefixRPC ''connectPeer'', [AStr s])"
| "client_call (CDisconnectPeer p) = (prefixRPC ''disconnectPeer'', [APeer p])"

text \<open>The methods of the interface \<open>API\<close> with the types of their arguments. The RPC server registers each Go method under its name with a lower-case
  first letter, and takes a call apart at the first underscore.\<close>

fun no_args :: "'p api_call \<Rightarrow> 'p api_arg list \<Rightarrow> 'p api_call option" where
  "no_args c [] = Some c" | "no_args c (a # as) = None"

fun bool_arg :: "(bool \<Rightarrow> 'p api_call) \<Rightarrow> 'p api_arg list \<Rightarrow> 'p api_call option" where
  "bool_arg f [ABool b] = Some (f b)" | "bool_arg f as = None"

fun peer_arg :: "('p \<Rightarrow> 'p api_call) \<Rightarrow> 'p api_arg list \<Rightarrow> 'p api_call option" where
  "peer_arg f [APeer p] = Some (f p)" | "peer_arg f as = None"

fun ip_arg :: "(ip \<Rightarrow> 'p api_call) \<Rightarrow> 'p api_arg list \<Rightarrow> 'p api_call option" where
  "ip_arg f [AIP a] = Some (f a)" | "ip_arg f as = None"

fun net_arg :: "(ipnet \<Rightarrow> 'p api_call) \<Rightarrow> 'p api_arg list \<Rightarrow> 'p api_call option" where
  "net_arg f [ANet s] = Some (f s)" | "net_arg f as = None"

fun str_arg :: "(string \<Rightarrow> 'p api_call) \<Rightarrow> 'p api_arg list \<Rightarrow> 'p api_call option" where
  "str_arg f [AStr s] = Some (f s)" | "str_arg f as = None"

definition API_methods :: "(string \<times> ('p api_arg list \<Rightarrow> 'p api_call option)) list" where
  "API_methods = [(''Self'', no_args CSelf), (''Peers'', bool_arg CPeers), (''PeerStats'', no_args CPeerStats), (''DiscoveryTable'', no_args CDiscoveryTable),
     (''BlockPeer'', peer_arg CBlockPeer), (''UnblockPeer'', peer_arg CUnblockPeer), (''ListBlockedPeers'', no_args CListBlockedPeers),
     (''BlockAddr'', ip_arg CBlockAddr), (''UnblockAddr'', ip_arg CUnblockAddr), (''ListBlockedAddrs'', no_args CListBlockedAddrs),
     (''BlockSubnet'', net_arg CBlockSubnet), (''UnblockSubnet'', net_arg CUnblockSubnet), (''ListBlockedSubnets'', no_args CListBlockedSubnets),
     (''ProtectPeer'', peer_arg CProtectPeer), (''UnprotectPeer'', peer_arg CUnprotectPeer), (''ConnectPeer'', str_arg CConnectPeer),
     (''DisconnectPeer'', peer_arg CDisconnectPeer)]"

text \<open>How go-ethereum's RPC package names methods and takes requests apart is a parameter. Its documentation says that a method is registered under its Go name with a lower-case
  first letter and is called as \<open><namespace>_<method>\<close>.\<close>

record rpc_lib =
  formatName :: "string \<Rightarrow> string"
  splitMethod :: "string \<Rightarrow> string \<times> string"

definition rpc_naming :: "rpc_lib \<Rightarrow> bool" where
  "rpc_naming L \<longleftrightarrow> (\<forall>c cs. formatName L (c # cs) = ToLower [c] @ cs) \<and>
     (\<forall>ns m. CHR ''_'' \<notin> set ns \<longrightarrow> splitMethod L (ns @ ''_'' @ m) = (ns, m))"

text \<open>The server keeps its methods by namespace and name; a request is served by the method registered under its name.\<close>

definition lookup_method :: "rpc_lib \<Rightarrow> string \<Rightarrow> (string \<times> 'f) list \<Rightarrow> string \<Rightarrow> 'f option" where
  "lookup_method L namespace methods req =
     (case splitMethod L req of (service, m) \<Rightarrow>
        if service = namespace then map_of (map (\<lambda>(name, f). (formatName L name, f)) methods) m else None)"

lemma lookup_registered:
  "rpc_naming L \<Longrightarrow> CHR ''_'' \<notin> set ns \<Longrightarrow>
    lookup_method L ns methods (ns @ ''_'' @ m) = map_of (map (\<lambda>(name, f). (formatName L name, f)) methods) m"
  by (simp add: rpc_naming_def lookup_method_def)

text \<open>\<open>EnableP2P\<close> registers the methods of the backend under the namespace of the client.\<close>

definition dispatch :: "rpc_lib \<Rightarrow> string \<times> 'p api_arg list \<Rightarrow> 'p api_call option" where
  "dispatch L req = (case lookup_method L NamespaceRPC API_methods (fst req) of None \<Rightarrow> None | Some f \<Rightarrow> f (snd req))"

lemma lookup_prefix:
  "rpc_naming L \<Longrightarrow> lookup_method L NamespaceRPC methods (prefixRPC m) = map_of (map (\<lambda>(name, f). (formatName L name, f)) methods) m"
  unfolding prefixRPC_def by (rule lookup_registered) (simp_all add: NamespaceRPC_def)

lemma lower_letters: "ToLower ''S'' = ''s''" "ToLower ''P'' = ''p''" "ToLower ''D'' = ''d''" "ToLower ''B'' = ''b''" "ToLower ''U'' = ''u''" "ToLower ''L'' = ''l''"
  "ToLower ''C'' = ''c''" "ToLower ''O'' = ''o''" "ToLower ''V'' = ''v''" "ToLower ''G'' = ''g''"
proof -
  have "map (\<lambda>c. ToLower [c]) ''SPDBULCOVG'' = map (\<lambda>c. [c]) ''spdbulcovg''" by code_simp
  then show "ToLower ''S'' = ''s''" "ToLower ''P'' = ''p''" "ToLower ''D'' = ''d''" "ToLower ''B'' = ''b''" "ToLower ''U'' = ''u''" "ToLower ''L'' = ''l''"
    "ToLower ''C'' = ''c''" "ToLower ''O'' = ''o''" "ToLower ''V'' = ''v''" "ToLower ''G'' = ''g''" by simp_all
qed

lemma method_names:
  assumes "rpc_naming L"
  shows "map (\<lambda>(name, f). (formatName L name, f)) API_methods = (zip [''self'', ''peers'', ''peerStats'', ''discoveryTable'', ''blockPeer'', ''unblockPeer'', ''listBlockedPeers'',
     ''blockAddr'', ''unblockAddr'', ''listBlockedAddrs'', ''blockSubnet'', ''unblockSubnet'', ''listBlockedSubnets'', ''protectPeer'', ''unprotectPeer'', ''connectPeer'',
     ''disconnectPeer''] (map snd API_methods))"
proof -
  have "formatName L (c # cs) = ToLower [c] @ cs" for c cs using assms by (simp add: rpc_naming_def)
  then show ?thesis by (simp add: API_methods_def lower_letters)
qed

text \<open>Every stub of the client reaches the method of the server that it stands for, with its arguments, given the naming rules of the RPC package.\<close>

theorem client_reaches_server: "rpc_naming L \<Longrightarrow> dispatch L (client_call c) = Some c"
  by (cases c) (simp_all add: dispatch_def lookup_prefix method_names, simp_all add: API_methods_def)

fun demo_formatName :: "string \<Rightarrow> string" where
  "demo_formatName [] = []" | "demo_formatName (c # cs) = ToLower [c] @ cs"

fun demo_splitMethod :: "string \<Rightarrow> string \<times> string" where
  "demo_splitMethod [] = ([], [])"
| "demo_splitMethod (c # cs) = (if c = CHR ''_'' then ([], cs) else (case demo_splitMethod cs of (a, b) \<Rightarrow> (c # a, b)))"

lemma demo_splitMethod_append: "CHR ''_'' \<notin> set ns \<Longrightarrow> demo_splitMethod (ns @ CHR ''_'' # m) = (ns, m)"
  by (induction ns) auto

theorem client_reaches_server_witness:
  "dispatch \<lparr>formatName = demo_formatName, splitMethod = demo_splitMethod\<rparr> (''opp2p_blockPeer'', [APeer (3::nat)]) = Some (CBlockPeer 3)"
proof -
  have "rpc_naming \<lparr>formatName = demo_formatName, splitMethod = demo_splitMethod\<rparr>"
    by (simp add: rpc_naming_def demo_splitMethod_append)
  from client_reaches_server [OF this, of "CBlockPeer (3::nat)"] show ?thesis
    by (simp add: prefixRPC_def NamespaceRPC_def)
qed

end
