(* ===== verification/StartUp.thy ===== *)
theory StartUp
  imports Flags P2PAdmin
begin

text \<open>
  The process of the rollup node from its command line to its exit: logging (\<open>op-node/node/log.go\<close>), the configuration from flags
  and files (\<open>op-node/service.go\<close>, the signer of \<open>op-node/p2p/signer.go\<close>) and the main function (\<open>op-node/cmd/main.go\<close>). The log
  package is a set of constructors of handlers; the parsers of levels, of the rollup configuration and of keys are parameters.
\<close>

section \<open>Logging (log.go)\<close>

record LogConfig =
  lg_Level :: string
  lg_Color :: bool
  lg_Format :: string

datatype log_format = JSONFormat | JSONFormatEx bool bool | TerminalFormat bool

datatype 'l log_handler =
  DiscardHandler | StreamHandler log_format | FileHandler string log_format | SyncHandler "'l log_handler" | LvlFilterHandler 'l "'l log_handler"

definition DefaultLogConfig :: "bool \<Rightarrow> LogConfig" where
  "DefaultLogConfig isTerminal = \<lparr>lg_Level = ''info'', lg_Color = isTerminal, lg_Format = ''text''\<rparr>"

definition LogConfig_Check :: "(string \<Rightarrow> error + 'l) \<Rightarrow> LogConfig \<Rightarrow> unit res" where
  "LogConfig_Check LvlFromString cfg =
     (if lg_Format cfg \<notin> {''json'', ''json-pretty'', ''terminal'', ''text''} then Err (ErrMsg ''unrecognized log format'')
      else (case LvlFromString (ToLower (lg_Level cfg)) of Inl e \<Rightarrow> Err (Wrap ''unrecognized log level'' e) | Inr l \<Rightarrow> Ok ()))"

definition log_format_of :: "string \<Rightarrow> bool \<Rightarrow> log_format res" where
  "log_format_of lf color =
     (if lf = ''json'' then Ok JSONFormat
      else if lf = ''json-pretty'' then Ok (JSONFormatEx True True)
      else if lf = ''text'' \<or> lf = ''terminal'' then Ok (TerminalFormat color)
      else Panic ''Failed to create log.Format from options'')"

definition log_level :: "(string \<Rightarrow> error + 'l) \<Rightarrow> string \<Rightarrow> 'l res" where
  "log_level LvlFromString s = (case LvlFromString (ToLower s) of Inl e \<Rightarrow> Panic ''Could not parse log level'' | Inr l \<Rightarrow> Ok l)"

text \<open>The handler of the new logger. The filtering handler is made and dropped.\<close>

definition NewLogger :: "(string \<Rightarrow> error + 'l) \<Rightarrow> LogConfig \<Rightarrow> 'l log_handler res" where
  "NewLogger LvlFromString cfg =
     bind_res (log_format_of (lg_Format cfg) (lg_Color cfg)) (\<lambda>f.
     let handler = SyncHandler (StreamHandler f) in
     bind_res (log_level LvlFromString (lg_Level cfg)) (\<lambda>l.
     let unused = LvlFilterHandler l handler in
     Ok handler))"

text \<open>A logger is built exactly from the configurations that pass the check; the others panic.\<close>

theorem NewLogger_checked:
  "LogConfig_Check LV cfg = Ok () \<longleftrightarrow> is_ok (NewLogger LV cfg)"
  "LogConfig_Check LV cfg \<noteq> Ok () \<longleftrightarrow> (\<exists>m. NewLogger LV cfg = Panic m)"
  by (auto simp: LogConfig_Check_def NewLogger_def log_format_of_def log_level_def split: sum.splits)

text \<open>The level has no effect on the logger.\<close>

theorem log_level_ignored:
  assumes "LogConfig_Check LV cfg = Ok ()" and "LogConfig_Check LV (cfg\<lparr>lg_Level := l\<rparr>) = Ok ()"
  shows "NewLogger LV (cfg\<lparr>lg_Level := l\<rparr>) = NewLogger LV cfg"
  using assms by (auto simp: LogConfig_Check_def NewLogger_def log_format_of_def log_level_def split: sum.splits if_splits)

section \<open>Configuration (service.go, signer.go)\<close>

record ('k, 'l, 'r) start_lib =
  json_DecodeConfig :: "string \<Rightarrow> error + Config"
  crypto_LoadECDSA :: "string \<Rightarrow> 'r p2p_world \<Rightarrow> error + 'k"
  log_LvlFromString :: "string \<Rightarrow> error + 'l"
  log_FileHandler_err :: "string \<Rightarrow> error option"        \<comment> \<open>opening the file of a handler\<close>
  stdout_IsTerminal :: bool

definition NewRollupConfig :: "('k, 'l, 'r) start_lib \<Rightarrow> cli_ctx \<Rightarrow> ('r p2p_world, Config) rpc" where
  "NewRollupConfig S ctx w =
     (let rollupConfigPath = GlobalString ctx (fl_Name RollupConfig) in
      case (pw_open_err w rollupConfigPath, pw_files w rollupConfigPath) of
        (None, Some text) \<Rightarrow> (map_err (\<lambda>e. ErrMsg ''failed to decode rollup config'') (of_sum (json_DecodeConfig S text)), w)
      | _ \<Rightarrow> (Err (ErrMsg ''failed to read rollup config''), w))"

text \<open>The key of a \<open>LocalSigner\<close>, if a key file is given.\<close>

definition LoadSignerSetup :: "('k, 'l, 'r) start_lib \<Rightarrow> cli_ctx \<Rightarrow> ('r p2p_world, 'k option) rpc" where
  "LoadSignerSetup S ctx w =
     (let keyFile = GlobalString ctx (fl_Name SequencerP2PKeyFlag) in
      if keyFile \<noteq> []
      then (case crypto_LoadECDSA S keyFile w of
              Inl e \<Rightarrow> (Err (ErrMsg ''failed to read batch submitter key''), w)
            | Inr priv \<Rightarrow> (Ok (Some priv), w))
      else (Ok None, w))"

text \<open>\<open>setup\<close> is the p2p configuration seen as \<open>SetupP2P\<close>, \<open>signer\<close> the handle of the local signer of a key, which a \<open>PreparedSigner\<close> returns.\<close>

definition opnode_NewConfig ::
  "('k, 'l, 'r) start_lib \<Rightarrow> ('k, 'n, 'a, 'h, 'r) config_lib \<Rightarrow> (('k, 'n, 'a, 'h) P2PConfig \<Rightarrow> Config \<Rightarrow> 'w SetupP2P) \<Rightarrow> ('k \<Rightarrow> nat) \<Rightarrow> cli_ctx \<Rightarrow>
   ('r p2p_world, 'w NodeConfig) rpc" where
  "opnode_NewConfig S L setup signer ctx =
     rbind (NewRollupConfig S ctx) (\<lambda>rollupConfig.
     let enableSequencing = GlobalBool ctx (fl_Name SequencingEnabledFlag) in
     rbind (rmap_err (\<lambda>e. ErrMsg ''failed to load p2p signer'') (LoadSignerSetup S ctx)) (\<lambda>p2pSignerSetup.
     rbind (rmap_err (\<lambda>e. ErrMsg ''failed to load p2p config'') (NewConfig L (p2p_flags_of ctx))) (\<lambda>p2pConfig.
     let cfg = \<lparr>nc_L1NodeAddr = GlobalString ctx (fl_Name L1NodeAddr), nc_L2EngineAddrs = GlobalStringSlice ctx (fl_Name L2EngineAddrs),
                nc_L2NodeAddr = GlobalString ctx (fl_Name L2EthNodeAddr), nc_L1TrustRPC = GlobalBool ctx (fl_Name L1TrustRPC), nc_Rollup = rollupConfig,
                nc_Sequencer = enableSequencing, nc_P2PSigner = map_option (\<lambda>priv. ret (Some (signer priv))) p2pSignerSetup,
                nc_RPC = \<lparr>rc_ListenAddr = GlobalString ctx (fl_Name RPCListenAddr), rc_ListenPort = GlobalInt ctx (fl_Name RPCListenPort)\<rparr>,
                nc_P2P = Some (setup p2pConfig rollupConfig)\<rparr> in
     rbind (lift_res (NodeConfig_Check cfg)) (\<lambda>_. ret cfg))))"

definition NewLogConfig :: "('k, 'l, 'r) start_lib \<Rightarrow> cli_ctx \<Rightarrow> LogConfig res" where
  "NewLogConfig S ctx =
     (let cfg = (DefaultLogConfig (stdout_IsTerminal S))\<lparr>lg_Level := GlobalString ctx (fl_Name LogLevelFlag), lg_Format := GlobalString ctx (fl_Name LogFormatFlag)\<rparr>;
          cfg' = (if IsSet ctx (fl_Name LogColorFlag) then cfg\<lparr>lg_Color := GlobalBool ctx (fl_Name LogColorFlag)\<rparr> else cfg) in
      bind_res (LogConfig_Check (log_LvlFromString S) cfg') (\<lambda>_. Ok cfg'))"

definition NewSnapshotLogger :: "('k, 'l, 'r) start_lib \<Rightarrow> cli_ctx \<Rightarrow> 'l log_handler res" where
  "NewSnapshotLogger S ctx =
     (let snapshotFile = GlobalString ctx (fl_Name SnapshotLog) in
      if snapshotFile \<noteq> []
      then (case log_FileHandler_err S snapshotFile of Some e \<Rightarrow> Err e | None \<Rightarrow> Ok (SyncHandler (FileHandler snapshotFile JSONFormat)))
      else Ok (SyncHandler DiscardHandler))"

text \<open>What the node takes from the command line depends on the registered flags only.\<close>

lemma opnode_config_determined:
  assumes "list_all (\<lambda>f. agree_on f ctx ctx') Flags"
  shows "opnode_NewConfig S L setup signer ctx = opnode_NewConfig S L setup signer ctx'" "NewLogConfig S ctx = NewLogConfig S ctx'"
    "NewSnapshotLogger S ctx = NewSnapshotLogger S ctx'"
proof -
  note p2p = p2p_flags_determined [OF assms]
  have eqs: "GlobalString ctx (fl_Name L1NodeAddr) = GlobalString ctx' (fl_Name L1NodeAddr)"
    "GlobalString ctx (fl_Name RollupConfig) = GlobalString ctx' (fl_Name RollupConfig)"
    "GlobalString ctx (fl_Name L2EthNodeAddr) = GlobalString ctx' (fl_Name L2EthNodeAddr)"
    "GlobalString ctx (fl_Name RPCListenAddr) = GlobalString ctx' (fl_Name RPCListenAddr)"
    "GlobalString ctx (fl_Name LogLevelFlag) = GlobalString ctx' (fl_Name LogLevelFlag)"
    "GlobalString ctx (fl_Name LogFormatFlag) = GlobalString ctx' (fl_Name LogFormatFlag)"
    "GlobalString ctx (fl_Name SnapshotLog) = GlobalString ctx' (fl_Name SnapshotLog)"
    "GlobalString ctx (fl_Name SequencerP2PKeyFlag) = GlobalString ctx' (fl_Name SequencerP2PKeyFlag)"
    "GlobalStringSlice ctx (fl_Name L2EngineAddrs) = GlobalStringSlice ctx' (fl_Name L2EngineAddrs)"
    "GlobalInt ctx (fl_Name RPCListenPort) = GlobalInt ctx' (fl_Name RPCListenPort)"
    "GlobalBool ctx (fl_Name L1TrustRPC) = GlobalBool ctx' (fl_Name L1TrustRPC)"
    "GlobalBool ctx (fl_Name SequencingEnabledFlag) = GlobalBool ctx' (fl_Name SequencingEnabledFlag)"
    "GlobalBool ctx (fl_Name LogColorFlag) = GlobalBool ctx' (fl_Name LogColorFlag)"
    "IsSet ctx (fl_Name LogColorFlag) = IsSet ctx' (fl_Name LogColorFlag)"
    using assms by (simp_all add: Flags_def requiredFlags_def optionalFlags_def p2pFlags_def agree_on_def node_flag_defs)
  have "NewRollupConfig S ctx = NewRollupConfig S ctx'" "LoadSignerSetup S ctx = LoadSignerSetup S ctx'"
    by (simp_all add: fun_eq_iff NewRollupConfig_def LoadSignerSetup_def eqs)
  then show "opnode_NewConfig S L setup signer ctx = opnode_NewConfig S L setup signer ctx'"
    by (simp add: opnode_NewConfig_def p2p eqs)
  show "NewLogConfig S ctx = NewLogConfig S ctx'" "NewSnapshotLogger S ctx = NewSnapshotLogger S ctx'"
    by (simp_all add: NewLogConfig_def NewSnapshotLogger_def eqs cong: if_cong)
qed

section \<open>The main function (cmd/main.go)\<close>

text \<open>The version, from the build's commit and date. A commit shorter than eight characters panics.\<close>

definition VersionWithMeta :: "string \<Rightarrow> string \<Rightarrow> string \<Rightarrow> string \<Rightarrow> string res" where
  "VersionWithMeta version commit date meta =
     bind_res (if commit \<noteq> [] then bind_res (slice commit 0 8) (\<lambda>c. Ok (version @ ''-'' @ c)) else Ok version) (\<lambda>v1.
     let v2 = (if date \<noteq> [] then v1 @ ''-'' @ date else v1) in
     Ok (if meta \<noteq> [] then v2 @ ''-'' @ meta else v2))"

record ('r, 'w) main_state =
  ms_files :: "'r p2p_world"
  ms_proc :: "'w proc"

definition on_files :: "('r p2p_world, 'a) rpc \<Rightarrow> (('r, 'w) main_state, 'a) rpc" where
  "on_files m s = (case m (ms_files s) of (r, f) \<Rightarrow> (r, s\<lparr>ms_files := f\<rparr>))"

definition on_proc :: "('w proc, 'a) rpc \<Rightarrow> (('r, 'w) main_state, 'a) rpc" where
  "on_proc m s = (case m (ms_proc s) of (r, p) \<Rightarrow> (r, s\<lparr>ms_proc := p\<rparr>))"

definition start_drivers :: "(nat \<Rightarrow> 'w conns \<times> driver_state) \<Rightarrow> ('w proc, unit) rpc" where
  "start_drivers eng p =
     (case OpNode_Start (map eng (on_l2Engines (px_node p))) (px_world p) of (r, ss, w) \<Rightarrow> (r, p\<lparr>px_world := w\<rparr>))"

text \<open>After the drivers were started the function waits for a signal; the deferred \<open>Close\<close> runs when it returns, and its errors are dropped. If
  the drivers do not start, it returns before \<open>Close\<close> is deferred.\<close>

definition RollupNodeMain ::
  "('k, 'l, 'r) start_lib \<Rightarrow> ('k, 'n, 'a, 'h, 'r) config_lib \<Rightarrow> (('k, 'n, 'a, 'h) P2PConfig \<Rightarrow> Config \<Rightarrow> 'w SetupP2P) \<Rightarrow> ('k \<Rightarrow> nat) \<Rightarrow> 'w node_env \<Rightarrow>
   (nat \<Rightarrow> 'w conns \<times> driver_state) \<Rightarrow> cli_ctx \<Rightarrow> (('r, 'w) main_state, unit) rpc" where
  "RollupNodeMain S L setup signer E eng ctx =
     rbind (on_files (opnode_NewConfig S L setup signer ctx)) (\<lambda>cfg.
     rbind (lift_res (NewLogConfig S ctx)) (\<lambda>logCfg.
     rbind (lift_res (NewSnapshotLogger S ctx)) (\<lambda>snapshotLog.
     rbind (lift_res (NewLogger (log_LvlFromString S) logCfg)) (\<lambda>logger.
     rbind (on_proc (New E cfg)) (\<lambda>_.
     rbind (on_proc (start_drivers eng)) (\<lambda>_.
     rbind (on_proc (OpNode_Close E)) (\<lambda>errs. ret ())))))))"

lemma on_files_Ok_iff [simp]: "on_files m s = (Ok x, s') \<longleftrightarrow> (\<exists>f. m (ms_files s) = (Ok x, f) \<and> s' = s\<lparr>ms_files := f\<rparr>)"
  by (auto simp: on_files_def split: prod.splits)

lemma on_proc_Ok_iff [simp]: "on_proc m s = (Ok x, s') \<longleftrightarrow> (\<exists>p. m (ms_proc s) = (Ok x, p) \<and> s' = s\<lparr>ms_proc := p\<rparr>)"
  by (auto simp: on_proc_def split: prod.splits)

lemma start_drivers_keeps: "start_drivers eng p = (r, p') \<Longrightarrow> px_node p' = px_node p \<and> px_open p' = px_open p"
  by (auto simp: start_drivers_def split: prod.splits)

lemma New_Ok_balanced:
  assumes "New E cfg p = (Ok (), p')"
  shows "NodeConfig_Check cfg = Ok () \<and> (\<exists>c. balanced (px_open p + client_res c) p')"
proof -
  let ?p = "p\<lparr>px_node := OpNode_zero\<rparr>"
  from assms have check: "NodeConfig_Check cfg = Ok ()" and run: "OpNode_init E cfg ?p = (Ok (), p')"
    by (auto simp: New_def res_simps)
  then have "SourceConfig_Check (DefaultConfig (nc_Rollup cfg) (nc_L1TrustRPC cfg)) = Ok ()"
    by (auto simp: OpNode_init_def initL1_def L1_NewSource_def res_simps)
  from OpNode_init_balanced [OF run _ _ this] check show ?thesis by auto
qed


section \<open>A concrete run\<close>

text \<open>Every flag at its default; the rollup configuration is in the file with the empty name.\<close>

definition demo_start_lib :: "(bytes, unit, nat) start_lib" where
  "demo_start_lib = \<lparr>json_DecodeConfig = (\<lambda>s. Inr demo_config), crypto_LoadECDSA = (\<lambda>f w. Inr []), log_LvlFromString = (\<lambda>s. Inr ()),
     log_FileHandler_err = (\<lambda>f. None), stdout_IsTerminal = True\<rparr>"

definition demo_main :: "(nat, unit) main_state" where
  "demo_main = \<lparr>ms_files = demo_p2p_world\<lparr>pw_files := [[] \<mapsto> ''rollup'']\<rparr>, ms_proc = demo_proc\<rparr>"

lemma demo_reads:
  "GlobalString (demo_ctx Flags) (fl_Name RollupConfig) = []" "GlobalString (demo_ctx Flags) (fl_Name SequencerP2PKeyFlag) = []"
  "GlobalString (demo_ctx Flags) (fl_Name SnapshotLog) = []" "GlobalString (demo_ctx Flags) (fl_Name LogFormatFlag) = ''text''"
  "GlobalStringSlice (demo_ctx Flags) (fl_Name L2EngineAddrs) = []"
proof -
  have "map (\<lambda>f. GlobalString (demo_ctx Flags) (fl_Name f)) [RollupConfig, SequencerP2PKeyFlag, SnapshotLog, LogFormatFlag] = [[], [], [], ''text''] \<and>
    GlobalStringSlice (demo_ctx Flags) (fl_Name L2EngineAddrs) = []" by code_simp
  then show "GlobalString (demo_ctx Flags) (fl_Name RollupConfig) = []" "GlobalString (demo_ctx Flags) (fl_Name SequencerP2PKeyFlag) = []"
    "GlobalString (demo_ctx Flags) (fl_Name SnapshotLog) = []" "GlobalString (demo_ctx Flags) (fl_Name LogFormatFlag) = ''text''"
    "GlobalStringSlice (demo_ctx Flags) (fl_Name L2EngineAddrs) = []" by simp_all
qed

lemma demo_main_runs:
  "\<exists>s. RollupNodeMain demo_start_lib demo_config_lib (\<lambda>conf cfg. demo_setup) length demo_node_env eng (demo_ctx Flags) demo_main = (Ok (), s)"
proof -
  let ?ctx = "demo_ctx Flags" and ?w = "demo_p2p_world\<lparr>pw_files := [[] \<mapsto> ''rollup'']\<rparr>"
  have "is_ok (fst (NewConfig demo_config_lib (p2p_flags_of ?ctx) ?w))" by code_simp
  then obtain conf w1 where p2p: "NewConfig demo_config_lib (p2p_flags_of ?ctx) ?w = (Ok conf, w1)"
    by (cases "NewConfig demo_config_lib (p2p_flags_of ?ctx) ?w", cases "fst (NewConfig demo_config_lib (p2p_flags_of ?ctx) ?w)") auto
  have roll: "NewRollupConfig demo_start_lib ?ctx ?w = (Ok demo_config, ?w)" "LoadSignerSetup demo_start_lib ?ctx ?w = (Ok None, ?w)"
    by (simp_all add: NewRollupConfig_def LoadSignerSetup_def demo_reads demo_start_lib_def demo_p2p_world_def of_sum_def)
  obtain cfg where cfg: "opnode_NewConfig demo_start_lib demo_config_lib (\<lambda>conf cfg. demo_setup) length ?ctx ?w = (Ok cfg, w1)"
    and fields: "nc_Rollup cfg = demo_config" "nc_L2EngineAddrs cfg = []" "nc_P2PSigner cfg = None" "nc_P2P cfg = Some demo_setup"
    by (simp add: opnode_NewConfig_def roll p2p demo_reads Let_def NodeConfig_Check_def Config_Check_def demo_config_def demo_setup_def)
  have logs: "\<exists>h. NewSnapshotLogger demo_start_lib ?ctx = Ok h" "\<exists>lc h. NewLogConfig demo_start_lib ?ctx = Ok lc \<and> NewLogger (log_LvlFromString demo_start_lib) lc = Ok h"
    by (simp_all add: NewSnapshotLogger_def NewLogConfig_def LogConfig_Check_def NewLogger_def log_format_of_def log_level_def demo_reads demo_start_lib_def Let_def)
  obtain p1 where new: "New demo_node_env cfg demo_proc = (Ok (), p1)" and p1: "on_l2Engines (px_node p1) = []" "clients_ok (px_node p1)" "\<not> half_started (px_node p1)"
    by (simp add: New_def NodeConfig_Check_def Config_Check_def OpNode_init_def initL1_def L1_NewSource_def SourceConfig_Check_def DefaultConfig_def
        initP2PSigner_def initP2P_def NewNodeP2P_def NodeP2P_init_def NodeP2P_zero_def initRPCServer_def rpcServer_Start_def Let_def OpNode_zero_def
        demo_dial demo_env_fields fields demo_setup_def demo_config_def action_defs rcatch_def clients_ok_def half_started_def)
  have start: "start_drivers eng p1 = (Ok (), p1)" by (simp add: start_drivers_def p1)
  obtain es p2 where "OpNode_Close demo_node_env p1 = (Ok es, p2)"
    using OpNode_Close_ok [of demo_node_env demo_node_config p1] demo_node_ok p1 by blast
  with cfg logs new start show ?thesis
    by (auto simp: RollupNodeMain_def demo_main_def on_files_def on_proc_def rbind_def)
qed


end
