(* ===== verification/TxManager.thy ===== *)
theory TxManager
  imports Geth
begin

text \<open>
  The transaction manager (\<open>op-proposer/txmgr/send_state.go\<close>, \<open>op-proposer/txmgr/txmgr.go\<close>): it publishes
  one logical transaction at growing gas prices until a version of it is confirmed. \<open>SendState\<close> is a
  record with its five operations; \<open>Send\<close> runs goroutines that share it, so it is a labelled step
  function: the label says which goroutine moves, and the calls it makes (the gas price closure, the
  publication, the backend) act on the world of the L1 node, which also changes by itself.
\<close>

section \<open>Send state\<close>

record SendState =
  ss_minedTxs :: "hash set"
  ss_nonceTooLowCount :: u64
  ss_safeAbortNonceTooLowCount :: u64

definition NewSendState :: "u64 \<Rightarrow> SendState res" where
  "NewSendState safeAbortNonceTooLowCount =
     (if safeAbortNonceTooLowCount = 0 then Panic ''txmgr: safeAbortNonceTooLowCount cannot be zero''
      else Ok \<lparr>ss_minedTxs = {}, ss_nonceTooLowCount = 0, ss_safeAbortNonceTooLowCount = safeAbortNonceTooLowCount\<rparr>)"

text \<open>\<open>err.Error()\<close> and \<open>strings.Contains\<close>; an error of the L1 node is \<open>ErrMsg\<close> with its text.\<close>

fun error_text :: "error \<Rightarrow> string" where
  "error_text NotFound = ''not found''"
| "error_text WrongChainErr = ''wrong chain''"
| "error_text TooDeepReorgErr = ''reorg is too deep''"
| "error_text TooManyRetries = ''too many retries''"
| "error_text ContextCanceled = ''context canceled''"
| "error_text (ErrMsg m) = m"
| "error_text (Wrap m e) = m @ '': '' @ error_text e"

definition contains :: "string \<Rightarrow> string \<Rightarrow> bool" where
  "contains s sub \<longleftrightarrow> list_ex (\<lambda>i. take (length sub) (drop i s) = sub) [0..<Suc (length s)]"

definition nonce_too_low :: "error \<Rightarrow> bool" where
  "nonce_too_low err \<longleftrightarrow> contains (error_text err) ''nonce too low''"

definition ProcessSendError :: "error option \<Rightarrow> SendState \<Rightarrow> SendState" where
  "ProcessSendError err s =
     (case err of None \<Rightarrow> s
      | Some e \<Rightarrow> if nonce_too_low e then s\<lparr>ss_nonceTooLowCount := ss_nonceTooLowCount s + 1\<rparr> else s)"

definition TxMined :: "hash \<Rightarrow> SendState \<Rightarrow> SendState" where
  "TxMined txHash s = s\<lparr>ss_minedTxs := insert txHash (ss_minedTxs s)\<rparr>"

definition TxNotMined :: "hash \<Rightarrow> SendState \<Rightarrow> SendState" where
  "TxNotMined txHash s =
     (let wasMined = txHash \<in> ss_minedTxs s;
          s' = s\<lparr>ss_minedTxs := ss_minedTxs s - {txHash}\<rparr>
      in if ss_minedTxs s' = {} \<and> wasMined then s'\<lparr>ss_nonceTooLowCount := 0\<rparr> else s')"

definition ShouldAbortImmediately :: "SendState \<Rightarrow> bool" where
  "ShouldAbortImmediately s \<longleftrightarrow>
     (if ss_minedTxs s \<noteq> {} then False else ss_nonceTooLowCount s \<ge> ss_safeAbortNonceTooLowCount s)"

definition IsWaitingForConfirmation :: "SendState \<Rightarrow> bool" where
  "IsWaitingForConfirmation s \<longleftrightarrow> ss_minedTxs s \<noteq> {}"

section \<open>Send\<close>

text \<open>The arguments of \<open>Send\<close> and the backend of the manager.\<close>

record 'w txm_env =
  te_updateGasPrice :: "('w, Transaction) rpc"
  te_sendTx :: "Transaction \<Rightarrow> ('w, unit) rpc"
  te_TransactionReceipt :: "hash \<Rightarrow> 'w \<Rightarrow> (Receipt option \<times> error option) \<times> 'w"
  te_BlockNumber :: "('w, u64) rpc"

text \<open>Where a goroutine \<open>sendTxAsync\<close> stands: the last four phases are inside \<open>waitMined\<close>.\<close>

datatype phase =
    Updating
  | Publishing Transaction
  | AbortCheck
  | Polling Transaction
  | Checking Transaction Receipt
  | Sleeping Transaction
  | Delivering Transaction Receipt
  | Exited

text \<open>The last four fields record what happened, for the statements: the caller cancelled, the manager
  aborted, nonce-too-low errors seen, transactions published.\<close>

record 'w txm =
  t_sendState :: SendState
  t_receiptChan :: "Receipt option"
  t_cancelled :: bool
  t_senders :: "phase list"
  t_ret :: "Receipt res option"
  t_world :: 'w
  t_caller :: bool
  t_aborted :: bool
  t_tooLow :: nat
  t_published :: "Transaction list"

definition context_canceled :: "error \<Rightarrow> bool" where
  "context_canceled err \<longleftrightarrow> err = ContextCanceled \<or> contains (error_text err) ''context canceled''"

definition confirmed_at :: "u64 \<Rightarrow> Receipt \<Rightarrow> u64 \<Rightarrow> bool" where
  "confirmed_at numConfirmations receipt tipHeight \<longleftrightarrow>
     of_int (rcp_BlockNumber receipt) + numConfirmations \<le> tipHeight + 1"

definition crash :: "string \<Rightarrow> 'w txm \<Rightarrow> 'w txm" where
  "crash p s = s\<lparr>t_ret := Some (Panic p)\<rparr>"

text \<open>One step of the loop of \<open>waitMined\<close>: ask for the receipt, ask for the tip, wait for the ticker.\<close>

fun waitMined_step :: "'w txm_env \<Rightarrow> u64 \<Rightarrow> phase \<Rightarrow> 'w txm \<Rightarrow> (phase \<times> 'w txm) option" where
  "waitMined_step E nc (Polling tx) s =
     (case te_TransactionReceipt E (tx_Hash tx) (t_world s) of
        ((Some receipt, err), w) \<Rightarrow>
          Some (Checking tx receipt, s\<lparr>t_world := w, t_sendState := TxMined (tx_Hash tx) (t_sendState s)\<rparr>)
      | ((None, Some e), w) \<Rightarrow> Some (Sleeping tx, s\<lparr>t_world := w\<rparr>)
      | ((None, None), w) \<Rightarrow>
          Some (Sleeping tx, s\<lparr>t_world := w, t_sendState := TxNotMined (tx_Hash tx) (t_sendState s)\<rparr>))"
| "waitMined_step E nc (Checking tx receipt) s =
     (case te_BlockNumber E (t_world s) of
        (Ok tipHeight, w) \<Rightarrow>
          Some (if confirmed_at nc receipt tipHeight then Delivering tx receipt else Sleeping tx, s\<lparr>t_world := w\<rparr>)
      | (Err e, w) \<Rightarrow> Some (Sleeping tx, s\<lparr>t_world := w\<rparr>)
      | (Panic p, w) \<Rightarrow> Some (Exited, crash p (s\<lparr>t_world := w\<rparr>))
      | (Diverge, w) \<Rightarrow> None)"
| "waitMined_step E nc (Sleeping tx) s = Some (Polling tx, s)"
| "waitMined_step E nc ph s = None"

text \<open>One step of a goroutine; \<open>None\<close> is a call that does not come back.\<close>

fun sender_step :: "'w txm_env \<Rightarrow> u64 \<Rightarrow> phase \<Rightarrow> 'w txm \<Rightarrow> (phase \<times> 'w txm) option" where
  "sender_step E nc Updating s =
     (case te_updateGasPrice E (t_world s) of
        (Ok tx, w) \<Rightarrow> Some (Publishing tx, s\<lparr>t_world := w\<rparr>)
      | (Err e, w) \<Rightarrow> Some (Exited, s\<lparr>t_world := w\<rparr>)
      | (Panic p, w) \<Rightarrow> Some (Exited, crash p (s\<lparr>t_world := w\<rparr>))
      | (Diverge, w) \<Rightarrow> None)"
| "sender_step E nc (Publishing tx) s =
     (case te_sendTx E tx (t_world s) of
        (Ok u, w) \<Rightarrow> Some (Polling tx, s\<lparr>t_world := w, t_sendState := ProcessSendError None (t_sendState s),
                         t_published := t_published s @ [tx]\<rparr>)
      | (Err e, w) \<Rightarrow> Some (if context_canceled e then Exited else AbortCheck,
                         s\<lparr>t_world := w, t_sendState := ProcessSendError (Some e) (t_sendState s),
                           t_tooLow := (if nonce_too_low e then t_tooLow s + 1 else t_tooLow s)\<rparr>)
      | (Panic p, w) \<Rightarrow> Some (Exited, crash p (s\<lparr>t_world := w\<rparr>))
      | (Diverge, w) \<Rightarrow> None)"
| "sender_step E nc AbortCheck s =
     Some (Exited, if ShouldAbortImmediately (t_sendState s) then s\<lparr>t_cancelled := True, t_aborted := True\<rparr> else s)"
| "sender_step E nc (Polling tx) s = waitMined_step E nc (Polling tx) s"
| "sender_step E nc (Checking tx receipt) s = waitMined_step E nc (Checking tx receipt) s"
| "sender_step E nc (Sleeping tx) s = waitMined_step E nc (Sleeping tx) s"
| "sender_step E nc (Delivering tx receipt) s =
     Some (Exited, if t_receiptChan s = None then s\<lparr>t_receiptChan := Some receipt\<rparr> else s)"
| "sender_step E nc Exited s = None"

datatype 'w txm_label =
    Resubmit | ContextDone | Receive      \<comment> \<open>the cases of the main loop's \<open>select\<close>\<close>
  | Sender nat | Leave nat                \<comment> \<open>goroutine moves; leaves \<open>waitMined\<close> on \<open>ctx.Done\<close>\<close>
  | CallerCancels | World 'w              \<comment> \<open>the environment\<close>

text \<open>The deferred \<open>cancel()\<close> runs when the main loop returns.\<close>

definition send_return :: "Receipt res \<Rightarrow> 'w txm \<Rightarrow> 'w txm" where
  "send_return r s = s\<lparr>t_ret := Some r, t_cancelled := True\<rparr>"

fun txm_do :: "'w txm_env \<Rightarrow> u64 \<Rightarrow> 'w txm_label \<Rightarrow> 'w txm \<Rightarrow> 'w txm option" where
  "txm_do E nc Resubmit s =
     (if t_ret s = None then
        Some (if IsWaitingForConfirmation (t_sendState s) then s
              else s\<lparr>t_senders := t_senders s @ [Updating]\<rparr>)
      else None)"
| "txm_do E nc ContextDone s =
     (if t_ret s = None \<and> t_cancelled s then Some (send_return (Err ContextCanceled) s) else None)"
| "txm_do E nc Receive s =
     (case t_receiptChan s of
        Some receipt \<Rightarrow> if t_ret s = None then Some (send_return (Ok receipt) (s\<lparr>t_receiptChan := None\<rparr>)) else None
      | None \<Rightarrow> None)"
| "txm_do E nc (Sender i) s =
     (if i < length (t_senders s) then
        (case sender_step E nc (t_senders s ! i) s of
           Some (ph, s') \<Rightarrow> Some (s'\<lparr>t_senders := (t_senders s)[i := ph]\<rparr>)
         | None \<Rightarrow> None)
      else None)"
| "txm_do E nc (Leave i) s =
     (if i < length (t_senders s) \<and> t_cancelled s then
        (case t_senders s ! i of Sleeping tx \<Rightarrow> Some (s\<lparr>t_senders := (t_senders s)[i := Exited]\<rparr>) | _ \<Rightarrow> None)
      else None)"
| "txm_do E nc CallerCancels s = Some (s\<lparr>t_cancelled := True, t_caller := True\<rparr>)"
| "txm_do E nc (World w) s = Some (s\<lparr>t_world := w\<rparr>)"

definition txm_start :: "SendState \<Rightarrow> 'w \<Rightarrow> 'w txm" where
  "txm_start st w = \<lparr>t_sendState = st, t_receiptChan = None, t_cancelled = False, t_senders = [Updating],
     t_ret = None, t_world = w, t_caller = False, t_aborted = False, t_tooLow = 0, t_published = []\<rparr>"

text \<open>\<open>Send\<close> with a configuration of \<open>numConfirmations\<close> and \<open>safeAbort\<close>: the outcomes of its runs. A zero
  \<open>safeAbort\<close> panics in \<open>NewSendState\<close>, before anything runs; \<open>NewSimpleTxManager\<close> refuses zero confirmations.\<close>

definition NewSimpleTxManager :: "u64 \<Rightarrow> unit res" where
  "NewSimpleTxManager numConfirmations =
     (if numConfirmations = 0 then Panic ''txmgr: NumConfirmations cannot be zero'' else Ok ())"

inductive Send_run :: "'w txm_env \<Rightarrow> u64 \<Rightarrow> u64 \<Rightarrow> 'w \<Rightarrow> 'w txm \<Rightarrow> bool" for E nc safeAbort w where
  start: "NewSendState safeAbort = Ok st \<Longrightarrow> Send_run E nc safeAbort w (txm_start st w)"
| step: "Send_run E nc safeAbort w s \<Longrightarrow> txm_do E nc l s = Some t \<Longrightarrow> Send_run E nc safeAbort w t"

definition CalcGasFeeCap :: "int \<Rightarrow> int \<Rightarrow> int" where
  "CalcGasFeeCap baseFee gasTipCap = gasTipCap + baseFee * 2"

section \<open>Send state: what the abort decision means\<close>

lemma ProcessSendError_fields [simp]:
  "ss_minedTxs (ProcessSendError e s) = ss_minedTxs s"
  "ss_safeAbortNonceTooLowCount (ProcessSendError e s) = ss_safeAbortNonceTooLowCount s"
  by (auto simp: ProcessSendError_def split: option.splits)

lemma mined_fields [simp]:
  "ss_minedTxs (TxMined h s) = insert h (ss_minedTxs s)"
  "ss_nonceTooLowCount (TxMined h s) = ss_nonceTooLowCount s"
  "ss_safeAbortNonceTooLowCount (TxMined h s) = ss_safeAbortNonceTooLowCount s"
  "ss_minedTxs (TxNotMined h s) = ss_minedTxs s - {h}"
  "ss_safeAbortNonceTooLowCount (TxNotMined h s) = ss_safeAbortNonceTooLowCount s"
  by (simp_all add: TxMined_def TxNotMined_def Let_def)

text \<open>The events that the manager reports, oldest first.\<close>

datatype report = SendResult "error option" | SeenMined hash | SeenNotMined hash

fun send_event :: "report \<Rightarrow> SendState \<Rightarrow> SendState" where
  "send_event (SendResult e) s = ProcessSendError e s"
| "send_event (SeenMined h) s = TxMined h s"
| "send_event (SeenNotMined h) s = TxNotMined h s"

definition too_low_events :: "report list \<Rightarrow> nat" where
  "too_low_events es = length (filter (\<lambda>e. \<exists>x. e = SendResult (Some x) \<and> nonce_too_low x) es)"

lemma too_low_events_snoc:
  "too_low_events (es @ [e]) = too_low_events es + (if \<exists>x. e = SendResult (Some x) \<and> nonce_too_low x then 1 else 0)"
  by (simp add: too_low_events_def)

text \<open>Whether a transaction counts as mined is decided by the last report about it.\<close>

fun last_report :: "hash \<Rightarrow> report list \<Rightarrow> bool" where
  "last_report h [] = False"
| "last_report h (SeenMined h' # es) = (if h = h' then True else last_report h es)"
| "last_report h (SeenNotMined h' # es) = (if h = h' then False else last_report h es)"
| "last_report h (SendResult e # es) = last_report h es"

lemma mined_last_report:
  "ss_minedTxs (fold send_event es s) = {h. last_report h (rev es)} \<union> (ss_minedTxs s \<inter> {h. SeenNotMined h \<notin> set es \<and> SeenMined h \<notin> set es})"
proof (induction es arbitrary: s rule: rev_induct)
  case (snoc e es)
  then show ?case by (cases e) auto
qed simp

lemma unat_Suc_le: "unat (c + 1 :: u64) \<le> unat c + 1"
  by (cases "unat c + 1 < 2 ^ 64") (auto simp: unat_word_ariths)

text \<open>Since the last moment at which all mined transactions were reorganised out, at least as many
  nonce-too-low errors came in as the counter says, so the counter never overstates.\<close>

definition since_reset :: "SendState \<Rightarrow> report list \<Rightarrow> report list \<Rightarrow> report list \<Rightarrow> bool" where
  "since_reset s0 es pre post \<longleftrightarrow> es = pre @ post \<and>
     (pre = [] \<or> (ss_minedTxs (fold send_event pre s0) = {} \<and> (\<exists>h. List.last pre = SeenNotMined h)))"

lemma count_since_reset:
  assumes "ss_nonceTooLowCount s0 = 0"
  shows "\<exists>pre post. since_reset s0 es pre post \<and>
    unat (ss_nonceTooLowCount (fold send_event es s0)) \<le> too_low_events post"
proof (induction es rule: rev_induct)
  case Nil
  show ?case using assms by (intro exI [of _ "[]"]) (simp add: since_reset_def)
next
  case (snoc e es)
  then obtain pre post where ih: "since_reset s0 es pre post"
    "unat (ss_nonceTooLowCount (fold send_event es s0)) \<le> too_low_events post" by blast
  let ?s = "fold send_event es s0"
  have keep: ?case if "unat (ss_nonceTooLowCount (send_event e ?s)) \<le> too_low_events (post @ [e])"
    using ih(1) that unfolding since_reset_def
    by (intro exI [of _ pre] exI [of _ "post @ [e]"]) simp
  show ?case
  proof (cases e)
    case (SendResult x)
    show ?thesis
    proof (rule keep)
      show "unat (ss_nonceTooLowCount (send_event e ?s)) \<le> too_low_events (post @ [e])"
        using ih(2) SendResult unat_Suc_le [of "ss_nonceTooLowCount ?s"]
        by (auto simp: ProcessSendError_def too_low_events_snoc split: option.splits)
    qed
  next
    case (SeenMined h)
    then show ?thesis using ih(2) by (intro keep) (simp add: too_low_events_snoc)
  next
    case (SeenNotMined h)
    show ?thesis
    proof (cases "ss_minedTxs ?s - {h} = {} \<and> h \<in> ss_minedTxs ?s")
      case True
      then have "since_reset s0 (es @ [e]) (es @ [e]) []" "ss_nonceTooLowCount (send_event e ?s) = 0"
        using SeenNotMined by (auto simp: since_reset_def TxNotMined_def Let_def)
      then show ?thesis by (intro exI [of _ "es @ [e]"] exI [of _ "[]"]) simp
    next
      case False
      then have "ss_nonceTooLowCount (send_event e ?s) = ss_nonceTooLowCount ?s"
        using SeenNotMined by (auto simp: TxNotMined_def Let_def)
      then show ?thesis using ih(2) SeenNotMined by (intro keep) (simp add: too_low_events_snoc)
    qed
  qed
qed

lemma safeAbort_fold [simp]: "ss_safeAbortNonceTooLowCount (fold send_event es s) = ss_safeAbortNonceTooLowCount s"
proof (induction es arbitrary: s)
  case (Cons e es)
  then show ?case by (cases e) auto
qed simp

text \<open>The manager gives up on a nonce only with evidence: when \<open>ShouldAbortImmediately\<close> holds after any
  sequence of reports, then no transaction is known as mined (the last report about each one is
  that it is not), and since the last reorganisation that left no mined transaction at least
  \<open>safeAbortNonceTooLowCount\<close> publications failed with a nonce-too-low error.\<close>

theorem abort_needs_evidence:
  assumes "NewSendState k = Ok s0" and "ShouldAbortImmediately (fold send_event es s0)"
  shows "(\<forall>h. \<not> last_report h (rev es)) \<and>
    (\<exists>pre post. since_reset s0 es pre post \<and> unat k \<le> too_low_events post)"
proof -
  have s0: "ss_nonceTooLowCount s0 = 0" "ss_safeAbortNonceTooLowCount s0 = k"
    using assms(1) by (auto simp: NewSendState_def split: if_splits)
  have "ss_minedTxs (fold send_event es s0) = {}" and ge: "ss_nonceTooLowCount (fold send_event es s0) \<ge> k"
    using assms(2) s0 by (auto simp: ShouldAbortImmediately_def split: if_splits)
  then have "\<forall>h. \<not> last_report h (rev es)" using mined_last_report [of es s0] by auto
  with count_since_reset [OF s0(1), of es] ge show ?thesis by (fastforce simp: word_le_nat_alt)
qed

theorem abort_needs_evidence_witness:
  "\<exists>s0 pre post. NewSendState 2 = Ok s0 \<and>
     since_reset s0 [SendResult (Some (ErrMsg ''nonce too low'')), SeenMined 5, SeenNotMined 5,
       SendResult (Some (ErrMsg ''nonce too low'')), SendResult (Some (ErrMsg ''nonce too low''))] pre post \<and>
     2 \<le> too_low_events post"
proof -
  let ?es = "[SendResult (Some (ErrMsg ''nonce too low'')), SeenMined 5, SeenNotMined 5,
       SendResult (Some (ErrMsg ''nonce too low'')), SendResult (Some (ErrMsg ''nonce too low''))]"
  obtain s0 where s0: "NewSendState 2 = Ok s0" by (simp add: NewSendState_def)
  have too: "nonce_too_low (ErrMsg ''nonce too low'')" by code_simp
  have "ShouldAbortImmediately (fold send_event ?es s0)"
    using s0 too by (auto simp: NewSendState_def ProcessSendError_def TxMined_def TxNotMined_def ShouldAbortImmediately_def)
  from abort_needs_evidence [OF s0 this] s0 show ?thesis by auto
qed

section \<open>Invariant of Send\<close>

definition from_update :: "'w txm_env \<Rightarrow> Transaction \<Rightarrow> bool" where
  "from_update E tx \<longleftrightarrow> (\<exists>w w'. te_updateGasPrice E w = (Ok tx, w'))"

definition receipt_of :: "'w txm_env \<Rightarrow> Transaction \<Rightarrow> Receipt \<Rightarrow> bool" where
  "receipt_of E tx r \<longleftrightarrow> (\<exists>w e w'. te_TransactionReceipt E (tx_Hash tx) w = ((Some r, e), w'))"

definition seen_confirmed :: "'w txm_env \<Rightarrow> u64 \<Rightarrow> Receipt \<Rightarrow> bool" where
  "seen_confirmed E nc r \<longleftrightarrow> (\<exists>tip w w'. te_BlockNumber E w = (Ok tip, w') \<and> confirmed_at nc r tip)"

definition delivered :: "'w txm_env \<Rightarrow> u64 \<Rightarrow> Transaction list \<Rightarrow> Receipt \<Rightarrow> bool" where
  "delivered E nc pub r \<longleftrightarrow> (\<exists>tx \<in> set pub. receipt_of E tx r) \<and> seen_confirmed E nc r"

fun phase_ok :: "'w txm_env \<Rightarrow> u64 \<Rightarrow> Transaction list \<Rightarrow> phase \<Rightarrow> bool" where
  "phase_ok E nc pub (Publishing tx) \<longleftrightarrow> from_update E tx"
| "phase_ok E nc pub (Polling tx) \<longleftrightarrow> tx \<in> set pub"
| "phase_ok E nc pub (Sleeping tx) \<longleftrightarrow> tx \<in> set pub"
| "phase_ok E nc pub (Checking tx r) \<longleftrightarrow> tx \<in> set pub \<and> receipt_of E tx r"
| "phase_ok E nc pub (Delivering tx r) \<longleftrightarrow> delivered E nc pub r"
| "phase_ok E nc pub ph \<longleftrightarrow> True"

lemma phase_ok_mono: "phase_ok E nc pub ph \<Longrightarrow> set pub \<subseteq> set pub' \<Longrightarrow> phase_ok E nc pub' ph"
  by (cases ph) (auto simp: delivered_def)

definition txm_inv :: "'w txm_env \<Rightarrow> u64 \<Rightarrow> u64 \<Rightarrow> 'w txm \<Rightarrow> bool" where
  "txm_inv E nc safeAbort s \<longleftrightarrow>
     (\<forall>r. t_receiptChan s = Some r \<longrightarrow> delivered E nc (t_published s) r) \<and>
     (\<forall>r. t_ret s = Some (Ok r) \<longrightarrow> delivered E nc (t_published s) r) \<and>
     unat (ss_nonceTooLowCount (t_sendState s)) \<le> t_tooLow s \<and>
     ss_safeAbortNonceTooLowCount (t_sendState s) = safeAbort \<and>
     (t_aborted s \<longrightarrow> unat safeAbort \<le> t_tooLow s) \<and>
     (t_cancelled s \<and> t_ret s = None \<longrightarrow> t_caller s \<or> t_aborted s) \<and>
     (\<forall>e. t_ret s = Some (Err e) \<longrightarrow> e = ContextCanceled \<and> (t_caller s \<or> t_aborted s)) \<and>
     (\<forall>tx \<in> set (t_published s). from_update E tx)"

lemma count_bounds:
  "unat (ss_nonceTooLowCount (ProcessSendError (Some e) s)) \<le> unat (ss_nonceTooLowCount s) + (if nonce_too_low e then 1 else 0)"
  "ss_nonceTooLowCount (ProcessSendError None s) = ss_nonceTooLowCount s"
  "unat (ss_nonceTooLowCount (TxNotMined h s)) \<le> unat (ss_nonceTooLowCount s)"
  using unat_Suc_le [of "ss_nonceTooLowCount s"] by (auto simp: ProcessSendError_def TxNotMined_def Let_def)

lemma txm_inv_world [simp]: "txm_inv E nc k (s\<lparr>t_world := w\<rparr>) \<longleftrightarrow> txm_inv E nc k s"
  by (simp add: txm_inv_def)

text \<open>One lemma for each way in which a step changes what the invariant reads.\<close>

lemma txm_inv_count:
  assumes "txm_inv E nc k s" and "unat (ss_nonceTooLowCount st) \<le> n" and "ss_safeAbortNonceTooLowCount st = ss_safeAbortNonceTooLowCount (t_sendState s)" and "t_tooLow s \<le> n"
  shows "txm_inv E nc k (s\<lparr>t_sendState := st, t_tooLow := n\<rparr>)"
proof -
  have "t_aborted s \<longrightarrow> unat k \<le> n" using assms(1,4) unfolding txm_inv_def by (elim conjE) (meson le_trans)
  with assms show ?thesis by (simp add: txm_inv_def)
qed

lemma txm_inv_sendState:
  assumes "txm_inv E nc k s" and "unat (ss_nonceTooLowCount st) \<le> unat (ss_nonceTooLowCount (t_sendState s))"
    and "ss_safeAbortNonceTooLowCount st = ss_safeAbortNonceTooLowCount (t_sendState s)"
  shows "txm_inv E nc k (s\<lparr>t_sendState := st\<rparr>)"
  using assms by (simp add: txm_inv_def)

lemma txm_inv_publish:
  assumes "txm_inv E nc k s" and "from_update E tx"
  shows "txm_inv E nc k (s\<lparr>t_published := t_published s @ [tx]\<rparr>)"
proof -
  have more: "delivered E nc (t_published s) r \<Longrightarrow> delivered E nc (t_published s @ [tx]) r" for r by (auto simp: delivered_def)
  show ?thesis using assms unfolding txm_inv_def by (elim conjE) (intro conjI; simp add: more)
qed

lemma txm_inv_abort:
  assumes "txm_inv E nc k s" and "unat k \<le> t_tooLow s"
  shows "txm_inv E nc k (s\<lparr>t_cancelled := True, t_aborted := True\<rparr>)"
  using assms unfolding txm_inv_def by (elim conjE) (intro conjI; simp)

lemma txm_inv_return:
  assumes "txm_inv E nc k s" and "t_ret s = None" and "t_receiptChan s = Some r"
  shows "txm_inv E nc k (send_return (Ok r) (s\<lparr>t_receiptChan := None\<rparr>))"
  using assms unfolding txm_inv_def send_return_def by (elim conjE) (intro conjI; simp)

lemma txm_inv_cancelled:
  assumes "txm_inv E nc k s" and "t_ret s = None" and "t_cancelled s"
  shows "txm_inv E nc k (send_return (Err ContextCanceled) s)"
  using assms unfolding txm_inv_def send_return_def by (elim conjE) (intro conjI; simp)

lemma txm_inv_caller: "txm_inv E nc k s \<Longrightarrow> txm_inv E nc k (s\<lparr>t_cancelled := True, t_caller := True\<rparr>)"
  unfolding txm_inv_def by (elim conjE) (intro conjI; simp)

lemma txm_inv_senders [simp]: "txm_inv E nc k (s\<lparr>t_senders := xs\<rparr>) \<longleftrightarrow> txm_inv E nc k s"
  by (simp add: txm_inv_def)

lemma txm_inv_crash: "txm_inv E nc k s \<Longrightarrow> txm_inv E nc k (crash p s)"
  by (simp add: txm_inv_def crash_def)

lemma crash_fields [simp]: "t_published (crash p s) = t_published s" "t_senders (crash p s) = t_senders s"
  by (simp_all add: crash_def)

lemma sender_step_inv:
  assumes "txm_inv E nc k s" and "phase_ok E nc (t_published s) ph" and "sender_step E nc ph s = Some (ph', s')"
  shows "txm_inv E nc k s' \<and> phase_ok E nc (t_published s') ph' \<and> set (t_published s) \<subseteq> set (t_published s') \<and>
    t_senders s' = t_senders s"
proof (cases ph)
  case Updating
  obtain x w where up: "te_updateGasPrice E (t_world s) = (x, w)" by fastforce
  show ?thesis
  proof (cases x)
    case (Ok tx)
    then have "from_update E tx" using up unfolding from_update_def by blast
    then show ?thesis using assms Updating up Ok by auto
  qed (use assms Updating up in \<open>auto intro: txm_inv_crash\<close>)
next
  case (Publishing tx)
  obtain x w where snd: "te_sendTx E tx (t_world s) = (x, w)" by fastforce
  have world: "txm_inv E nc k (s\<lparr>t_world := w\<rparr>)" using assms(1) by simp
  show ?thesis
  proof (cases x)
    case (Ok u)
    have "txm_inv E nc k (s\<lparr>t_world := w, t_sendState := ProcessSendError None (t_sendState s)\<rparr>)"
      by (rule txm_inv_sendState [OF world]) (simp_all add: count_bounds)
    from txm_inv_publish [OF this, of tx] Ok show ?thesis using assms(2,3) Publishing snd by auto
  next
    case (Err e)
    let ?n = "if nonce_too_low e then t_tooLow s + 1 else t_tooLow s"
    have "unat (ss_nonceTooLowCount (t_sendState s)) \<le> t_tooLow s" using assms(1) by (simp add: txm_inv_def)
    then have "txm_inv E nc k (s\<lparr>t_world := w, t_sendState := ProcessSendError (Some e) (t_sendState s), t_tooLow := ?n\<rparr>)"
      using count_bounds(1) [of e "t_sendState s"] by (intro txm_inv_count [OF world]) (simp_all split: if_splits)
    with Err show ?thesis using assms(2,3) Publishing snd by auto
  qed (use assms Publishing snd in \<open>auto intro: txm_inv_crash\<close>)
next
  case AbortCheck
  show ?thesis
  proof (cases "ShouldAbortImmediately (t_sendState s)")
    case True
    then have "unat k \<le> unat (ss_nonceTooLowCount (t_sendState s))"
      using assms(1) by (auto simp: ShouldAbortImmediately_def txm_inv_def word_le_nat_alt split: if_splits)
    also have "\<dots> \<le> t_tooLow s" using assms(1) by (simp add: txm_inv_def)
    finally show ?thesis using txm_inv_abort [OF assms(1)] assms(2,3) AbortCheck True by auto
  qed (use assms AbortCheck in auto)
next
  case (Polling tx)
  obtain ro eo w where tr: "te_TransactionReceipt E (tx_Hash tx) (t_world s) = ((ro, eo), w)"
    by (metis prod.exhaust)
  have world: "txm_inv E nc k (s\<lparr>t_world := w\<rparr>)" using assms(1) by simp
  show ?thesis
  proof (cases ro)
    case None
    have "txm_inv E nc k (s\<lparr>t_world := w, t_sendState := TxNotMined (tx_Hash tx) (t_sendState s)\<rparr>)"
      by (rule txm_inv_sendState [OF world]) (simp_all add: count_bounds)
    with None show ?thesis using assms Polling tr by (cases eo) auto
  next
    case (Some r)
    then have "receipt_of E tx r" using tr unfolding receipt_of_def by blast
    moreover have "txm_inv E nc k (s\<lparr>t_world := w, t_sendState := TxMined (tx_Hash tx) (t_sendState s)\<rparr>)"
      by (rule txm_inv_sendState [OF world]) simp_all
    ultimately show ?thesis using assms Polling tr Some by auto
  qed
next
  case (Checking tx r)
  obtain x w where bn: "te_BlockNumber E (t_world s) = (x, w)" by fastforce
  show ?thesis
  proof (cases x)
    case (Ok tip)
    have "confirmed_at nc r tip \<Longrightarrow> seen_confirmed E nc r"
      using bn Ok unfolding seen_confirmed_def by blast
    then show ?thesis using assms Checking bn Ok by (auto simp: delivered_def)
  qed (use assms Checking bn in \<open>auto intro: txm_inv_crash\<close>)
next
  case (Sleeping tx)
  then show ?thesis using assms by auto
next
  case (Delivering tx r)
  then have "txm_inv E nc k (s\<lparr>t_receiptChan := Some r\<rparr>)" using assms by (simp add: txm_inv_def)
  then show ?thesis using assms Delivering by (auto split: if_splits)
next
  case Exited
  then show ?thesis using assms by simp
qed

lemma senders_update_ok:
  assumes "\<forall>ph \<in> set xs. P ph" and "P y"
  shows "\<forall>ph \<in> set (xs[i := y]). P ph"
  using assms set_update_subset_insert [of xs i y] by auto

definition send_inv :: "'w txm_env \<Rightarrow> u64 \<Rightarrow> u64 \<Rightarrow> 'w txm \<Rightarrow> bool" where
  "send_inv E nc k s \<longleftrightarrow> txm_inv E nc k s \<and> (\<forall>ph \<in> set (t_senders s). phase_ok E nc (t_published s) ph)"

lemma send_inv_sender:
  assumes "send_inv E nc k s" and "txm_do E nc (Sender i) s = Some t"
  shows "send_inv E nc k t"
proof -
  from assms(2) have i: "i < length (t_senders s)" by (simp split: if_splits)
  with assms(2) obtain x where "sender_step E nc (t_senders s ! i) s = Some x"
    by (cases "sender_step E nc (t_senders s ! i) s") simp_all
  then obtain ph s' where st: "sender_step E nc (t_senders s ! i) s = Some (ph, s')" by (cases x) simp
  then have t: "t = s'\<lparr>t_senders := (t_senders s)[i := ph]\<rparr>" using assms(2) i by simp
  have "phase_ok E nc (t_published s) (t_senders s ! i)" using assms(1) i by (simp add: send_inv_def)
  with sender_step_inv [OF _ this st] assms(1)
  have s': "txm_inv E nc k s'" "phase_ok E nc (t_published s') ph" "set (t_published s) \<subseteq> set (t_published s')"
    by (auto simp: send_inv_def)
  have "\<forall>x \<in> set (t_senders s). phase_ok E nc (t_published s') x"
    using assms(1) phase_ok_mono [OF _ s'(3)] by (auto simp: send_inv_def)
  from senders_update_ok [of _ "phase_ok E nc (t_published s')", OF this s'(2)] s'(1) show ?thesis
    by (simp add: t send_inv_def txm_inv_def)
qed

lemma send_inv_do:
  assumes inv: "send_inv E nc k s" and do: "txm_do E nc l s = Some t"
  shows "send_inv E nc k t"
proof (cases l)
  case (Sender i)
  then show ?thesis using send_inv_sender inv do by blast
next
  case (Leave i)
  then obtain tx where t: "t = s\<lparr>t_senders := (t_senders s)[i := Exited]\<rparr>"
    using do by (auto split: if_splits phase.splits)
  have "\<forall>x \<in> set ((t_senders s)[i := Exited]). phase_ok E nc (t_published s) x"
    by (rule senders_update_ok) (use inv in \<open>auto simp: send_inv_def\<close>)
  then show ?thesis using inv by (simp add: t send_inv_def txm_inv_def)
next
  case Receive
  then show ?thesis using inv do txm_inv_return [of E nc k s] by (auto simp: send_inv_def send_return_def split: if_splits option.splits)
next
  case ContextDone
  then show ?thesis using inv do txm_inv_cancelled [of E nc k s] by (auto simp: send_inv_def send_return_def split: if_splits)
qed (use inv do txm_inv_caller [of E nc k s] in \<open>auto simp: send_inv_def split: if_splits\<close>)

lemma Send_run_inv: "Send_run E nc k w s \<Longrightarrow> send_inv E nc k s"
proof (induction rule: Send_run.induct)
  case (start st)
  then show ?case
    by (auto simp: send_inv_def txm_inv_def txm_start_def NewSendState_def split: if_splits)
next
  case (step s l t)
  then show ?case by (blast intro: send_inv_do)
qed

text \<open>The comparison of \<open>waitMined\<close> means what its comment says: without overflow of the left side it is
  \<open>txHeight + numConfirmations - 1 <= tipHeight\<close> over the natural numbers.\<close>

lemma confirmed_at_nat:
  assumes "confirmed_at nc r tip" and "nc \<noteq> 0"
    and "unat (of_int (rcp_BlockNumber r) :: u64) + unat nc < 2 ^ 64"
  shows "unat (of_int (rcp_BlockNumber r) :: u64) + unat nc - 1 \<le> unat tip"
proof -
  have "unat (of_int (rcp_BlockNumber r) + nc) = unat (of_int (rcp_BlockNumber r) :: u64) + unat nc"
    using assms(3) by (simp add: unat_word_ariths)
  moreover have "unat (of_int (rcp_BlockNumber r) + nc) \<le> unat (tip + 1)"
    using assms(1) by (simp add: confirmed_at_def word_le_nat_alt)
  ultimately show ?thesis using unat_Suc_le [of tip] by linarith
qed

text \<open>C26: \<open>Send\<close> returns a receipt only when it is right to: in every interleaving of its goroutines the
  receipt is one that the backend gave for a transaction which the update closure built and which
  was published without error, and the block of the receipt had the configured number of confirmations
  under a tip that the backend reported. A run that returns an error was cancelled by its caller, or
  at least \<open>safeAbort\<close> publications failed with a nonce-too-low error.\<close>

theorem Send_result:
  assumes "Send_run E nc safeAbort w s" and "NewSimpleTxManager nc = Ok ()"
  shows "(t_ret s = Some (Ok r) \<longrightarrow>
      (\<exists>tx. from_update E tx \<and> tx \<in> set (t_published s) \<and> receipt_of E tx r) \<and>
      (\<exists>tip w1 w2. te_BlockNumber E w1 = (Ok tip, w2) \<and>
         (unat (of_int (rcp_BlockNumber r) :: u64) + unat nc < 2 ^ 64 \<longrightarrow>
            unat (of_int (rcp_BlockNumber r) :: u64) + unat nc - 1 \<le> unat tip))) \<and>
    (t_ret s = Some (Err e) \<longrightarrow> e = ContextCanceled \<and> (t_caller s \<or> unat safeAbort \<le> t_tooLow s))"
proof -
  have inv: "txm_inv E nc safeAbort s" using Send_run_inv [OF assms(1)] by (simp add: send_inv_def)
  have "nc \<noteq> 0" using assms(2) by (auto simp: NewSimpleTxManager_def)
  then show ?thesis using inv confirmed_at_nat
    unfolding txm_inv_def delivered_def seen_confirmed_def by blast
qed

text \<open>All versions of the transaction that one \<open>Send\<close> publishes come from the update closure, so what
  the closure keeps is the same in all of them.\<close>

lemma Send_publishes_updates:
  assumes "Send_run E nc safeAbort w s" and "\<And>w1 tx w2. te_updateGasPrice E w1 = (Ok tx, w2) \<Longrightarrow> P tx"
    and "tx \<in> set (t_published s)"
  shows "P tx"
  using Send_run_inv [OF assms(1)] assms(2,3) by (auto simp: send_inv_def txm_inv_def from_update_def)

fun txm_exec :: "'w txm_env \<Rightarrow> u64 \<Rightarrow> 'w txm_label list \<Rightarrow> 'w txm \<Rightarrow> 'w txm option" where
  "txm_exec E nc [] s = Some s"
| "txm_exec E nc (l # ls) s = (case txm_do E nc l s of None \<Rightarrow> None | Some t \<Rightarrow> txm_exec E nc ls t)"

lemma txm_exec_run: "Send_run E nc k w s \<Longrightarrow> txm_exec E nc ls s = Some t \<Longrightarrow> Send_run E nc k w t"
proof (induction ls arbitrary: s)
  case (Cons l ls)
  then obtain u where "txm_do E nc l s = Some u" "txm_exec E nc ls u = Some t" by (auto split: option.splits)
  then show ?case using Cons.IH Cons.prems(1) by (blast intro: Send_run.step)
qed simp

definition demo_tx :: Transaction where
  "demo_tx = \<lparr>tx_Type = 2, tx_To = Some 8, tx_Data = [1, 2], tx_Nonce = 5, tx_Gas = 21000, tx_Hash = 33\<rparr>"

definition demo_mined :: Receipt where
  "demo_mined = \<lparr>rcp_Status = 1, rcp_Logs = [], rcp_TxHash = 33, rcp_BlockHash = 44, rcp_BlockNumber = 10, rcp_TransactionIndex = 0\<rparr>"

text \<open>The world is the height of the L1 chain; the transaction is mined at height ten.\<close>

definition demo_env :: "u64 txm_env" where
  "demo_env = \<lparr>te_updateGasPrice = (\<lambda>w. (Ok demo_tx, w)), te_sendTx = (\<lambda>tx w. (Ok (), w)),
     te_TransactionReceipt = (\<lambda>h w. ((if w \<ge> 10 then Some demo_mined else None, None), w)),
     te_BlockNumber = (\<lambda>w. (Ok w, w))\<rparr>"

lemma demo_send: "\<exists>s. Send_run demo_env 2 3 9 s \<and> t_ret s = Some (Ok demo_mined)"
proof -
  define ls :: "u64 txm_label list" where
    "ls = [Sender 0, Sender 0, Sender 0, World 11, Resubmit, Sender 0, Sender 0, Sender 0, Sender 0, Receive]"
  obtain st where st: "NewSendState 3 = Ok st" by (simp add: NewSendState_def)
  obtain t where t: "txm_exec demo_env 2 ls (txm_start st 9) = Some t" and r: "t_ret t = Some (Ok demo_mined)"
    using st by (auto simp: NewSendState_def ls_def demo_env_def txm_start_def ProcessSendError_def TxNotMined_def TxMined_def
        confirmed_at_def demo_mined_def demo_tx_def send_return_def IsWaitingForConfirmation_def)
  show ?thesis using txm_exec_run [OF Send_run.start [OF st] t] r by blast
qed

theorem Send_result_witness:
  "\<exists>s tx tip w1 w2. Send_run demo_env 2 3 9 s \<and> t_ret s = Some (Ok demo_mined) \<and>
     from_update demo_env tx \<and> receipt_of demo_env tx demo_mined \<and>
     te_BlockNumber demo_env w1 = (Ok tip, w2) \<and> 10 + 2 - 1 \<le> unat tip"
proof -
  obtain s where s: "Send_run demo_env 2 3 9 s" "t_ret s = Some (Ok demo_mined)" using demo_send by blast
  have "NewSimpleTxManager 2 = Ok ()" by (simp add: NewSimpleTxManager_def)
  from Send_result [OF s(1) this, of demo_mined] s(2) obtain tx tip w1 w2 where
    "from_update demo_env tx" "receipt_of demo_env tx demo_mined" "te_BlockNumber demo_env w1 = (Ok tip, w2)"
    "unat (of_int (rcp_BlockNumber demo_mined) :: u64) + unat (2::u64) < 2 ^ 64 \<longrightarrow>
       unat (of_int (rcp_BlockNumber demo_mined) :: u64) + unat (2::u64) - 1 \<le> unat tip"
    by blast
  then show ?thesis using s by (fastforce simp: demo_mined_def)
qed

end
