(* ===== verification/Service.thy ===== *)
theory Service
  imports TxManager
begin

text \<open>
  The service loop that the batch submitter and the output proposer share (\<open>op-proposer/service.go\<close>). The
  interface \<open>Driver\<close> is a record; both drivers are instances of it in their own theories. One
  iteration of \<open>eventLoop\<close> asks the driver for a block range, crafts a transaction and hands it to
  the transaction manager, whose runs are those of \<open>Send_run\<close>; an iteration is therefore a relation.
\<close>

record 'w Driver =
  drv_Name :: string
  drv_WalletAddr :: address
  drv_GetBlockRange :: "('w, int \<times> int) rpc"
  drv_CraftTx :: "int \<Rightarrow> int \<Rightarrow> int \<Rightarrow> ('w, Transaction) rpc"
  drv_UpdateGasPrice :: "Transaction \<Rightarrow> ('w, Transaction) rpc"
  drv_SendTransaction :: "Transaction \<Rightarrow> ('w, unit) rpc"

text \<open>\<open>L1Client\<close>: the calls the service and its transaction manager make.\<close>

record 'w l1_backend =
  be_NonceAt :: "address \<Rightarrow> ('w, u64) rpc"
  be_TransactionReceipt :: "hash \<Rightarrow> 'w \<Rightarrow> (Receipt option \<times> error option) \<times> 'w"
  be_BlockNumber :: "('w, u64) rpc"

record 'w ServiceConfig =
  svc_Driver :: "'w Driver"
  svc_L1Client :: "'w l1_backend"
  svc_NumConfirmations :: u64
  svc_SafeAbortNonceTooLowCount :: u64

definition NewService :: "'w ServiceConfig \<Rightarrow> unit res" where
  "NewService cfg = NewSimpleTxManager (svc_NumConfirmations cfg)"

text \<open>The part of an iteration before \<open>Send\<close>: \<open>None\<close> is "no updates".\<close>

definition prepare :: "'w ServiceConfig \<Rightarrow> ('w, Transaction option) rpc" where
  "prepare cfg =
     rbind (drv_GetBlockRange (svc_Driver cfg)) (\<lambda>(start, stop).
     if start = stop then ret None
     else rbind (be_NonceAt (svc_L1Client cfg) (drv_WalletAddr (svc_Driver cfg))) (\<lambda>nonce64.
     rbind (drv_CraftTx (svc_Driver cfg) start stop (uint nonce64)) (\<lambda>tx. ret (Some tx))))"

definition send_env :: "'w ServiceConfig \<Rightarrow> Transaction \<Rightarrow> 'w txm_env" where
  "send_env cfg tx = \<lparr>te_updateGasPrice = drv_UpdateGasPrice (svc_Driver cfg) tx,
     te_sendTx = drv_SendTransaction (svc_Driver cfg),
     te_TransactionReceipt = be_TransactionReceipt (svc_L1Client cfg),
     te_BlockNumber = be_BlockNumber (svc_L1Client cfg)\<rparr>"

datatype 'w tick_result = Idle | TickError error | Sent Transaction "'w txm" Receipt

text \<open>\<open>Send\<close> returns after \<open>wg.Wait\<close>, when every goroutine has exited.\<close>

definition send_finished :: "'w txm \<Rightarrow> bool" where
  "send_finished s \<longleftrightarrow> t_ret s \<noteq> None \<and> list_all (\<lambda>ph. ph = Exited) (t_senders s)"

inductive tick :: "'w ServiceConfig \<Rightarrow> 'w \<Rightarrow> 'w tick_result \<Rightarrow> 'w \<Rightarrow> bool" for cfg w where
  idle: "prepare cfg w = (Ok None, w') \<Longrightarrow> tick cfg w Idle w'"
| unprepared: "prepare cfg w = (Err e, w') \<Longrightarrow> tick cfg w (TickError e) w'"
| unsent: "prepare cfg w = (Ok (Some tx), w1) \<Longrightarrow>
    Send_run (send_env cfg tx) (svc_NumConfirmations cfg) (svc_SafeAbortNonceTooLowCount cfg) w1 s \<Longrightarrow>
    send_finished s \<Longrightarrow> t_ret s = Some (Err e) \<Longrightarrow> tick cfg w (TickError e) (t_world s)"
| sent: "prepare cfg w = (Ok (Some tx), w1) \<Longrightarrow>
    Send_run (send_env cfg tx) (svc_NumConfirmations cfg) (svc_SafeAbortNonceTooLowCount cfg) w1 s \<Longrightarrow>
    send_finished s \<Longrightarrow> t_ret s = Some (Ok r) \<Longrightarrow> tick cfg w (Sent tx s r) (t_world s)"

text \<open>\<open>eventLoop\<close>: iterations one after the other, with their results, until \<open>Stop\<close> cancels the context.\<close>

inductive eventLoop :: "'w ServiceConfig \<Rightarrow> 'w \<Rightarrow> 'w tick_result list \<Rightarrow> 'w \<Rightarrow> bool" for cfg where
  cancelled: "eventLoop cfg w [] w"
| iterate: "tick cfg w r w1 \<Longrightarrow> eventLoop cfg w1 rs w2 \<Longrightarrow> eventLoop cfg w (r # rs) w2"

inductive_cases tick_SentE: "tick cfg w (Sent tx s r) w'"
inductive_simps tick_Idle_simps: "tick cfg w Idle w'"

lemma eventLoop_tick: "eventLoop cfg w rs w' \<Longrightarrow> r \<in> set rs \<Longrightarrow> \<exists>u u'. tick cfg u r u'"
  by (induction rule: eventLoop.induct) auto

section \<open>The contract of a driver\<close>

text \<open>What the service relies on: the crafted transaction has the nonce that the service asked for, and
  a new gas price changes neither nonce, nor recipient, nor data.\<close>

locale driver_contract =
  fixes ok :: "'d \<Rightarrow> bool" and driver :: "'d \<Rightarrow> 'w Driver"
  assumes craft_nonce: "ok d \<Longrightarrow> drv_CraftTx (driver d) start stop nonce w = (Ok tx, w') \<Longrightarrow> tx_Nonce tx = of_int nonce"
    and update_keeps: "ok d \<Longrightarrow> drv_CraftTx (driver d) start stop nonce w = (Ok tx, w') \<Longrightarrow>
      drv_UpdateGasPrice (driver d) tx w1 = (Ok tx', w2) \<Longrightarrow>
      tx_Nonce tx' = tx_Nonce tx \<and> tx_To tx' = tx_To tx \<and> tx_Data tx' = tx_Data tx"
begin

text \<open>Every transaction that an iteration publishes is the crafted one up to its gas price, with the
  nonce that the L1 node reported for the wallet.\<close>

lemma published_versions:
  assumes "ok d" and cfg: "svc_Driver cfg = driver d" and "tick cfg w (Sent tx s r) w'" and "tx' \<in> set (t_published s)"
  shows "tx_Nonce tx' = tx_Nonce tx \<and> tx_To tx' = tx_To tx \<and> tx_Data tx' = tx_Data tx \<and>
    (\<exists>w1 w2. be_NonceAt (svc_L1Client cfg) (drv_WalletAddr (driver d)) w1 = (Ok (tx_Nonce tx), w2)) \<and>
    (\<exists>start stop w1 w2. drv_GetBlockRange (driver d) w = (Ok (start, stop), w1) \<and> start \<noteq> stop \<and>
       (\<exists>n w3. drv_CraftTx (driver d) start stop (uint n) w3 = (Ok tx, w2) \<and> n = tx_Nonce tx))"
proof -
  from assms(3) obtain w1 where prep: "prepare cfg w = (Ok (Some tx), w1)"
    and run: "Send_run (send_env cfg tx) (svc_NumConfirmations cfg) (svc_SafeAbortNonceTooLowCount cfg) w1 s"
    by (auto elim: tick_SentE)
  from prep obtain start stop wa n wb where range: "drv_GetBlockRange (driver d) w = (Ok (start, stop), wa)" "start \<noteq> stop"
    and nonce: "be_NonceAt (svc_L1Client cfg) (drv_WalletAddr (driver d)) wa = (Ok n, wb)"
    and craft: "drv_CraftTx (driver d) start stop (uint n) wb = (Ok tx, w1)"
    by (auto simp: prepare_def rbind_Ok_iff cfg split: if_splits)
  have upd: "tx_Nonce x = tx_Nonce tx \<and> tx_To x = tx_To tx \<and> tx_Data x = tx_Data tx"
    if "te_updateGasPrice (send_env cfg tx) wc = (Ok x, wd)" for wc x wd
    using update_keeps [OF assms(1) craft] that by (simp add: send_env_def cfg)
  have keep: "tx_Nonce tx' = tx_Nonce tx \<and> tx_To tx' = tx_To tx \<and> tx_Data tx' = tx_Data tx"
    by (rule Send_publishes_updates [OF run _ assms(4), where P = "\<lambda>x. tx_Nonce x = tx_Nonce tx \<and> tx_To x = tx_To tx \<and> tx_Data x = tx_Data tx"])
       (rule upd)
  have "n = tx_Nonce tx" using craft_nonce [OF assms(1) craft] by simp
  then show ?thesis using keep range nonce craft by blast
qed

end

end
