(* ===== verification/History.thy ===== *)
theory History
  imports Geth
begin

text \<open>
  The submission history of the batch submitter (\<open>op-batcher/db/history_db.go\<close>): the list of L2 blocks
  that were already handed to L1, and its JSON file. The file system is a record of file contents
  with the I/O errors that the operating system may report; the JSON codec is a parameter of the
  database, because the text form of a hash is go-ethereum's.
\<close>

section \<open>History\<close>

record History =
  BlockIDs :: "BlockID list"

definition History_LatestID :: "History \<Rightarrow> BlockID res" where
  "History_LatestID h =
     (if BlockIDs h = [] then Panic ''index out of range'' else Ok (last (BlockIDs h)))"

text \<open>\<open>uint64(len) > maxEntries\<close> compares 64-bit numbers; then the slice expression drops the oldest.\<close>

definition History_AppendEntry :: "History \<Rightarrow> BlockID \<Rightarrow> u64 \<Rightarrow> History" where
  "History_AppendEntry h blockID maxEntries =
     (if \<exists>e \<in> set (BlockIDs h). id_Hash e = id_Hash blockID then h
      else let ids = BlockIDs h @ [blockID] in
        if (of_nat (length ids) :: u64) > maxEntries
        then h\<lparr>BlockIDs := drop (length ids - unat maxEntries) ids\<rparr>
        else h\<lparr>BlockIDs := ids\<rparr>)"

text \<open>\<open>Ancestors\<close> sorts a copy of the identifiers and then reads the original.\<close>

definition History_Ancestors :: "History \<Rightarrow> hash list" where
  "History_Ancestors h =
     (let sortedBlockIDs = sort_key id_Number (BlockIDs h) in rev (map id_Hash (BlockIDs h)))"

section \<open>The JSON file\<close>

record fs =
  fs_files :: "string \<rightharpoonup> bytes"
  fs_read_err :: "string \<Rightarrow> error option"
  fs_write_err :: "string \<Rightarrow> error option"

record json_lib =
  json_Marshal :: "History \<Rightarrow> error + bytes"
  json_Unmarshal :: "bytes \<Rightarrow> error + History"

record JSONFileDatabase =
  db_filename :: string
  db_maxEntries :: u64
  db_genesisHash :: hash
  db_json :: json_lib

definition ReadFile :: "string \<Rightarrow> (fs, bytes) rpc" where
  "ReadFile f s = ((case fs_read_err s f of Some e \<Rightarrow> Err e
     | None \<Rightarrow> (case fs_files s f of None \<Rightarrow> Err (ErrMsg ''no such file or directory'') | Some b \<Rightarrow> Ok b)), s)"

definition WriteFile :: "string \<Rightarrow> bytes \<Rightarrow> (fs, unit) rpc" where
  "WriteFile f b s = (case fs_write_err s f of Some e \<Rightarrow> (Err e, s)
     | None \<Rightarrow> (Ok (), s\<lparr>fs_files := (fs_files s)(f \<mapsto> b)\<rparr>))"

definition OpenJSONFileDatabase :: "json_lib \<Rightarrow> string \<Rightarrow> u64 \<Rightarrow> hash \<Rightarrow> (fs, JSONFileDatabase) rpc" where
  "OpenJSONFileDatabase J filename maxEntries genesisHash =
     rbind (\<lambda>s. if fs_files s filename = None then WriteFile filename [] s else (Ok (), s)) (\<lambda>_.
     ret \<lparr>db_filename = filename, db_maxEntries = maxEntries, db_genesisHash = genesisHash, db_json = J\<rparr>)"

definition LoadHistory :: "JSONFileDatabase \<Rightarrow> (fs, History) rpc" where
  "LoadHistory d =
     rbind (ReadFile (db_filename d)) (\<lambda>fileContents.
     if length fileContents = 0
     then ret \<lparr>BlockIDs = [\<lparr>id_Hash = db_genesisHash d, id_Number = 0\<rparr>]\<rparr>
     else lift_res (of_sum (json_Unmarshal (db_json d) fileContents)))"

definition DB_AppendEntry :: "JSONFileDatabase \<Rightarrow> BlockID \<Rightarrow> (fs, unit) rpc" where
  "DB_AppendEntry d blockID =
     rbind (LoadHistory d) (\<lambda>history.
     rbind (lift_res (of_sum (json_Marshal (db_json d) (History_AppendEntry history blockID (db_maxEntries d)))))
       (\<lambda>newFileContents. WriteFile (db_filename d) newFileContents))"

definition DB_Close :: "JSONFileDatabase \<Rightarrow> unit res" where
  "DB_Close d = Ok ()"

section \<open>Invariant of the history\<close>

text \<open>A history is never empty and never holds a hash twice; it has at most \<open>maxEntries\<close> entries. The
  bound on the length is what a Go slice always satisfies.\<close>

definition history_ok :: "u64 \<Rightarrow> History \<Rightarrow> bool" where
  "history_ok maxEntries h \<longleftrightarrow> BlockIDs h \<noteq> [] \<and> distinct (map id_Hash (BlockIDs h)) \<and>
     length (BlockIDs h) \<le> unat maxEntries"

lemma length_u64: "n < 2 ^ 64 \<Longrightarrow> unat (of_nat n :: u64) = n"
  by (simp add: unat_of_nat)

lemma history_append_new:
  assumes ok: "history_ok mx h" and new: "id_Hash e \<notin> id_Hash ` set (BlockIDs h)"
    and "unat mx < 2 ^ 64 - 1"
  shows "BlockIDs (History_AppendEntry h e mx) =
    (if length (BlockIDs h) = unat mx then tl (BlockIDs h) @ [e] else BlockIDs h @ [e])"
proof -
  define n where "n = length (BlockIDs h)"
  have n: "n \<le> unat mx" "0 < n" using ok by (simp_all add: history_ok_def n_def)
  have "unat (of_nat (Suc n) :: u64) = Suc n" using n assms(3) by (intro length_u64) simp
  then have gt: "(of_nat (Suc n) :: u64) > mx \<longleftrightarrow> Suc n > unat mx" by (simp add: word_less_nat_alt)
  have new': "\<not> (\<exists>x \<in> set (BlockIDs h). id_Hash x = id_Hash e)" using new by (auto simp: image_iff)
  have tl: "drop (Suc 0) (BlockIDs h @ [e]) = tl (BlockIDs h) @ [e]"
    using n(2) by (cases "BlockIDs h") (auto simp: n_def)
  show ?thesis
    using gt n new' tl unfolding History_AppendEntry_def Let_def
    by (auto simp: n_def [symmetric])
qed

lemma history_append_old:
  "id_Hash e \<in> id_Hash ` set (BlockIDs h) \<Longrightarrow> History_AppendEntry h e mx = h"
  by (force simp: History_AppendEntry_def)

lemma history_append_ok:
  assumes "history_ok mx h" and "id_Hash e \<notin> id_Hash ` set (BlockIDs h)" and "unat mx < 2 ^ 64 - 1"
  shows "history_ok mx (History_AppendEntry h e mx)" and "History_LatestID (History_AppendEntry h e mx) = Ok e"
proof -
  have "distinct (map id_Hash (tl (BlockIDs h)))" "set (tl (BlockIDs h)) \<subseteq> set (BlockIDs h)" "BlockIDs h \<noteq> []"
    using assms(1) by (simp_all add: history_ok_def map_tl distinct_tl list.set_sel(2) subsetI)
  moreover have "length (BlockIDs h) = unat mx \<Longrightarrow> Suc (unat mx - Suc 0) \<le> unat mx"
    using assms(1) by (cases "BlockIDs h") (auto simp: history_ok_def)
  ultimately show "history_ok mx (History_AppendEntry h e mx)" "History_LatestID (History_AppendEntry h e mx) = Ok e"
    using assms(1,2) history_append_new [OF assms] unfolding history_ok_def History_LatestID_def by auto
qed

text \<open>C27: \<open>AppendEntry\<close> keeps the history well formed, and it is a bounded queue without duplicates: a
  new block becomes the latest and pushes out the oldest one once \<open>maxEntries\<close> is reached; a block that is already there
  changes nothing, so it does not become the latest again.\<close>

theorem history_append:
  assumes "history_ok mx h" and "unat mx < 2 ^ 64 - 1"
  shows "history_ok mx (History_AppendEntry h e mx) \<and>
    (if id_Hash e \<in> id_Hash ` set (BlockIDs h) then History_AppendEntry h e mx = h
     else History_LatestID (History_AppendEntry h e mx) = Ok e \<and>
       BlockIDs (History_AppendEntry h e mx) =
         (if length (BlockIDs h) = unat mx then tl (BlockIDs h) @ [e] else BlockIDs h @ [e]))"
  using history_append_ok [OF assms(1) _ assms(2)] history_append_new [OF assms(1) _ assms(2)] history_append_old assms(1)
  by auto

theorem history_append_witness:
  "history_ok 2 \<lparr>BlockIDs = [\<lparr>id_Hash = 1, id_Number = 0\<rparr>, \<lparr>id_Hash = 2, id_Number = 5\<rparr>]\<rparr> \<and>
   BlockIDs (History_AppendEntry \<lparr>BlockIDs = [\<lparr>id_Hash = 1, id_Number = 0\<rparr>, \<lparr>id_Hash = 2, id_Number = 5\<rparr>]\<rparr> \<lparr>id_Hash = 3, id_Number = 9\<rparr> 2) =
     [\<lparr>id_Hash = 2, id_Number = 5\<rparr>, \<lparr>id_Hash = 3, id_Number = 9\<rparr>]"
proof -
  let ?h = "\<lparr>BlockIDs = [\<lparr>id_Hash = 1, id_Number = 0\<rparr>, \<lparr>id_Hash = 2, id_Number = 5\<rparr>]\<rparr>"
  have ok: "history_ok 2 ?h" by (simp add: history_ok_def)
  from history_append [OF ok, of "\<lparr>id_Hash = 3, id_Number = 9\<rparr>"] ok show ?thesis by simp
qed

text \<open>The latest block comes first among the ancestors, and the order is that of submission: with a
  reorganisation to a lower block it is not the descending order of block numbers that the sort is
  meant to give.\<close>

lemma Ancestors_latest_first:
  "History_LatestID h = Ok e \<Longrightarrow> History_Ancestors h \<noteq> [] \<and> hd (History_Ancestors h) = id_Hash e"
  by (auto simp: History_LatestID_def History_Ancestors_def last_map hd_rev split: if_splits)

theorem Ancestors_not_sorted:
  "\<exists>h. history_ok 600 h \<and> History_Ancestors h \<noteq> rev (map id_Hash (sort_key id_Number (BlockIDs h)))"
proof -
  let ?h = "\<lparr>BlockIDs = [\<lparr>id_Hash = 1, id_Number = 0\<rparr>, \<lparr>id_Hash = 2, id_Number = 9\<rparr>, \<lparr>id_Hash = 3, id_Number = 5\<rparr>]\<rparr>"
  have "history_ok 600 ?h" by (simp add: history_ok_def)
  moreover have "History_Ancestors ?h \<noteq> rev (map id_Hash (sort_key id_Number (BlockIDs ?h)))"
    by (simp add: History_Ancestors_def)
  ultimately show ?thesis by blast
qed

section \<open>The database as an interface\<close>

text \<open>What the batch submitter relies on: a successful append is seen by the next load.\<close>

locale history_database =
  fixes db_ok :: "'d \<Rightarrow> bool" and load :: "'d \<Rightarrow> ('w, History) rpc" and append_entry :: "'d \<Rightarrow> BlockID \<Rightarrow> ('w, unit) rpc"
    and limit :: "'d \<Rightarrow> u64"
  assumes load_pure: "load d w = (r, w') \<Longrightarrow> w' = w"
    and load_append: "db_ok d \<Longrightarrow> append_entry d e w = (Ok u, w') \<Longrightarrow>
      \<exists>h. load d w = (Ok h, w) \<and> load d w' = (Ok (History_AppendEntry h e (limit d)), w')"
    and append_fails: "append_entry d e w = (Err x, w') \<Longrightarrow> w' = w"
begin

text \<open>After appending a new block to a well-formed history, a load finds it as the latest one.\<close>

lemma latest_after_append:
  assumes "db_ok d" and "load d w = (Ok h, w)" and "append_entry d e w = (Ok u, w')"
    and "history_ok (limit d) h" and "unat (limit d) < 2 ^ 64 - 1" and "id_Hash e \<notin> id_Hash ` set (BlockIDs h)"
  shows "\<exists>h'. load d w' = (Ok h', w') \<and> history_ok (limit d) h' \<and> History_LatestID h' = Ok e"
proof -
  from load_append [OF assms(1,3)] assms(2)
  have l: "load d w' = (Ok (History_AppendEntry h e (limit d)), w')" by auto
  with history_append_ok [OF assms(4,6,5)] show ?thesis by blast
qed

end

definition json_ok :: "json_lib \<Rightarrow> bool" where
  "json_ok J \<longleftrightarrow> (\<forall>h b. json_Marshal J h = Inr b \<longrightarrow> b \<noteq> [] \<and> json_Unmarshal J b = Inr h)"

lemma LoadHistory_pure: "LoadHistory d w = (r, w') \<Longrightarrow> w' = w"
  by (auto simp: LoadHistory_def ReadFile_def rbind_def split: option.splits if_splits sum.splits)

lemma LoadHistory_readable:
  "LoadHistory d w = (Ok h, w') \<Longrightarrow> fs_read_err w (db_filename d) = None"
  by (auto simp: LoadHistory_def ReadFile_def rbind_def split: option.splits if_splits sum.splits)

lemma LoadHistory_written:
  assumes "json_ok (db_json d)" and "fs_read_err w (db_filename d) = None"
    and "json_Marshal (db_json d) h = Inr b"
  shows "LoadHistory d (w\<lparr>fs_files := (fs_files w)(db_filename d \<mapsto> b)\<rparr>) = (Ok h, w\<lparr>fs_files := (fs_files w)(db_filename d \<mapsto> b)\<rparr>)"
proof -
  have "b \<noteq> [] \<and> json_Unmarshal (db_json d) b = Inr h" using assms(1,3) by (auto simp: json_ok_def)
  then show ?thesis using assms(2) by (simp add: LoadHistory_def ReadFile_def rbind_def)
qed

lemma DB_AppendEntry_Ok:
  assumes "DB_AppendEntry d e w = (Ok u, w')"
  shows "\<exists>h b. LoadHistory d w = (Ok h, w) \<and> json_Marshal (db_json d) (History_AppendEntry h e (db_maxEntries d)) = Inr b \<and>
    w' = w\<lparr>fs_files := (fs_files w)(db_filename d \<mapsto> b)\<rparr>"
proof -
  from assms obtain h w1 b where l: "LoadHistory d w = (Ok h, w1)"
    and "json_Marshal (db_json d) (History_AppendEntry h e (db_maxEntries d)) = Inr b"
    and "WriteFile (db_filename d) b w1 = (Ok u, w')"
    by (auto simp: DB_AppendEntry_def rbind_Ok_iff split: sum.splits)
  with LoadHistory_pure [OF l] show ?thesis by (auto simp: WriteFile_def split: option.splits)
qed

interpretation json_db: history_database "\<lambda>d. json_ok (db_json d)" LoadHistory DB_AppendEntry db_maxEntries
proof unfold_locales
  fix d e w u w' assume "json_ok (db_json d)" and "DB_AppendEntry d e w = (Ok u, w')"
  then show "\<exists>h. LoadHistory d w = (Ok h, w) \<and> LoadHistory d w' = (Ok (History_AppendEntry h e (db_maxEntries d)), w')"
    using DB_AppendEntry_Ok [of d e w u w'] LoadHistory_written LoadHistory_readable by blast
next
  fix d e w x w' assume "DB_AppendEntry d e w = (Err x, w')"
  then show "w' = w"
    by (auto simp: DB_AppendEntry_def LoadHistory_def ReadFile_def WriteFile_def rbind_def
        split: option.splits if_splits sum.splits prod.splits res.splits)
qed (rule LoadHistory_pure)

text \<open>A new block that was appended to the database file is the latest block of the next load, and the
  loaded history is well formed again; a failed append leaves the file as it was.\<close>

theorem history_db_roundtrip:
  assumes "json_ok (db_json d)" and "LoadHistory d w = (Ok h, w)"
    and "history_ok (db_maxEntries d) h" and "unat (db_maxEntries d) < 2 ^ 64 - 1" and "id_Hash e \<notin> id_Hash ` set (BlockIDs h)"
  shows "(DB_AppendEntry d e w = (Ok u, w') \<longrightarrow>
      (\<exists>h'. LoadHistory d w' = (Ok h', w') \<and> history_ok (db_maxEntries d) h' \<and> History_LatestID h' = Ok e)) \<and>
    (DB_AppendEntry d e w = (Err x, w') \<longrightarrow> w' = w)"
  using json_db.latest_after_append [OF assms(1,2) _ assms(3-5)] json_db.append_fails by blast

text \<open>A concrete codec for histories of small numbers, two bytes for each block.\<close>

fun demo_ids :: "bytes \<Rightarrow> BlockID list" where
  "demo_ids (a # b # bs) = \<lparr>id_Hash = ucast a, id_Number = ucast b\<rparr> # demo_ids bs"
| "demo_ids bs = []"

definition demo_json :: json_lib where
  "demo_json = \<lparr>json_Marshal = (\<lambda>h.
       if \<forall>i \<in> set (BlockIDs h). ucast (ucast (id_Hash i) :: byte) = id_Hash i \<and> ucast (ucast (id_Number i) :: byte) = id_Number i
       then Inr (1 # concat (map (\<lambda>i. [ucast (id_Hash i), ucast (id_Number i)]) (BlockIDs h)))
       else Inl (ErrMsg ''too large'')),
     json_Unmarshal = (\<lambda>b. Inr \<lparr>BlockIDs = demo_ids (tl b)\<rparr>)\<rparr>"

lemma demo_json_ok: "json_ok demo_json"
proof -
  have "demo_ids (concat (map (\<lambda>i. [ucast (id_Hash i), ucast (id_Number i)]) ids)) = ids"
    if "\<forall>i \<in> set ids. ucast (ucast (id_Hash i) :: byte) = id_Hash i \<and> ucast (ucast (id_Number i) :: byte) = id_Number i" for ids
    using that by (induction ids) auto
  then show ?thesis by (auto simp: json_ok_def demo_json_def)
qed

definition demo_db :: JSONFileDatabase where
  "demo_db = \<lparr>db_filename = ''history.json'', db_maxEntries = 600, db_genesisHash = 2, db_json = demo_json\<rparr>"

definition demo_fs :: fs where
  "demo_fs = \<lparr>fs_files = [''history.json'' \<mapsto> []], fs_read_err = (\<lambda>_. None), fs_write_err = (\<lambda>_. None)\<rparr>"

lemma demo_load: "LoadHistory demo_db demo_fs = (Ok \<lparr>BlockIDs = [\<lparr>id_Hash = 2, id_Number = 0\<rparr>]\<rparr>, demo_fs)"
  by (simp add: LoadHistory_def ReadFile_def rbind_def demo_db_def demo_fs_def)

theorem history_db_roundtrip_witness:
  "\<exists>w' h'. DB_AppendEntry demo_db \<lparr>id_Hash = 7, id_Number = 4\<rparr> demo_fs = (Ok (), w') \<and>
     LoadHistory demo_db w' = (Ok h', w') \<and> History_LatestID h' = Ok \<lparr>id_Hash = 7, id_Number = 4\<rparr>"
proof -
  let ?e = "\<lparr>id_Hash = 7, id_Number = 4\<rparr>"
  obtain w' where w': "DB_AppendEntry demo_db ?e demo_fs = (Ok (), w')"
    by (simp add: DB_AppendEntry_def demo_load rbind_def History_AppendEntry_def)
       (simp add: WriteFile_def demo_db_def demo_json_def demo_fs_def)
  have "history_ok (db_maxEntries demo_db) \<lparr>BlockIDs = [\<lparr>id_Hash = 2, id_Number = 0\<rparr>]\<rparr>"
    by (simp add: history_ok_def demo_db_def)
  from history_db_roundtrip [OF _ demo_load this, of ?e "()" w' undefined] w' demo_json_ok
  show ?thesis by (auto simp: demo_db_def)
qed

end
