(* ===== verification/Sequencer.thy ===== *)
theory Sequencer
  imports Service History NodeAPI
begin

text \<open>
  The driver of the batch submitter (\<open>op-batcher/sequencer/driver.go\<close>). Its world has the field
  \<open>currentBatch\<close>, the file system with the history file, and the network. The rollup client and the
  L1 client are network calls; transaction signing and the intrinsic gas are go-ethereum's. The
  driver is an instance of the interface \<open>Driver\<close> and meets its contract; together with the API of
  the rollup node it submits every L2 block exactly once as long as the L2 chain does not change.
\<close>

record DynamicFeeTx =
  raw_ChainID :: int
  raw_Nonce :: u64
  raw_To :: "address option"
  raw_GasTipCap :: int
  raw_GasFeeCap :: int
  raw_Gas :: u64
  raw_Data :: bytes

record 'n seq_config =
  sc_Name :: string
  sc_walletAddr :: address
  sc_MinL1TxSize :: u64
  sc_MaxL1TxSize :: u64
  sc_BatchInboxAddress :: address
  sc_HistoryDB :: JSONFileDatabase
  sc_ChainID :: int
  sc_GetBatchBundle :: "BatchBundleRequest \<Rightarrow> ('n, BatchBundleResponse option) rpc"
  sc_SuggestGasTipCap :: "('n, int) rpc"
  sc_HeaderByNumber :: "('n, Header) rpc"
  sc_SendTransaction :: "Transaction \<Rightarrow> ('n, unit) rpc"
  sc_IntrinsicGas :: "bytes \<Rightarrow> error + u64"
  sc_SignNewTx :: "DynamicFeeTx \<Rightarrow> error + Transaction"

record 'n seq_world =
  sw_currentBatch :: "BatchBundleResponse option"
  sw_fs :: fs
  sw_net :: 'n

definition on_fs :: "(fs, 'a) rpc \<Rightarrow> ('n seq_world, 'a) rpc" where
  "on_fs m w = (case m (sw_fs w) of (r, f) \<Rightarrow> (r, w\<lparr>sw_fs := f\<rparr>))"

definition on_net :: "('n, 'a) rpc \<Rightarrow> ('n seq_world, 'a) rpc" where
  "on_net m w = (case m (sw_net w) of (r, n) \<Rightarrow> (r, w\<lparr>sw_net := n\<rparr>))"

definition set_currentBatch :: "BatchBundleResponse option \<Rightarrow> ('n seq_world, unit) rpc" where
  "set_currentBatch b w = (Ok (), w\<lparr>sw_currentBatch := b\<rparr>)"

text \<open>\<open>d.currentBatch.Bundle\<close> and its other fields: a nil pointer panics.\<close>

definition get_currentBatch :: "('n seq_world, BatchBundleResponse) rpc" where
  "get_currentBatch w = (case sw_currentBatch w of None \<Rightarrow> (Panic ''nil pointer dereference'', w) | Some b \<Rightarrow> (Ok b, w))"

lemma on_fs_Ok_iff [simp]: "on_fs m w = (Ok x, w') \<longleftrightarrow> (\<exists>f. m (sw_fs w) = (Ok x, f) \<and> w' = w\<lparr>sw_fs := f\<rparr>)"
  by (auto simp: on_fs_def split: prod.splits)

lemma on_net_Ok_iff [simp]: "on_net m w = (Ok x, w') \<longleftrightarrow> (\<exists>n. m (sw_net w) = (Ok x, n) \<and> w' = w\<lparr>sw_net := n\<rparr>)"
  by (auto simp: on_net_def split: prod.splits)

section \<open>Operations\<close>

definition bundle_request :: "'n seq_config \<Rightarrow> History \<Rightarrow> BatchBundleRequest" where
  "bundle_request cfg history = \<lparr>req_L2History = History_Ancestors history,
     req_MinSize = sc_MinL1TxSize cfg, req_MaxSize = sc_MaxL1TxSize cfg\<rparr>"

definition seq_GetBlockRange :: "'n seq_config \<Rightarrow> ('n seq_world, int \<times> int) rpc" where
  "seq_GetBlockRange cfg =
     rbind (set_currentBatch None) (\<lambda>_.
     rbind (on_fs (LoadHistory (sc_HistoryDB cfg))) (\<lambda>history.
     rbind (lift_res (History_LatestID history)) (\<lambda>latestBlockID.
     rbind (on_net (sc_GetBatchBundle cfg (bundle_request cfg history))) (\<lambda>resp.
     case resp of
       None \<Rightarrow> (let start = sint (id_Number latestBlockID + 1) in ret (start, start))
     | Some batchResp \<Rightarrow>
         (let start = sint (rsp_PrevL2BlockNum batchResp + 1) in
          if rsp_LastL2BlockHash batchResp = rsp_PrevL2BlockHash batchResp then ret (start, start)
          else if rsp_Bundle batchResp = [] then
            rbind (on_fs (DB_AppendEntry (sc_HistoryDB cfg)
               \<lparr>id_Hash = rsp_LastL2BlockHash batchResp, id_Number = rsp_LastL2BlockNum batchResp\<rparr>)) (\<lambda>_.
            let nxt = sint (rsp_LastL2BlockNum batchResp + 1) in ret (nxt, nxt))
          else rbind (set_currentBatch (Some batchResp)) (\<lambda>_.
            ret (start, sint (rsp_LastL2BlockNum batchResp + 1))))))))"

text \<open>The fees of both \<open>CraftTx\<close> and \<open>UpdateGasPrice\<close>; a header without base fee panics in \<open>big.Int.Mul\<close>.\<close>

definition gas_fees :: "'n seq_config \<Rightarrow> ('n seq_world, int \<times> int) rpc" where
  "gas_fees cfg =
     rbind (on_net (sc_SuggestGasTipCap cfg)) (\<lambda>gasTipCap.
     rbind (on_net (sc_HeaderByNumber cfg)) (\<lambda>head.
     case h_BaseFee head of
       None \<Rightarrow> lift_res (Panic ''nil pointer dereference'')
     | Some baseFee \<Rightarrow> ret (gasTipCap, CalcGasFeeCap baseFee gasTipCap)))"

definition seq_CraftTx :: "'n seq_config \<Rightarrow> int \<Rightarrow> int \<Rightarrow> int \<Rightarrow> ('n seq_world, Transaction) rpc" where
  "seq_CraftTx cfg start stop nonce =
     rbind (gas_fees cfg) (\<lambda>(gasTipCap, gasFeeCap).
     rbind get_currentBatch (\<lambda>currentBatch.
     rbind (lift_res (of_sum (sc_IntrinsicGas cfg (rsp_Bundle currentBatch)))) (\<lambda>gas.
     lift_res (of_sum (sc_SignNewTx cfg
       \<lparr>raw_ChainID = sc_ChainID cfg, raw_Nonce = of_int nonce, raw_To = Some (sc_BatchInboxAddress cfg),
        raw_GasTipCap = gasTipCap, raw_GasFeeCap = gasFeeCap, raw_Gas = gas, raw_Data = rsp_Bundle currentBatch\<rparr>)))))"

definition seq_UpdateGasPrice :: "'n seq_config \<Rightarrow> Transaction \<Rightarrow> ('n seq_world, Transaction) rpc" where
  "seq_UpdateGasPrice cfg tx =
     rbind (gas_fees cfg) (\<lambda>(gasTipCap, gasFeeCap).
     lift_res (of_sum (sc_SignNewTx cfg
       \<lparr>raw_ChainID = sc_ChainID cfg, raw_Nonce = tx_Nonce tx, raw_To = tx_To tx,
        raw_GasTipCap = gasTipCap, raw_GasFeeCap = gasFeeCap, raw_Gas = tx_Gas tx, raw_Data = tx_Data tx\<rparr>)))"

definition seq_SendTransaction :: "'n seq_config \<Rightarrow> Transaction \<Rightarrow> ('n seq_world, unit) rpc" where
  "seq_SendTransaction cfg tx =
     rbind get_currentBatch (\<lambda>currentBatch.
     rbind (on_fs (DB_AppendEntry (sc_HistoryDB cfg)
        \<lparr>id_Hash = rsp_LastL2BlockHash currentBatch, id_Number = rsp_LastL2BlockNum currentBatch\<rparr>)) (\<lambda>_.
     on_net (sc_SendTransaction cfg tx)))"

definition seq_driver :: "'n seq_config \<Rightarrow> 'n seq_world Driver" where
  "seq_driver cfg = \<lparr>drv_Name = sc_Name cfg, drv_WalletAddr = sc_walletAddr cfg,
     drv_GetBlockRange = seq_GetBlockRange cfg, drv_CraftTx = seq_CraftTx cfg,
     drv_UpdateGasPrice = seq_UpdateGasPrice cfg, drv_SendTransaction = seq_SendTransaction cfg\<rparr>"

text \<open>\<open>NewBatchSubmitter\<close> opens the history with 600 entries.\<close>

definition batch_submitter_db :: "json_lib \<Rightarrow> string \<Rightarrow> hash \<Rightarrow> (fs, JSONFileDatabase) rpc" where
  "batch_submitter_db J filename genesisHash = OpenJSONFileDatabase J filename 600 genesisHash"

section \<open>The contract of the driver\<close>

text \<open>Signing keeps the fields of the transaction.\<close>

definition signer_ok :: "'n seq_config \<Rightarrow> bool" where
  "signer_ok cfg \<longleftrightarrow> (\<forall>rawTx tx. sc_SignNewTx cfg rawTx = Inr tx \<longrightarrow>
     tx_Nonce tx = raw_Nonce rawTx \<and> tx_To tx = raw_To rawTx \<and> tx_Data tx = raw_Data rawTx \<and> tx_Gas tx = raw_Gas rawTx)"

lemma seq_CraftTx_Ok:
  assumes "seq_CraftTx cfg start stop nonce w = (Ok tx, w')"
  shows "\<exists>b tip fee gas. sw_currentBatch w = Some b \<and> sc_IntrinsicGas cfg (rsp_Bundle b) = Inr gas \<and>
    sc_SignNewTx cfg \<lparr>raw_ChainID = sc_ChainID cfg, raw_Nonce = of_int nonce, raw_To = Some (sc_BatchInboxAddress cfg),
        raw_GasTipCap = tip, raw_GasFeeCap = fee, raw_Gas = gas, raw_Data = rsp_Bundle b\<rparr> = Inr tx"
  using assms
  by (auto simp: seq_CraftTx_def gas_fees_def get_currentBatch_def rbind_Ok_iff split: option.splits) blast

lemma seq_UpdateGasPrice_Ok:
  assumes "seq_UpdateGasPrice cfg tx w = (Ok tx', w')"
  shows "\<exists>tip fee. sc_SignNewTx cfg \<lparr>raw_ChainID = sc_ChainID cfg, raw_Nonce = tx_Nonce tx, raw_To = tx_To tx,
        raw_GasTipCap = tip, raw_GasFeeCap = fee, raw_Gas = tx_Gas tx, raw_Data = tx_Data tx\<rparr> = Inr tx'"
  using assms by (auto simp: seq_UpdateGasPrice_def rbind_Ok_iff)

interpretation seq: driver_contract signer_ok seq_driver
proof unfold_locales
  fix d start stop nonce w tx w'
  assume "signer_ok d" and "drv_CraftTx (seq_driver d) start stop nonce w = (Ok tx, w')"
  then show "tx_Nonce tx = of_int nonce"
    using seq_CraftTx_Ok [of d start stop nonce w tx w'] by (auto simp: seq_driver_def signer_ok_def)
next
  fix d start stop nonce w tx w' w1 tx' w2
  assume "signer_ok d" and "drv_UpdateGasPrice (seq_driver d) tx w1 = (Ok tx', w2)"
  then show "tx_Nonce tx' = tx_Nonce tx \<and> tx_To tx' = tx_To tx \<and> tx_Data tx' = tx_Data tx"
    using seq_UpdateGasPrice_Ok [of d tx w1 tx' w2] by (auto simp: seq_driver_def signer_ok_def)
qed

lemma seq_GetBlockRange_batch:
  assumes "seq_GetBlockRange cfg w = (Ok (start, stop), w')" and "start \<noteq> stop"
  shows "\<exists>h b f n e. LoadHistory (sc_HistoryDB cfg) (sw_fs w) = (Ok h, f) \<and> History_LatestID h = Ok e \<and>
    sc_GetBatchBundle cfg (bundle_request cfg h) (sw_net w) = (Ok (Some b), n) \<and>
    w' = w\<lparr>sw_currentBatch := Some b, sw_fs := f, sw_net := n\<rparr> \<and> rsp_Bundle b \<noteq> [] \<and>
    start = sint (rsp_PrevL2BlockNum b + 1) \<and> stop = sint (rsp_LastL2BlockNum b + 1)"
  using assms
  by (auto simp: seq_GetBlockRange_def set_currentBatch_def rbind_Ok_iff Let_def split: option.splits if_splits)

section \<open>Submission of every L2 block\<close>

text \<open>The wiring of \<open>NewBatchSubmitter\<close>: the L1 client of the service only touches the network.\<close>

definition seq_service :: "'n seq_config \<Rightarrow> 'n l1_backend \<Rightarrow> u64 \<Rightarrow> u64 \<Rightarrow> 'n seq_world ServiceConfig" where
  "seq_service cfg l1 numConfirmations safeAbort = \<lparr>svc_Driver = seq_driver cfg,
     svc_L1Client = \<lparr>be_NonceAt = (\<lambda>a. on_net (be_NonceAt l1 a)),
       be_TransactionReceipt = (\<lambda>h w. case be_TransactionReceipt l1 h (sw_net w) of (r, n) \<Rightarrow> (r, w\<lparr>sw_net := n\<rparr>)),
       be_BlockNumber = on_net (be_BlockNumber l1)\<rparr>,
     svc_NumConfirmations = numConfirmations, svc_SafeAbortNonceTooLowCount = safeAbort\<rparr>"

lemma seq_prepare:
  assumes "signer_ok cfg" and "prepare (seq_service cfg l1 nc k) w = (Ok (Some tx), w')"
  shows "\<exists>h b f n e. LoadHistory (sc_HistoryDB cfg) (sw_fs w) = (Ok h, f) \<and> History_LatestID h = Ok e \<and>
    sc_GetBatchBundle cfg (bundle_request cfg h) (sw_net w) = (Ok (Some b), n) \<and> rsp_Bundle b \<noteq> [] \<and>
    tx_Data tx = rsp_Bundle b \<and> tx_To tx = Some (sc_BatchInboxAddress cfg)"
proof -
  from assms(2) obtain start stop wa n0 wb where
    range: "seq_GetBlockRange cfg w = (Ok (start, stop), wa)" "start \<noteq> stop"
    and nonce: "on_net (be_NonceAt l1 (sc_walletAddr cfg)) wa = (Ok n0, wb)"
    and craft: "seq_CraftTx cfg start stop (uint n0) wb = (Ok tx, w')"
    by (auto simp: prepare_def rbind_Ok_iff seq_service_def seq_driver_def split: if_splits)
  from seq_GetBlockRange_batch [OF range] obtain h b f n e where
    h: "LoadHistory (sc_HistoryDB cfg) (sw_fs w) = (Ok h, f)" "History_LatestID h = Ok e"
      "sc_GetBatchBundle cfg (bundle_request cfg h) (sw_net w) = (Ok (Some b), n)" "rsp_Bundle b \<noteq> []"
    and wa: "sw_currentBatch wa = Some b" by auto
  have "sw_currentBatch wb = Some b" using nonce wa by auto
  with seq_CraftTx_Ok [OF craft] assms(1) have "tx_Data tx = rsp_Bundle b \<and> tx_To tx = Some (sc_BatchInboxAddress cfg)"
    unfolding signer_ok_def by fastforce
  with h show ?thesis by blast
qed

text \<open>What the batch submitter puts on L1. When an iteration of the service publishes, every version of
  the transaction goes to the batch inbox, carries the nonce that L1 reported for the wallet, and its data, decoded as the
  derivation pipeline decodes it, is exactly the list of batches of the canonical L2 blocks that follow a
  block of the history, in order and without a gap.\<close>

theorem submitted_batches:
  assumes "signer_ok cfg" and "rlp_batch_ok R"
    and "\<And>req n b n'. sc_GetBatchBundle cfg req n = (Ok b, n') \<Longrightarrow> GetBatchBundle G H R (readonly_client H c genesis) req n = (Ok b, n')"
    and "l2_view H c (sw_net w) chain" and "tick (seq_service cfg l1 nc k) w (Sent tx s r) w'" and "tx' \<in> set (t_published s)"
  shows "tx_To tx' = Some (sc_BatchInboxAddress cfg) \<and>
    (\<exists>w1 w2. be_NonceAt l1 (sc_walletAddr cfg) w1 = (Ok (tx_Nonce tx'), w2)) \<and>
    (\<exists>h e prev blocks batches. LoadHistory (sc_HistoryDB cfg) (sw_fs w) = (Ok h, sw_fs w) \<and> e \<in> set (BlockIDs h) \<and>
       common_point H chain (History_Ancestors h) prev \<and> id_Hash prev = id_Hash e \<and> length blocks \<le> 100 \<and>
       map (\<lambda>i. chain (id_Number prev + of_nat i)) [1..<Suc (length blocks)] = map Some blocks \<and>
       map (BlockToBatch G) blocks = map Inr batches \<and>
       DecodeBatches R (tx_Data tx') = Inr (List.map_filter id batches) \<and>
       (of_nat (length (tx_Data tx')) :: u64) \<le> sc_MaxL1TxSize cfg)"
proof -
  let ?S = "seq_service cfg l1 nc k"
  have drv: "svc_Driver ?S = seq_driver cfg" by (simp add: seq_service_def)
  note pub = seq.published_versions [OF assms(1) drv assms(5,6)]
  from assms(5) obtain w0 where prep: "prepare ?S w = (Ok (Some tx), w0)" by (auto elim: tick_SentE)
  from seq_prepare [OF assms(1) prep] obtain h b f n where
    h: "LoadHistory (sc_HistoryDB cfg) (sw_fs w) = (Ok h, f)"
    and call: "sc_GetBatchBundle cfg (bundle_request cfg h) (sw_net w) = (Ok (Some b), n)" and ne: "rsp_Bundle b \<noteq> []"
    and tx: "tx_Data tx = rsp_Bundle b" "tx_To tx = Some (sc_BatchInboxAddress cfg)" by blast
  from GetBatchBundle_sound [OF assms(4,2) assms(3) [OF call]] obtain blocks batches where
    bun: "length blocks \<le> 100"
      "common_point H chain (History_Ancestors h) \<lparr>id_Hash = rsp_PrevL2BlockHash b, id_Number = rsp_PrevL2BlockNum b\<rparr>"
      "map (\<lambda>i. chain (rsp_PrevL2BlockNum b + of_nat i)) [1..<Suc (length blocks)] = map Some blocks"
      "map (BlockToBatch G) blocks = map Inr batches"
      "DecodeBatches R (rsp_Bundle b) = Inr (List.map_filter id batches)"
      "(of_nat (length (rsp_Bundle b)) :: u64) \<le> sc_MaxL1TxSize cfg"
    using ne by (auto simp: bundle_request_def split: if_splits)
  have "rsp_PrevL2BlockHash b \<in> set (History_Ancestors h)"
    using bun(2) unfolding common_point_def by auto
  then obtain e where e: "e \<in> set (BlockIDs h)" "id_Hash e = rsp_PrevL2BlockHash b"
    by (auto simp: History_Ancestors_def)
  have "\<exists>w1 w2. be_NonceAt l1 (sc_walletAddr cfg) w1 = (Ok (tx_Nonce tx'), w2)"
    using pub by (auto simp: seq_service_def seq_driver_def)
  moreover have "f = sw_fs w" using LoadHistory_pure [OF h] .
  ultimately show ?thesis using pub tx bun e h
    by (intro conjI exI [of _ h] exI [of _ e] exI [of _ blocks] exI [of _ batches]
        exI [of _ "\<lparr>id_Hash = rsp_PrevL2BlockHash b, id_Number = rsp_PrevL2BlockNum b\<rparr>"]) simp_all
qed

text \<open>The history head decides where the next bundle starts.\<close>

lemma common_point_head:
  assumes view: "l2_view H c w chain" and "common_point H chain (h # hs) prev"
    and blk: "chain m = Some blk" "Block_Hash H blk = h"
  shows "id_Hash prev = h" and "id_Number prev = m"
proof -
  from assms(2) obtain pre post b where p: "h # hs = pre @ id_Hash prev # post" "\<forall>x \<in> set pre. \<not> canonical_hash H chain x"
    "chain (id_Number prev) = Some b" "Block_Hash H b = id_Hash prev"
    unfolding common_point_def by blast
  have "canonical_hash H chain h" using blk by (auto simp: canonical_hash_def)
  then have "pre = []" using p(1,2) by (cases pre) auto
  then show hash: "id_Hash prev = h" using p(1) by simp
  have look: "BlockByHash c (Block_Hash H x) w = (Ok x, w) \<and> Block_NumberU64 x = k" if "chain k = Some x" for k x
    using view that by (simp add: l2_view_def)
  have "(Ok blk, w) = (Ok b, w)" using look [OF blk(1)] look [OF p(3)] blk(2) p(4) hash by metis
  then show "id_Number prev = m" using look [OF blk(1)] look [OF p(3)] by simp
qed

lemma seq_SendTransaction_recorded:
  assumes "sw_currentBatch w = Some b" and "seq_SendTransaction cfg tx w = (r, w1)"
    and "DB_AppendEntry (sc_HistoryDB cfg) \<lparr>id_Hash = rsp_LastL2BlockHash b, id_Number = rsp_LastL2BlockNum b\<rparr> (sw_fs w) = (Ok u, f)"
  shows "sw_fs w1 = f"
  using assms by (auto simp: seq_SendTransaction_def get_currentBatch_def rbind_def on_fs_def on_net_def split: prod.splits)

text \<open>C21: Consecutive bundles join. After \<open>SendTransaction\<close> has recorded the last block of a bundle and
  while that block stays canonical, the next bundle that the driver gets starts right after it: no L2 block is
  submitted twice and none is left out between two submissions. This holds whatever the L1 node
  answered to the transaction.\<close>

theorem next_bundle_continues:
  assumes "json_ok (db_json (sc_HistoryDB cfg))" and "LoadHistory (sc_HistoryDB cfg) (sw_fs w) = (Ok h, sw_fs w)"
    and "history_ok (db_maxEntries (sc_HistoryDB cfg)) h" and "unat (db_maxEntries (sc_HistoryDB cfg)) < 2 ^ 64 - 1"
    and "rlp_batch_ok R" and "sc_GetBatchBundle cfg = GetBatchBundle G H R (readonly_client H c genesis)"
    and b: "sw_currentBatch w = Some b" "rsp_LastL2BlockHash b \<notin> id_Hash ` set (BlockIDs h)"
    and app: "DB_AppendEntry (sc_HistoryDB cfg) \<lparr>id_Hash = rsp_LastL2BlockHash b, id_Number = rsp_LastL2BlockNum b\<rparr> (sw_fs w) = (Ok u, f)"
    and send: "seq_SendTransaction cfg tx w = (r, w1)"
    and view: "l2_view H c (sw_net w1) chain"
    and canon: "chain (rsp_LastL2BlockNum b) = Some blk" "Block_Hash H blk = rsp_LastL2BlockHash b"
    and range: "seq_GetBlockRange cfg w1 = (Ok (start, stop), w2)" "start \<noteq> stop"
  shows "\<exists>b'. sw_currentBatch w2 = Some b' \<and> rsp_PrevL2BlockHash b' = rsp_LastL2BlockHash b \<and>
    rsp_PrevL2BlockNum b' = rsp_LastL2BlockNum b"
proof -
  let ?e = "\<lparr>id_Hash = rsp_LastL2BlockHash b, id_Number = rsp_LastL2BlockNum b\<rparr>"
  have fs: "sw_fs w1 = f" by (rule seq_SendTransaction_recorded [OF b(1) send app])
  from json_db.latest_after_append [OF assms(1,2) app assms(3,4)] b(2) obtain h' where
    h': "LoadHistory (sc_HistoryDB cfg) f = (Ok h', f)" "History_LatestID h' = Ok ?e" by auto
  then obtain hs where anc: "History_Ancestors h' = rsp_LastL2BlockHash b # hs"
    using Ancestors_latest_first [OF h'(2)] by (cases "History_Ancestors h'") auto
  from seq_GetBlockRange_batch [OF range] fs h'(1) obtain b' n where
    call: "sc_GetBatchBundle cfg (bundle_request cfg h') (sw_net w1) = (Ok (Some b'), n)" and "sw_currentBatch w2 = Some b'"
    by auto
  from GetBatchBundle_sound [OF view assms(5) call [unfolded assms(6)]]
  have "common_point H chain (rsp_LastL2BlockHash b # hs) \<lparr>id_Hash = rsp_PrevL2BlockHash b', id_Number = rsp_PrevL2BlockNum b'\<rparr>"
    by (auto simp: bundle_request_def anc)
  from common_point_head [OF view this canon] \<open>sw_currentBatch w2 = Some b'\<close> show ?thesis by simp
qed

text \<open>The block is recorded before the transaction is sent: when the L1 node refuses the transaction the
  history has the bundle's last block all the same, and by the theorem above its blocks are skipped.\<close>

theorem refused_send_is_recorded:
  assumes "json_ok (db_json (sc_HistoryDB cfg))" and "LoadHistory (sc_HistoryDB cfg) (sw_fs w) = (Ok h, sw_fs w)"
    and "history_ok (db_maxEntries (sc_HistoryDB cfg)) h" and "unat (db_maxEntries (sc_HistoryDB cfg)) < 2 ^ 64 - 1"
    and b: "sw_currentBatch w = Some b" "rsp_LastL2BlockHash b \<notin> id_Hash ` set (BlockIDs h)"
    and app: "DB_AppendEntry (sc_HistoryDB cfg) \<lparr>id_Hash = rsp_LastL2BlockHash b, id_Number = rsp_LastL2BlockNum b\<rparr> (sw_fs w) = (Ok u, f)"
    and refused: "sc_SendTransaction cfg tx (sw_net w) = (Err e, n)"
  shows "\<exists>w1 h'. seq_SendTransaction cfg tx w = (Err e, w1) \<and> LoadHistory (sc_HistoryDB cfg) (sw_fs w1) = (Ok h', sw_fs w1) \<and>
    History_LatestID h' = Ok \<lparr>id_Hash = rsp_LastL2BlockHash b, id_Number = rsp_LastL2BlockNum b\<rparr>"
proof -
  have "seq_SendTransaction cfg tx w = (Err e, w\<lparr>sw_fs := f, sw_net := n\<rparr>)"
    using b(1) app refused by (simp add: seq_SendTransaction_def get_currentBatch_def rbind_def on_fs_def on_net_def)
  moreover from json_db.latest_after_append [OF assms(1,2) app assms(3,4)] b(2) obtain h' where
    "LoadHistory (sc_HistoryDB cfg) f = (Ok h', f)"
    "History_LatestID h' = Ok \<lparr>id_Hash = rsp_LastL2BlockHash b, id_Number = rsp_LastL2BlockNum b\<rparr>" by auto
  ultimately show ?thesis by simp
qed

section \<open>A concrete batch submitter\<close>

definition demo_seq :: "unit seq_config" where
  "demo_seq = \<lparr>sc_Name = ''Batch Submitter'', sc_walletAddr = 7, sc_MinL1TxSize = 10, sc_MaxL1TxSize = 1000,
     sc_BatchInboxAddress = 8, sc_HistoryDB = demo_db, sc_ChainID = 900,
     sc_GetBatchBundle = GetBatchBundle demo_geth node_hlib demo_rlp (readonly_client node_hlib node_client (cfg_Genesis demo_config)),
     sc_SuggestGasTipCap = ret 1, sc_HeaderByNumber = ret (blk_Header (node_block 2 [])), sc_SendTransaction = (\<lambda>tx. ret ()),
     sc_IntrinsicGas = (\<lambda>d. Inr 21000),
     sc_SignNewTx = (\<lambda>r. Inr \<lparr>tx_Type = 2, tx_To = raw_To r, tx_Data = raw_Data r, tx_Nonce = raw_Nonce r, tx_Gas = raw_Gas r, tx_Hash = 33\<rparr>)\<rparr>"

definition demo_l1_backend :: "unit l1_backend" where
  "demo_l1_backend = \<lparr>be_NonceAt = (\<lambda>a. ret 5), be_TransactionReceipt = (\<lambda>h w. ((Some demo_mined, None), w)), be_BlockNumber = ret 20\<rparr>"

lemma demo_signer_ok: "signer_ok demo_seq"
  by (auto simp: signer_ok_def demo_seq_def)

lemma node_found_genesis: "find_common (readonly_client node_hlib node_client (cfg_Genesis demo_config)) (2 # hs) () =
    (Ok \<lparr>id_Hash = 2, id_Number = 0\<rparr>, ())"
proof -
  have "ec_L2BlockRefByNumber (readonly_client node_hlib node_client (cfg_Genesis demo_config)) (Some 0) () =
    (of_sum (blockToBlockRef node_hlib (node_block 0 []) (cfg_Genesis demo_config)), ())"
    using refByNumber_view [OF node_view, of "cfg_Genesis demo_config" 0] by (simp add: node_chain_def)
  then show ?thesis by (simp add: node_calls node_ref0)
qed

lemma demo_bundle:
  assumes "History_Ancestors h = 2 # hs"
  shows "\<exists>buf. sc_GetBatchBundle demo_seq (bundle_request demo_seq h) () =
    (Ok (Some \<lparr>rsp_PrevL2BlockHash = 2, rsp_PrevL2BlockNum = 0, rsp_LastL2BlockHash = 4, rsp_LastL2BlockNum = 2, rsp_Bundle = buf\<rparr>), ()) \<and> buf \<noteq> []"
proof -
  let ?req = "bundle_request demo_seq h"
  have "req_L2History ?req = 2 # hs" "req_MinSize ?req = 10" "req_MaxSize ?req = 1000"
    by (simp_all add: bundle_request_def demo_seq_def assms)
  moreover have "sc_GetBatchBundle demo_seq = GetBatchBundle demo_geth node_hlib demo_rlp (readonly_client node_hlib node_client (cfg_Genesis demo_config))"
    by (simp add: demo_seq_def)
  ultimately show ?thesis using node_bundle_run [of ?req] node_found_genesis [of hs] by (simp only:)
qed

lemma demo_range:
  assumes "LoadHistory demo_db (sw_fs w) = (Ok h, sw_fs w)" and "History_Ancestors h = 2 # hs"
  shows "\<exists>w1 b. seq_GetBlockRange demo_seq w = (Ok (1, 3), w1) \<and> sw_currentBatch w1 = Some b \<and> sw_fs w1 = sw_fs w \<and>
    rsp_LastL2BlockHash b = 4 \<and> rsp_LastL2BlockNum b = 2"
proof -
  from demo_bundle [OF assms(2)] obtain buf where buf: "sc_GetBatchBundle demo_seq (bundle_request demo_seq h) () =
    (Ok (Some \<lparr>rsp_PrevL2BlockHash = 2, rsp_PrevL2BlockNum = 0, rsp_LastL2BlockHash = 4, rsp_LastL2BlockNum = 2, rsp_Bundle = buf\<rparr>), ())" "buf \<noteq> []"
    by blast
  have db: "sc_HistoryDB demo_seq = demo_db" by (simp add: demo_seq_def)
  have "BlockIDs h \<noteq> []" using assms(2) by (auto simp: History_Ancestors_def)
  then have "History_LatestID h = Ok (last (BlockIDs h))" by (simp add: History_LatestID_def)
  with assms(1) buf show ?thesis
    by (simp add: seq_GetBlockRange_def set_currentBatch_def rbind_def on_fs_def on_net_def db Let_def)
qed

definition demo_seq_world :: "unit seq_world" where
  "demo_seq_world = \<lparr>sw_currentBatch = None, sw_fs = demo_fs, sw_net = ()\<rparr>"

lemma demo_prepare:
  "\<exists>tx w1 b. prepare (seq_service demo_seq demo_l1_backend 2 3) demo_seq_world = (Ok (Some tx), w1) \<and>
     sw_currentBatch w1 = Some b \<and> sw_fs w1 = demo_fs \<and> rsp_LastL2BlockHash b = 4 \<and> rsp_LastL2BlockNum b = 2 \<and> tx_Hash tx = 33"
proof -
  have "LoadHistory demo_db (sw_fs demo_seq_world) = (Ok \<lparr>BlockIDs = [\<lparr>id_Hash = 2, id_Number = 0\<rparr>]\<rparr>, sw_fs demo_seq_world)"
    using demo_load by (simp add: demo_seq_world_def)
  from demo_range [OF this, of "[]"] obtain w1 b where "seq_GetBlockRange demo_seq demo_seq_world = (Ok (1, 3), w1)"
    "sw_currentBatch w1 = Some b" "sw_fs w1 = demo_fs" "rsp_LastL2BlockHash b = 4" "rsp_LastL2BlockNum b = 2"
    by (auto simp: History_Ancestors_def demo_seq_world_def)
  then show ?thesis
    by (simp add: prepare_def seq_service_def seq_driver_def rbind_def demo_l1_backend_def on_net_def seq_CraftTx_def gas_fees_def
        get_currentBatch_def) (simp add: demo_seq_def node_block_def)
qed

lemma demo_append:
  "\<exists>f. DB_AppendEntry demo_db \<lparr>id_Hash = 4, id_Number = 2\<rparr> demo_fs = (Ok (), f)"
  by (simp add: DB_AppendEntry_def demo_load rbind_def History_AppendEntry_def)
     (simp add: WriteFile_def demo_db_def demo_json_def demo_fs_def)

lemma demo_update:
  "\<exists>tx' w'. seq_UpdateGasPrice demo_seq tx w = (Ok tx', w') \<and> tx_Hash tx' = 33 \<and> sw_currentBatch w' = sw_currentBatch w \<and> sw_fs w' = sw_fs w"
  by (simp add: seq_UpdateGasPrice_def gas_fees_def on_net_def rbind_def demo_seq_def node_block_def)

lemma demo_seq_send:
  assumes "sw_currentBatch w = Some b" and "sw_fs w = demo_fs" "rsp_LastL2BlockHash b = 4" "rsp_LastL2BlockNum b = 2"
  shows "\<exists>w'. seq_SendTransaction demo_seq tx w = (Ok (), w')"
proof -
  from demo_append obtain f where "DB_AppendEntry demo_db \<lparr>id_Hash = 4, id_Number = 2\<rparr> demo_fs = (Ok (), f)" by blast
  moreover have "sc_HistoryDB demo_seq = demo_db" "sc_SendTransaction demo_seq tx = ret ()" by (simp_all add: demo_seq_def)
  ultimately show ?thesis using assms
    by (simp add: seq_SendTransaction_def get_currentBatch_def rbind_def on_fs_def on_net_def)
qed

lemma demo_tick:
  "\<exists>tx s r w'. tick (seq_service demo_seq demo_l1_backend 2 3) demo_seq_world (Sent tx s r) w' \<and> t_published s \<noteq> []"
proof -
  let ?S = "seq_service demo_seq demo_l1_backend 2 3"
  obtain tx w1 b where prep: "prepare ?S demo_seq_world = (Ok (Some tx), w1)"
    and b: "sw_currentBatch w1 = Some b" "sw_fs w1 = demo_fs" "rsp_LastL2BlockHash b = 4" "rsp_LastL2BlockNum b = 2"
    using demo_prepare by blast
  obtain tx' w2 where upd: "seq_UpdateGasPrice demo_seq tx w1 = (Ok tx', w2)"
    and w2: "sw_currentBatch w2 = Some b" "sw_fs w2 = demo_fs" using demo_update [of tx w1] b by auto
  obtain w3 where snd: "seq_SendTransaction demo_seq tx' w2 = (Ok (), w3)" using demo_seq_send [OF w2 b(3,4)] by blast
  obtain st where st: "NewSendState 3 = Ok st" by (simp add: NewSendState_def)
  define ls :: "unit seq_world txm_label list" where "ls = [Sender 0, Sender 0, Sender 0, Sender 0, Sender 0, Receive]"
  obtain t where t: "txm_exec (send_env ?S tx) 2 ls (txm_start st w1) = Some t" and r: "t_ret t = Some (Ok demo_mined)"
    and pub: "t_published t = [tx']" and fin: "t_senders t = [Exited]"
    using upd snd
    by (auto simp: ls_def send_env_def seq_service_def seq_driver_def demo_l1_backend_def txm_start_def on_net_def
        confirmed_at_def demo_mined_def send_return_def)
  have "Send_run (send_env ?S tx) (svc_NumConfirmations ?S) (svc_SafeAbortNonceTooLowCount ?S) w1 t"
    using txm_exec_run [OF Send_run.start [OF st] t] by (simp add: seq_service_def)
  from tick.sent [OF prep this _ r] r fin pub show ?thesis by (force simp: send_finished_def)
qed

text \<open>The same submitter with a history that starts at another block, after a bundle up to the L2 genesis.\<close>

definition other_fs :: fs where
  "other_fs = demo_fs\<lparr>fs_files := [''history.json'' \<mapsto> [1, 9, 0]]\<rparr>"

definition other_world :: "unit seq_world" where
  "other_world = \<lparr>sw_currentBatch = Some \<lparr>rsp_PrevL2BlockHash = 9, rsp_PrevL2BlockNum = 0, rsp_LastL2BlockHash = 2, rsp_LastL2BlockNum = 0,
     rsp_Bundle = [1]\<rparr>, sw_fs = other_fs, sw_net = ()\<rparr>"

lemma other_load: "LoadHistory demo_db other_fs = (Ok \<lparr>BlockIDs = [\<lparr>id_Hash = 9, id_Number = 0\<rparr>]\<rparr>, other_fs)"
  by (simp add: LoadHistory_def ReadFile_def rbind_def demo_db_def other_fs_def demo_fs_def demo_json_def)

theorem next_bundle_continues_witness:
  "\<exists>tx w1 w2 b'. seq_SendTransaction demo_seq tx other_world = (Ok (), w1) \<and>
     seq_GetBlockRange demo_seq w1 = (Ok (1, 3), w2) \<and> sw_currentBatch w2 = Some b' \<and>
     rsp_PrevL2BlockHash b' = 2 \<and> rsp_PrevL2BlockNum b' = 0"
proof -
  let ?e = "\<lparr>id_Hash = 2, id_Number = 0\<rparr>"
  have db: "sc_HistoryDB demo_seq = demo_db" "db_json demo_db = demo_json" "db_maxEntries demo_db = 600"
    by (simp_all add: demo_seq_def demo_db_def)
  obtain f where app: "DB_AppendEntry demo_db ?e other_fs = (Ok (), f)"
    by (simp add: DB_AppendEntry_def other_load rbind_def History_AppendEntry_def)
       (simp add: WriteFile_def demo_db_def demo_json_def other_fs_def demo_fs_def)
  have load: "LoadHistory (sc_HistoryDB demo_seq) (sw_fs other_world) = (Ok \<lparr>BlockIDs = [\<lparr>id_Hash = 9, id_Number = 0\<rparr>]\<rparr>, sw_fs other_world)"
    using other_load by (simp add: db other_world_def)
  obtain w1 where send: "seq_SendTransaction demo_seq demo_tx other_world = (Ok (), w1)" and w1: "sw_fs w1 = f"
    using app by (simp add: seq_SendTransaction_def get_currentBatch_def rbind_def on_fs_def on_net_def other_world_def db) (simp add: demo_seq_def)
  have "\<exists>h hs. LoadHistory demo_db f = (Ok h, f) \<and> History_Ancestors h = 2 # hs"
    using json_db.load_append [OF _ app] demo_json_ok other_load by (auto simp: db History_AppendEntry_def History_Ancestors_def)
  then obtain w2 where range: "seq_GetBlockRange demo_seq w1 = (Ok (1, 3), w2)" using demo_range [of w1] w1 by blast
  have ok: "json_ok (db_json (sc_HistoryDB demo_seq))" using demo_json_ok by (simp add: db)
  define b where "b = the (sw_currentBatch other_world)"
  have b: "sw_currentBatch other_world = Some b" "rsp_LastL2BlockHash b = 2" "rsp_LastL2BlockNum b = 0"
    by (simp_all add: b_def other_world_def)
  have node: "sc_GetBatchBundle demo_seq = GetBatchBundle demo_geth node_hlib demo_rlp (readonly_client node_hlib node_client (cfg_Genesis demo_config))"
    by (simp add: demo_seq_def)
  have new: "rsp_LastL2BlockHash b \<notin> id_Hash ` set (BlockIDs \<lparr>BlockIDs = [\<lparr>id_Hash = 9, id_Number = 0\<rparr>]\<rparr>)" by (simp add: b)
  have app': "DB_AppendEntry (sc_HistoryDB demo_seq) \<lparr>id_Hash = rsp_LastL2BlockHash b, id_Number = rsp_LastL2BlockNum b\<rparr> (sw_fs other_world) = (Ok (), f)"
    using app by (simp add: db b other_world_def)
  have hok: "history_ok (db_maxEntries (sc_HistoryDB demo_seq)) \<lparr>BlockIDs = [\<lparr>id_Hash = 9, id_Number = 0\<rparr>]\<rparr>"
    and bound: "unat (db_maxEntries (sc_HistoryDB demo_seq)) < 2 ^ 64 - 1"
    by (simp_all add: db history_ok_def)
  have view: "l2_view node_hlib node_client (sw_net w1) node_chain" using node_view by simp
  have canon: "node_chain (rsp_LastL2BlockNum b) = Some (node_block 0 [])" "Block_Hash node_hlib (node_block 0 []) = rsp_LastL2BlockHash b"
    by (simp_all add: b node_chain_def node_hlib_def Block_Hash_def node_block_def)
  have "\<exists>b'. sw_currentBatch w2 = Some b' \<and> rsp_PrevL2BlockHash b' = 2 \<and> rsp_PrevL2BlockNum b' = 0"
    using next_bundle_continues [OF ok load hok bound demo_rlp_ok node b(1) new app' send view canon range] by (simp add: b)
  then show ?thesis using send range by blast
qed

end
