(* ===== verification/Proposer.thy ===== *)
theory Proposer
  imports Service NodeAPI
begin

text \<open>
  The driver of the output proposer (\<open>op-proposer/drivers/l2output/driver.go\<close>). It has no state of its
  own: its world is the network. The calls of the L2 output oracle contract go through generated
  bindings and go-ethereum's contract layer, which are parameters, as are the L1 and L2 clients and
  the rollup client. The driver is an instance of \<open>Driver\<close> and meets the contract of the service.
\<close>

record 'n prop_config =
  pc_Name :: string
  pc_walletAddr :: address
  pc_L2OOAddr :: address
  pc_LatestBlockTimestamp :: "('n, int) rpc"
  pc_ComputeL2BlockNumber :: "int \<Rightarrow> ('n, int) rpc"
  pc_NextTimestamp :: "('n, int) rpc"
  pc_AppendL2Output :: "int \<Rightarrow> hash \<Rightarrow> int \<Rightarrow> hash \<Rightarrow> int \<Rightarrow> ('n, Transaction) rpc"   \<comment> \<open>first argument: \<open>opts.Nonce\<close>\<close>
  pc_RawTransact :: "int \<Rightarrow> bytes \<Rightarrow> ('n, Transaction) rpc"
  pc_L1Header :: "('n, Header) rpc"                       \<comment> \<open>\<open>L1Client.HeaderByNumber(ctx, nil)\<close>\<close>
  pc_L2HeaderByNumber :: "int \<Rightarrow> ('n, Header) rpc"
  pc_OutputAtBlock :: "int \<Rightarrow> ('n, hash list) rpc"
  pc_Transactor :: "error + unit"                         \<comment> \<open>\<open>bind.NewKeyedTransactorWithChainID\<close>\<close>
  pc_SendTransaction :: "Transaction \<Rightarrow> ('n, unit) rpc"

definition supportedL2OutputVersion :: hash where
  "supportedL2OutputVersion = 0"

definition prop_GetBlockRange :: "'n prop_config \<Rightarrow> ('n, int \<times> int) rpc" where
  "prop_GetBlockRange cfg =
     rbind (pc_LatestBlockTimestamp cfg) (\<lambda>l2ooTimestamp.
     rbind (pc_ComputeL2BlockNumber cfg l2ooTimestamp) (\<lambda>latest.
     let start = latest + 1 in
     rbind (pc_NextTimestamp cfg) (\<lambda>nextTimestamp.
     rbind (pc_L1Header cfg) (\<lambda>latestHeader.
     let currentTimestamp = sint (h_Time latestHeader) in
     if currentTimestamp < nextTimestamp then ret (start, start)
     else rbind (pc_ComputeL2BlockNumber cfg nextTimestamp) (\<lambda>stop. ret (start, stop + 1))))))"

definition outputRootAtBlock :: "'n prop_config \<Rightarrow> int \<Rightarrow> ('n, hash) rpc" where
  "outputRootAtBlock cfg blockNum =
     rbind (pc_OutputAtBlock cfg blockNum) (\<lambda>out.
     if length out \<noteq> 2 then lift_res (Err (ErrMsg ''invalid outputAtBlock response''))
     else if out ! 0 \<noteq> supportedL2OutputVersion then lift_res (Err (ErrMsg ''unsupported l2 output version''))
     else ret (out ! 1))"

definition prop_CraftTx :: "header_lib \<Rightarrow> 'n prop_config \<Rightarrow> int \<Rightarrow> int \<Rightarrow> int \<Rightarrow> ('n, Transaction) rpc" where
  "prop_CraftTx H cfg start stop nonce =
     (let nextCheckpointBlock = stop - 1 in
      rbind (outputRootAtBlock cfg nextCheckpointBlock) (\<lambda>l2OutputRoot.
      rbind (pc_NextTimestamp cfg) (\<lambda>timestamp.
      rbind (pc_ComputeL2BlockNumber cfg timestamp) (\<lambda>expCheckpointBlock.
      if nextCheckpointBlock \<noteq> expCheckpointBlock then lift_res (Err (ErrMsg ''expected next checkpoint block to be different''))
      else rbind (rmap_err (\<lambda>e. ErrMsg ''error resolving checkpoint block'') (pc_L1Header cfg)) (\<lambda>header.
      rbind (rmap_err (\<lambda>e. ErrMsg ''error resolving checkpoint block'') (pc_L2HeaderByNumber cfg nextCheckpointBlock)) (\<lambda>l2Header.
      if h_Time l2Header \<noteq> of_int timestamp then lift_res (Err (ErrMsg ''invalid timestamp''))
      else rbind (lift_res (of_sum (pc_Transactor cfg))) (\<lambda>_.
      pc_AppendL2Output cfg nonce l2OutputRoot timestamp (Header_Hash H header) (h_Number header))))))))"

definition prop_UpdateGasPrice :: "'n prop_config \<Rightarrow> Transaction \<Rightarrow> ('n, Transaction) rpc" where
  "prop_UpdateGasPrice cfg tx =
     rbind (lift_res (of_sum (pc_Transactor cfg))) (\<lambda>_. pc_RawTransact cfg (uint (tx_Nonce tx)) (tx_Data tx))"

definition prop_SendTransaction :: "'n prop_config \<Rightarrow> Transaction \<Rightarrow> ('n, unit) rpc" where
  "prop_SendTransaction cfg tx = pc_SendTransaction cfg tx"

definition prop_driver :: "header_lib \<Rightarrow> 'n prop_config \<Rightarrow> 'n Driver" where
  "prop_driver H cfg = \<lparr>drv_Name = pc_Name cfg, drv_WalletAddr = pc_walletAddr cfg,
     drv_GetBlockRange = prop_GetBlockRange cfg, drv_CraftTx = prop_CraftTx H cfg,
     drv_UpdateGasPrice = prop_UpdateGasPrice cfg, drv_SendTransaction = prop_SendTransaction cfg\<rparr>"

section \<open>The contract of the driver\<close>

text \<open>What go-ethereum's contract layer promises: a transaction has the nonce of the options and goes to
  the contract; a raw one has the given data.\<close>

definition bindings_ok :: "'n prop_config \<Rightarrow> bool" where
  "bindings_ok cfg \<longleftrightarrow>
     (\<forall>n r t bh bn w tx w'. pc_AppendL2Output cfg n r t bh bn w = (Ok tx, w') \<longrightarrow> tx_Nonce tx = of_int n \<and> tx_To tx = Some (pc_L2OOAddr cfg)) \<and>
     (\<forall>n d w tx w'. pc_RawTransact cfg n d w = (Ok tx, w') \<longrightarrow>
        tx_Nonce tx = of_int n \<and> tx_To tx = Some (pc_L2OOAddr cfg) \<and> tx_Data tx = d)"

lemma outputRootAtBlock_Ok:
  "outputRootAtBlock cfg n w = (Ok root, w') \<Longrightarrow> pc_OutputAtBlock cfg n w = (Ok [0, root], w')"
  by (auto simp: outputRootAtBlock_def rbind_Ok_iff supportedL2OutputVersion_def length_Suc_conv numeral_2_eq_2 split: if_splits)

lemma prop_CraftTx_Ok:
  assumes "prop_CraftTx H cfg start stop nonce w = (Ok tx, w')"
  shows "\<exists>root ts l1 l2 w1 w2 w3 w4 w5.
    pc_OutputAtBlock cfg (stop - 1) w = (Ok [0, root], w1) \<and> pc_NextTimestamp cfg w1 = (Ok ts, w2) \<and>
    pc_ComputeL2BlockNumber cfg ts w2 = (Ok (stop - 1), w3) \<and> pc_L1Header cfg w3 = (Ok l1, w4) \<and>
    pc_L2HeaderByNumber cfg (stop - 1) w4 = (Ok l2, w5) \<and> h_Time l2 = of_int ts \<and>
    pc_AppendL2Output cfg nonce root ts (Header_Hash H l1) (h_Number l1) w5 = (Ok tx, w')"
proof -
  from assms obtain root w1 ts w2 w3 l1 w4 l2 w5 where
    r: "outputRootAtBlock cfg (stop - 1) w = (Ok root, w1)" and rest: "pc_NextTimestamp cfg w1 = (Ok ts, w2)"
    "pc_ComputeL2BlockNumber cfg ts w2 = (Ok (stop - 1), w3)" "pc_L1Header cfg w3 = (Ok l1, w4)"
    "pc_L2HeaderByNumber cfg (stop - 1) w4 = (Ok l2, w5)" "h_Time l2 = of_int ts"
    "pc_AppendL2Output cfg nonce root ts (Header_Hash H l1) (h_Number l1) w5 = (Ok tx, w')"
    by (auto simp: prop_CraftTx_def Let_def rbind_Ok_iff split: if_splits)
  show ?thesis using outputRootAtBlock_Ok [OF r] rest by blast
qed

lemma prop_CraftTx_bound:
  assumes "bindings_ok cfg" and "prop_CraftTx H cfg start stop nonce w = (Ok tx, w')"
  shows "tx_Nonce tx = of_int nonce \<and> tx_To tx = Some (pc_L2OOAddr cfg)"
  using prop_CraftTx_Ok [OF assms(2)] assms(1) unfolding bindings_ok_def by blast

interpretation outputs: driver_contract "\<lambda>(H, cfg). bindings_ok cfg" "\<lambda>(H, cfg). prop_driver H cfg"
proof unfold_locales
  fix d :: "header_lib \<times> 'n prop_config" and start stop nonce w tx w'
  assume "case d of (H, cfg) \<Rightarrow> bindings_ok cfg" and "drv_CraftTx (case d of (H, cfg) \<Rightarrow> prop_driver H cfg) start stop nonce w = (Ok tx, w')"
  then show "tx_Nonce tx = of_int nonce"
    using prop_CraftTx_bound [of "snd d" "fst d" start stop nonce w tx w']
    by (auto simp: prop_driver_def split: prod.splits)
next
  fix d :: "header_lib \<times> 'n prop_config" and start stop nonce w tx w' w1 tx' w2
  assume ok: "case d of (H, cfg) \<Rightarrow> bindings_ok cfg" and craft: "drv_CraftTx (case d of (H, cfg) \<Rightarrow> prop_driver H cfg) start stop nonce w = (Ok tx, w')"
    and upd: "drv_UpdateGasPrice (case d of (H, cfg) \<Rightarrow> prop_driver H cfg) tx w1 = (Ok tx', w2)"
  obtain H cfg where d: "d = (H, cfg)" by fastforce
  have ok': "bindings_ok cfg" using ok by (simp add: d)
  have "tx_To tx = Some (pc_L2OOAddr cfg)"
    using prop_CraftTx_bound [OF ok', of H start stop nonce w tx w'] craft by (simp add: d prop_driver_def)
  moreover have "pc_RawTransact cfg (uint (tx_Nonce tx)) (tx_Data tx) w1 = (Ok tx', w2)"
    using upd by (auto simp: d prop_driver_def prop_UpdateGasPrice_def rbind_Ok_iff)
  then have "tx_Nonce tx' = of_int (uint (tx_Nonce tx)) \<and> tx_To tx' = Some (pc_L2OOAddr cfg) \<and> tx_Data tx' = tx_Data tx"
    using ok' unfolding bindings_ok_def by blast
  ultimately show "tx_Nonce tx' = tx_Nonce tx \<and> tx_To tx' = tx_To tx \<and> tx_Data tx' = tx_Data tx" by simp
qed

section \<open>Properties\<close>

text \<open>The proposer waits for the submission interval: the range starts after the latest committed
  block; it is empty exactly while the L1 time is before the oracle's next timestamp (unless the oracle's next block is the latest one), and otherwise it ends with the
  block of that timestamp.\<close>

theorem proposer_range:
  assumes "prop_GetBlockRange cfg w = (Ok (start, stop), w')"
  shows "\<exists>lts latest nts hd w1 w2 w3 w4. pc_LatestBlockTimestamp cfg w = (Ok lts, w1) \<and>
    pc_ComputeL2BlockNumber cfg lts w1 = (Ok latest, w2) \<and> pc_NextTimestamp cfg w2 = (Ok nts, w3) \<and>
    pc_L1Header cfg w3 = (Ok hd, w4) \<and> start = latest + 1 \<and>
    (if sint (h_Time hd) < nts then stop = start \<and> w' = w4
     else pc_ComputeL2BlockNumber cfg nts w4 = (Ok (stop - 1), w'))"
  using assms by (auto simp: prop_GetBlockRange_def Let_def rbind_Ok_iff split: if_splits) fastforce+

text \<open>A concrete proposer: the oracle expects block two at time fourteen.\<close>

definition demo_prop :: "u64 \<Rightarrow> unit prop_config" where
  "demo_prop now = \<lparr>pc_Name = ''L2Output Submitter'', pc_walletAddr = 7, pc_L2OOAddr = 21, pc_LatestBlockTimestamp = ret 10,
     pc_ComputeL2BlockNumber = (\<lambda>t. ret ((t - 10) div 2)), pc_NextTimestamp = ret 14,
     pc_AppendL2Output = (\<lambda>n r t bh bn. ret \<lparr>tx_Type = 2, tx_To = Some 21, tx_Data = word_be 32 r, tx_Nonce = of_int n, tx_Gas = 0, tx_Hash = 33\<rparr>),
     pc_RawTransact = (\<lambda>n d. ret \<lparr>tx_Type = 2, tx_To = Some 21, tx_Data = d, tx_Nonce = of_int n, tx_Gas = 0, tx_Hash = 33\<rparr>),
     pc_L1Header = ret ((blk_Header (node_block 9 []))\<lparr>h_Time := now\<rparr>), pc_L2HeaderByNumber = (\<lambda>n. ret (blk_Header (node_block n []))),
     pc_OutputAtBlock = (\<lambda>n. OutputAtBlock demo_geth node_hlib node_trie (readonly_client node_hlib node_client (cfg_Genesis demo_config)) (of_int n)),
     pc_Transactor = Inr (), pc_SendTransaction = (\<lambda>tx. ret ())\<rparr>"

lemma demo_bindings_ok: "bindings_ok (demo_prop now)"
  by (auto simp: bindings_ok_def demo_prop_def)

theorem proposer_range_witness:
  "\<exists>nts. prop_GetBlockRange (demo_prop 100) () = (Ok (1, 3), ()) \<and> pc_NextTimestamp (demo_prop 100) () = (Ok nts, ()) \<and>
     pc_ComputeL2BlockNumber (demo_prop 100) nts () = (Ok (3 - 1), ())"
proof -
  have run: "prop_GetBlockRange (demo_prop 100) () = (Ok (1, 3), ())"
    by (simp add: prop_GetBlockRange_def demo_prop_def rbind_def node_block_def)
  have time: "\<And>hd w1 w2. pc_L1Header (demo_prop 100) w1 = (Ok hd, w2) \<Longrightarrow> sint (h_Time hd) = 100"
    and nts: "\<And>t w1 w2. pc_NextTimestamp (demo_prop 100) w1 = (Ok t, w2) \<Longrightarrow> t = 14"
    by (auto simp: demo_prop_def node_block_def)
  from proposer_range [OF run] obtain t hd where
    "pc_NextTimestamp (demo_prop 100) () = (Ok t, ())" "pc_L1Header (demo_prop 100) () = (Ok hd, ())"
    and "if sint (h_Time hd) < t then (3::int) = 1 \<and> () = () else pc_ComputeL2BlockNumber (demo_prop 100) t () = (Ok (3 - 1), ())"
    by (auto split: if_splits)
  with run time nts show ?thesis by auto
qed

text \<open>What the proposer puts on L1. When an iteration of the service publishes, the transaction commits
  to the output of the last block of the range; that block is the oracle's next checkpoint, its
  timestamp is the oracle's next timestamp, and the output root, as served by the rollup node, is version zero over a storage root that is
  proven under the state root of that block's header. Every published version has this data and the
  nonce that L1 reported.\<close>

theorem proposed_output:
  assumes "bindings_ok cfg" and "\<forall>n w out w'. pc_OutputAtBlock cfg n w = (Ok out, w') \<longrightarrow> OutputAtBlock G H T c (of_int n) w = (Ok out, w')"
    and "svc_Driver svc = prop_driver H cfg" and "tick svc w (Sent tx s r) w'" and "tx' \<in> set (t_published s)"
  shows "tx_To tx' = Some (pc_L2OOAddr cfg) \<and> tx_Data tx' = tx_Data tx \<and>
    (\<exists>w1 w2. be_NonceAt (svc_L1Client svc) (pc_walletAddr cfg) w1 = (Ok (tx_Nonce tx'), w2)) \<and>
    (\<exists>n root ts head l1 l2 res w0 w1 w2 w3 w4 w5 w6.
       pc_ComputeL2BlockNumber cfg ts w0 = (Ok n, w1) \<and> pc_L2HeaderByNumber cfg n w2 = (Ok l2, w3) \<and> h_Time l2 = of_int ts \<and>
       ec_GetBlockHeader c (toBlockNumArg T (of_int n)) w4 = (Ok (Some head), w5) \<and> proven G T (h_Root head) res \<and>
       root = Keccak256 G (word_be 32 (0::hash) @ word_be 32 (h_Root head) @ word_be 32 (ar_StorageHash res) @ word_be 32 (Header_Hash H head)) \<and>
       pc_AppendL2Output cfg (uint (tx_Nonce tx')) root ts (Header_Hash H l1) (h_Number l1) w3 = (Ok tx, w6))"
proof -
  have drv: "svc_Driver svc = (\<lambda>(H, cfg). prop_driver H cfg) (H, cfg)" using assms(3) by simp
  have ok: "(\<lambda>(H, cfg). bindings_ok cfg) (H, cfg)" using assms(1) by simp
  note pub = outputs.published_versions [OF ok drv assms(4,5)]
  from pub obtain start stop wa wb where
    craft: "prop_CraftTx H cfg start stop (uint (tx_Nonce tx)) wa = (Ok tx, wb)"
    by (auto simp: prop_driver_def)
  from prop_CraftTx_Ok [OF craft] obtain root ts l1 l2 w1 w2 w3 w4 w5 where
    out: "pc_OutputAtBlock cfg (stop - 1) wa = (Ok [0, root], w1)"
    and rest: "pc_ComputeL2BlockNumber cfg ts w2 = (Ok (stop - 1), w3)" "pc_L2HeaderByNumber cfg (stop - 1) w4 = (Ok l2, w5)"
      "h_Time l2 = of_int ts" "pc_AppendL2Output cfg (uint (tx_Nonce tx)) root ts (Header_Hash H l1) (h_Number l1) w5 = (Ok tx, wb)"
    by blast
  from OutputAtBlock_Ok [OF assms(2) [rule_format, OF out]] obtain head res w6 where
    "ec_GetBlockHeader c (toBlockNumArg T (of_int (stop - 1))) wa = (Ok (Some head), w6)" "proven G T (h_Root head) res"
    "root = Keccak256 G (word_be 32 (0::hash) @ word_be 32 (h_Root head) @ word_be 32 (ar_StorageHash res) @ word_be 32 (Header_Hash H head))"
    by auto
  moreover have "tx_To tx = Some (pc_L2OOAddr cfg)" using prop_CraftTx_bound [OF assms(1) craft] by simp
  moreover have same: "tx_Nonce tx' = tx_Nonce tx" "tx_To tx' = tx_To tx" "tx_Data tx' = tx_Data tx" using pub by auto
  moreover have "\<exists>w1 w2. be_NonceAt (svc_L1Client svc) (pc_walletAddr cfg) w1 = (Ok (tx_Nonce tx), w2)"
    using pub by (auto simp: prop_driver_def)
  ultimately show ?thesis using rest by (simp only: same) blast
qed

definition demo_prop_service :: "unit ServiceConfig" where
  "demo_prop_service = \<lparr>svc_Driver = prop_driver node_hlib (demo_prop 100),
     svc_L1Client = \<lparr>be_NonceAt = (\<lambda>a. ret 5), be_TransactionReceipt = (\<lambda>h w. ((Some demo_mined, None), w)), be_BlockNumber = ret 20\<rparr>,
     svc_NumConfirmations = 2, svc_SafeAbortNonceTooLowCount = 3\<rparr>"

lemma demo_output_root: "\<exists>root. OutputAtBlock demo_geth node_hlib node_trie (readonly_client node_hlib node_client (cfg_Genesis demo_config)) 2 () = (Ok [0, root], ())"
proof -
  obtain out where out: "OutputAtBlock demo_geth node_hlib node_trie (readonly_client node_hlib node_client (cfg_Genesis demo_config)) 2 () = (Ok out, ())"
    using node_output by blast
  from OutputAtBlock_Ok [OF out] obtain x where "out = [0, x]" by blast
  with out show ?thesis by auto
qed

lemma demo_prop_tick: "\<exists>tx s r w'. tick demo_prop_service () (Sent tx s r) w' \<and> t_published s \<noteq> []"
proof -
  obtain root where root: "OutputAtBlock demo_geth node_hlib node_trie (readonly_client node_hlib node_client (cfg_Genesis demo_config)) 2 () = (Ok [0, root], ())"
    using demo_output_root by blast
  obtain tx where prep: "prepare demo_prop_service () = (Ok (Some tx), ())"
    using root by (simp add: prepare_def demo_prop_service_def prop_driver_def prop_GetBlockRange_def prop_CraftTx_def outputRootAtBlock_def
        supportedL2OutputVersion_def demo_prop_def rbind_def rmap_err_def node_block_def)
  obtain st where st: "NewSendState 3 = Ok st" by (simp add: NewSendState_def)
  define ls :: "unit txm_label list" where "ls = [Sender 0, Sender 0, Sender 0, Sender 0, Sender 0, Receive]"
  obtain t where t: "txm_exec (send_env demo_prop_service tx) 2 ls (txm_start st ()) = Some t" and r: "t_ret t = Some (Ok demo_mined)"
    and pub: "t_published t \<noteq> []" and fin: "t_senders t = [Exited]"
    by (auto simp: ls_def send_env_def demo_prop_service_def prop_driver_def prop_UpdateGasPrice_def prop_SendTransaction_def demo_prop_def rbind_def
        txm_start_def confirmed_at_def demo_mined_def send_return_def)
  have "Send_run (send_env demo_prop_service tx) (svc_NumConfirmations demo_prop_service) (svc_SafeAbortNonceTooLowCount demo_prop_service) () t"
    using txm_exec_run [OF Send_run.start [OF st] t] by (simp add: demo_prop_service_def)
  from tick.sent [OF prep this _ r] r fin pub show ?thesis by (force simp: send_finished_def)
qed

end
