(* ===== verification/Submitters.thy ===== *)
theory Submitters
  imports StartUp Sequencer Proposer
begin

text \<open>
  The processes of the batch submitter (\<open>op-batcher/batch_submitter.go\<close>) and of the output proposer (\<open>op-proposer/l2_output_submitter.go\<close>), and
  their client of the rollup node (\<open>op-proposer/rollupclient/rollupclient.go\<close>). A process is put together from its configuration: wallet,
  addresses, connections, history, driver and service. Wallets, hex parsing, dialing, the calls of connected clients and the contract
  bindings are parameters. The transport between client and node may fail; what it delivers is what the API of the node returned.
\<close>

section \<open>The rollup client and the API it calls (rollupclient.go)\<close>

datatype node_arg = NReq BatchBundleRequest | NNum string
datatype node_result = NBundle "BatchBundleResponse option" | NOutput "hash list" | NVersion string

type_synonym 'n caller = "string \<Rightarrow> node_arg list \<Rightarrow> ('n, node_result) rpc"

definition RollupClient_GetBatchBundle :: "'n caller \<Rightarrow> BatchBundleRequest \<Rightarrow> ('n, BatchBundleResponse option) rpc" where
  "RollupClient_GetBatchBundle call req =
     rbind (call ''optimism_getBatchBundle'' [NReq req]) (\<lambda>r.
     case r of NBundle b \<Rightarrow> ret b | _ \<Rightarrow> lift_res (Err (ErrMsg ''json: cannot unmarshal'')))"

definition RollupClient_OutputAtBlock :: "(int \<Rightarrow> string) \<Rightarrow> 'n caller \<Rightarrow> int \<Rightarrow> ('n, hash list) rpc" where
  "RollupClient_OutputAtBlock EncodeBig call blockNum =
     rbind (call ''optimism_outputAtBlock'' [NNum (EncodeBig blockNum)]) (\<lambda>r.
     case r of NOutput out \<Rightarrow> ret out | _ \<Rightarrow> lift_res (Err (ErrMsg ''json: cannot unmarshal'')))"

text \<open>The API of the node, as \<open>newRPCServer\<close> registers it: the exported methods, with their arguments. \<open>parseNum\<close> is the decoder of \<open>rpc.BlockNumber\<close>.\<close>

definition bad_args :: "('n, node_result) rpc" where
  "bad_args = lift_res (Err (ErrMsg ''invalid argument''))"

definition nodeAPI_methods ::
  "(string \<Rightarrow> error + BlockNumber) \<Rightarrow> geth \<Rightarrow> header_lib \<Rightarrow> rlp_lib \<Rightarrow> ('d, 't) trie_lib \<Rightarrow> 'n l2EthClient \<Rightarrow> (string \<times> (node_arg list \<Rightarrow> ('n, node_result) rpc)) list" where
  "nodeAPI_methods parseNum G H R T c =
     [(''OutputAtBlock'', \<lambda>args. case args of [NNum s] \<Rightarrow>
         (case parseNum s of Inl e \<Rightarrow> bad_args | Inr n \<Rightarrow> rbind (OutputAtBlock G H T c n) (\<lambda>out. ret (NOutput out))) | _ \<Rightarrow> bad_args),
      (''Version'', \<lambda>args. if args = [] then ret (NVersion Version) else bad_args),
      (''GetBatchBundle'', \<lambda>args. case args of [NReq req] \<Rightarrow> rbind (GetBatchBundle G H R c req) (\<lambda>b. ret (NBundle b)) | _ \<Rightarrow> bad_args)]"

definition serve_node ::
  "rpc_lib \<Rightarrow> (string \<Rightarrow> error + BlockNumber) \<Rightarrow> geth \<Rightarrow> header_lib \<Rightarrow> rlp_lib \<Rightarrow> ('d, 't) trie_lib \<Rightarrow> 'n l2EthClient \<Rightarrow> 'n caller" where
  "serve_node NL parseNum G H R T c m args =
     (case lookup_method NL ''optimism'' (nodeAPI_methods parseNum G H R T c) m of
        None \<Rightarrow> lift_res (Err (ErrMsg ''the method does not exist''))
      | Some f \<Rightarrow> f args)"

text \<open>What a transport delivers was returned by the server. Hex numbers are read back as the number that was written.\<close>

definition delivers :: "'n caller \<Rightarrow> 'n caller \<Rightarrow> bool" where
  "delivers call server \<longleftrightarrow> (\<forall>m args w r w'. call m args w = (Ok r, w') \<longrightarrow> server m args w = (Ok r, w'))"

definition numbers_ok :: "(int \<Rightarrow> string) \<Rightarrow> (string \<Rightarrow> error + BlockNumber) \<Rightarrow> bool" where
  "numbers_ok EncodeBig parseNum \<longleftrightarrow> (\<forall>n m. parseNum (EncodeBig n) = Inr m \<longrightarrow> m = of_int n)"

lemma node_method_names:
  assumes "rpc_naming L"
  shows "formatName L ''OutputAtBlock'' = ''outputAtBlock''" "formatName L ''Version'' = ''version''" "formatName L ''GetBatchBundle'' = ''getBatchBundle''"
proof -
  have "formatName L (c # cs) = ToLower [c] @ cs" for c cs using assms by (simp add: rpc_naming_def)
  then show "formatName L ''OutputAtBlock'' = ''outputAtBlock''" "formatName L ''Version'' = ''version''" "formatName L ''GetBatchBundle'' = ''getBatchBundle''"
    by (simp_all add: lower_letters)
qed

lemma serve_node_methods:
  assumes "rpc_naming NL"
  shows "serve_node NL parseNum G H R T c ''optimism_getBatchBundle'' [NReq req] = rbind (GetBatchBundle G H R c req) (\<lambda>b. ret (NBundle b))"
    "serve_node NL parseNum G H R T c ''optimism_outputAtBlock'' [NNum s] =
       (case parseNum s of Inl e \<Rightarrow> bad_args | Inr n \<Rightarrow> rbind (OutputAtBlock G H T c n) (\<lambda>out. ret (NOutput out)))"
proof -
  have "lookup_method NL ''optimism'' ms (''optimism'' @ ''_'' @ m) = map_of (map (\<lambda>(name, f). (formatName NL name, f)) ms) m"
    for ms :: "(string \<times> (node_arg list \<Rightarrow> ('a, node_result) rpc)) list" and m
    by (rule lookup_registered [OF assms]) simp
  from this [of _ "''getBatchBundle''"] this [of _ "''outputAtBlock''"]
  show "serve_node NL parseNum G H R T c ''optimism_getBatchBundle'' [NReq req] = rbind (GetBatchBundle G H R c req) (\<lambda>b. ret (NBundle b))"
    "serve_node NL parseNum G H R T c ''optimism_outputAtBlock'' [NNum s] =
       (case parseNum s of Inl e \<Rightarrow> bad_args | Inr n \<Rightarrow> rbind (OutputAtBlock G H T c n) (\<lambda>out. ret (NOutput out)))"
    by (simp_all add: serve_node_def nodeAPI_methods_def node_method_names [OF assms])
qed

lemma client_gets_bundle:
  assumes "rpc_naming NL" and "delivers call (serve_node NL parseNum G H R T c)" and "RollupClient_GetBatchBundle call req w = (Ok b, w')"
  shows "GetBatchBundle G H R c req w = (Ok b, w')"
proof -
  from assms(3) obtain r w1 where r: "call ''optimism_getBatchBundle'' [NReq req] w = (Ok r, w1)"
    "(case r of NBundle b \<Rightarrow> ret b | _ \<Rightarrow> lift_res (Err (ErrMsg ''json: cannot unmarshal''))) w1 = (Ok b, w')"
    unfolding RollupClient_GetBatchBundle_def rbind_Ok_iff by blast
  from assms(2) r(1) have "serve_node NL parseNum G H R T c ''optimism_getBatchBundle'' [NReq req] w = (Ok r, w1)" unfolding delivers_def by blast
  with r(2) show ?thesis by (auto simp: serve_node_methods [OF assms(1)] rbind_Ok_iff)
qed

lemma client_gets_output:
  assumes "rpc_naming NL" and "delivers call (serve_node NL parseNum G H R T c)" and "numbers_ok EncodeBig parseNum"
    and "RollupClient_OutputAtBlock EncodeBig call n w = (Ok out, w')"
  shows "OutputAtBlock G H T c (of_int n) w = (Ok out, w')"
proof -
  from assms(4) obtain r w1 where r: "call ''optimism_outputAtBlock'' [NNum (EncodeBig n)] w = (Ok r, w1)"
    "(case r of NOutput out \<Rightarrow> ret out | _ \<Rightarrow> lift_res (Err (ErrMsg ''json: cannot unmarshal''))) w1 = (Ok out, w')"
    unfolding RollupClient_OutputAtBlock_def rbind_Ok_iff by blast
  from assms(2) r(1) have s: "serve_node NL parseNum G H R T c ''optimism_outputAtBlock'' [NNum (EncodeBig n)] w = (Ok r, w1)" unfolding delivers_def by blast
  show ?thesis
  proof (cases "parseNum (EncodeBig n)")
    case (Inr m)
    with assms(3) have "m = of_int n" by (simp add: numbers_ok_def)
    with s r(2) Inr show ?thesis by (auto simp: serve_node_methods [OF assms(1)] rbind_Ok_iff)
  qed (use s in \<open>simp add: serve_node_methods [OF assms(1)] bad_args_def\<close>)
qed

section \<open>Libraries and connections\<close>

record ('wl, 'k) wallet_lib =
  hdwallet_NewFromMnemonic :: "string \<Rightarrow> error + 'wl"
  wallet_PrivateKey :: "'wl \<Rightarrow> string \<Rightarrow> error + 'k"
  key_PubkeyToAddress :: "'k \<Rightarrow> address"
  common_IsHexAddress :: "string \<Rightarrow> bool"
  common_HexToAddress :: "string \<Rightarrow> address"
  common_HexToHash :: "string \<Rightarrow> hash"

record ('n, 'c, 'k) eth_lib =
  ethclient_Dial :: "string \<Rightarrow> ('n, 'c) rpc"
  rpc_Dial :: "string \<Rightarrow> ('n, 'n caller) rpc"
  eth_ChainID :: "'c \<Rightarrow> ('n, int) rpc"
  eth_SuggestGasTipCap :: "'c \<Rightarrow> ('n, int) rpc"
  eth_LatestHeader :: "'c \<Rightarrow> ('n, Header) rpc"
  eth_HeaderByNumber :: "'c \<Rightarrow> int \<Rightarrow> ('n, Header) rpc"
  eth_SendTransaction :: "'c \<Rightarrow> Transaction \<Rightarrow> ('n, unit) rpc"
  eth_Backend :: "'c \<Rightarrow> 'n l1_backend"
  core_IntrinsicGas :: "bytes \<Rightarrow> error + u64"
  types_SignNewTx :: "'k \<Rightarrow> int \<Rightarrow> DynamicFeeTx \<Rightarrow> error + Transaction"

definition parseAddress :: "('wl, 'k) wallet_lib \<Rightarrow> string \<Rightarrow> address res" where
  "parseAddress W a = (if common_IsHexAddress W a then Ok (common_HexToAddress W a) else Err (ErrMsg ''invalid address''))"

definition dialEthClientWithTimeout :: "('n, 'c, 'k) eth_lib \<Rightarrow> string \<Rightarrow> ('n, 'c) rpc" where
  "dialEthClientWithTimeout X url = ethclient_Dial X url"

definition dialRollupClientWithTimeout :: "('n, 'c, 'k) eth_lib \<Rightarrow> string \<Rightarrow> ('n, 'n caller) rpc" where
  "dialRollupClientWithTimeout X url = rpc_Dial X url"

text \<open>A service with the settings that only its timers use.\<close>

record 'w submitter =
  sub_service :: "'w ServiceConfig"
  sub_PollInterval :: duration
  sub_ResubmissionTimeout :: duration
  sub_ReceiptQueryInterval :: duration

section \<open>The batch submitter (batch_submitter.go)\<close>

definition seq_NewDriver ::
  "('wl, 'k) wallet_lib \<Rightarrow> ('n, 'c, 'k) eth_lib \<Rightarrow> batcher_Config \<Rightarrow> 'c \<Rightarrow> 'n caller \<Rightarrow> address \<Rightarrow> JSONFileDatabase \<Rightarrow> int \<Rightarrow> 'k \<Rightarrow> 'n seq_config" where
  "seq_NewDriver W X cfg l1Client rollupClient batchInboxAddress historyDB chainID privKey =
     \<lparr>sc_Name = ''Batch Submitter'', sc_walletAddr = key_PubkeyToAddress W privKey, sc_MinL1TxSize = bc_MinL1TxSize cfg, sc_MaxL1TxSize = bc_MaxL1TxSize cfg,
      sc_BatchInboxAddress = batchInboxAddress, sc_HistoryDB = historyDB, sc_ChainID = chainID,
      sc_GetBatchBundle = RollupClient_GetBatchBundle rollupClient, sc_SuggestGasTipCap = eth_SuggestGasTipCap X l1Client,
      sc_HeaderByNumber = eth_LatestHeader X l1Client, sc_SendTransaction = eth_SendTransaction X l1Client,
      sc_IntrinsicGas = core_IntrinsicGas X, sc_SignNewTx = types_SignNewTx X privKey chainID\<rparr>"

definition NewBatchSubmitter ::
  "('wl, 'k) wallet_lib \<Rightarrow> ('n, 'c, 'k) eth_lib \<Rightarrow> json_lib \<Rightarrow> batcher_Config \<Rightarrow> ('n seq_world, 'n seq_world submitter) rpc" where
  "NewBatchSubmitter W X J cfg =
     rbind (lift_res (of_sum (hdwallet_NewFromMnemonic W (bc_Mnemonic cfg)))) (\<lambda>wallet.
     rbind (lift_res (of_sum (wallet_PrivateKey W wallet (bc_SequencerHDPath cfg)))) (\<lambda>sequencerPrivKey.
     rbind (lift_res (parseAddress W (bc_SequencerBatchInboxAddress cfg))) (\<lambda>batchInboxAddress.
     let genesisHash = common_HexToHash W (bc_SequencerGenesisHash cfg) in
     rbind (on_net (dialEthClientWithTimeout X (bc_L1EthRpc cfg))) (\<lambda>l1Client.
     rbind (on_net (dialEthClientWithTimeout X (bc_L2EthRpc cfg))) (\<lambda>l2Client.
     rbind (on_net (dialRollupClientWithTimeout X (bc_RollupRpc cfg))) (\<lambda>rollupClient.
     rbind (on_fs (batch_submitter_db J (bc_SequencerHistoryDBFilename cfg) genesisHash)) (\<lambda>historyDB.
     rbind (on_net (eth_ChainID X l1Client)) (\<lambda>chainID.
     let sequencerDriver = seq_NewDriver W X cfg l1Client rollupClient batchInboxAddress historyDB chainID sequencerPrivKey;
         service = seq_service sequencerDriver (eth_Backend X l1Client) (bc_NumConfirmations cfg) (bc_SafeAbortNonceTooLowCount cfg) in
     rbind (lift_res (NewService service)) (\<lambda>_.
     ret \<lparr>sub_service = service, sub_PollInterval = bc_PollInterval cfg, sub_ResubmissionTimeout = bc_ResubmissionTimeout cfg,
          sub_ReceiptQueryInterval = 1000 * Millisecond\<rparr>)))))))))"

text \<open>\<open>Main\<close>: the handler of the log, the submitter, and its service, which runs until a signal. An error or a panic of the set-up ends the process.\<close>

definition submitter_log :: "(string \<Rightarrow> error + 'l) \<Rightarrow> bool \<Rightarrow> string \<Rightarrow> 'l log_handler res" where
  "submitter_log LvlFromString logTerminal logLevel =
     (let logHandler = (if logTerminal then StreamHandler (TerminalFormat True) else StreamHandler JSONFormat) in
      bind_res (of_sum (LvlFromString logLevel)) (\<lambda>l. Ok (LvlFilterHandler l logHandler)))"

definition batcher_setup ::
  "(string \<Rightarrow> error + 'l) \<Rightarrow> ('wl, 'k) wallet_lib \<Rightarrow> ('n, 'c, 'k) eth_lib \<Rightarrow> json_lib \<Rightarrow> cli_ctx \<Rightarrow> ('n seq_world, 'l log_handler \<times> 'n seq_world submitter) rpc" where
  "batcher_setup LV W X J ctx =
     (let cfg = batcher_NewConfig ctx in
      rbind (lift_res (submitter_log LV (bc_LogTerminal cfg) (bc_LogLevel cfg))) (\<lambda>l.
      rbind (NewBatchSubmitter W X J cfg) (\<lambda>batchSubmitter. ret (l, batchSubmitter))))"

inductive batcher_Main ::
  "(string \<Rightarrow> error + 'l) \<Rightarrow> ('wl, 'k) wallet_lib \<Rightarrow> ('n, 'c, 'k) eth_lib \<Rightarrow> json_lib \<Rightarrow> cli_ctx \<Rightarrow>
    'n seq_world \<Rightarrow> 'n seq_world tick_result list \<Rightarrow> unit res \<Rightarrow> 'n seq_world \<Rightarrow> bool" for LV W X J ctx w where
  failed: "batcher_setup LV W X J ctx w = (Err e, w') \<Longrightarrow> batcher_Main LV W X J ctx w [] (Err e) w'"
| panicked: "batcher_setup LV W X J ctx w = (Panic m, w') \<Longrightarrow> batcher_Main LV W X J ctx w [] (Panic m) w'"
| signalled: "batcher_setup LV W X J ctx w = (Ok (l, batchSubmitter), w1) \<Longrightarrow> eventLoop (sub_service batchSubmitter) w1 results w' \<Longrightarrow>
    batcher_Main LV W X J ctx w results (Ok ()) w'"

lemma batcher_Main_tick:
  assumes "batcher_Main LV W X J ctx w results r w'" and "x \<in> set results"
  obtains b w1 u u' where "NewBatchSubmitter W X J (batcher_NewConfig ctx) w = (Ok b, w1)" "tick (sub_service b) u x u'"
  using assms
proof (cases rule: batcher_Main.cases)
  case (signalled l b w1)
  then have "NewBatchSubmitter W X J (batcher_NewConfig ctx) w = (Ok b, w1)" by (auto simp: batcher_setup_def Let_def rbind_Ok_iff)
  moreover obtain u u' where "tick (sub_service b) u x u'" using eventLoop_tick [OF signalled(3) assms(2)] by blast
  ultimately show thesis by (rule that)
qed simp_all

section \<open>The output proposer (l2_output_submitter.go)\<close>

record ('n, 'c, 'k) oracle_lib =
  l2oo_New :: "address \<Rightarrow> error + unit"               \<comment> \<open>the binding and its ABI\<close>
  l2oo_LatestBlockTimestamp :: "address \<Rightarrow> 'c \<Rightarrow> ('n, int) rpc"
  l2oo_ComputeL2BlockNumber :: "address \<Rightarrow> 'c \<Rightarrow> int \<Rightarrow> ('n, int) rpc"
  l2oo_NextTimestamp :: "address \<Rightarrow> 'c \<Rightarrow> ('n, int) rpc"
  l2oo_AppendL2Output :: "address \<Rightarrow> 'c \<Rightarrow> 'k \<Rightarrow> int \<Rightarrow> int \<Rightarrow> hash \<Rightarrow> int \<Rightarrow> hash \<Rightarrow> int \<Rightarrow> ('n, Transaction) rpc"
  l2oo_RawTransact :: "address \<Rightarrow> 'c \<Rightarrow> 'k \<Rightarrow> int \<Rightarrow> int \<Rightarrow> bytes \<Rightarrow> ('n, Transaction) rpc"
  bind_NewKeyedTransactor :: "'k \<Rightarrow> int \<Rightarrow> error + unit"
  hexutil_EncodeBig :: "int \<Rightarrow> string"

definition prop_NewDriver ::
  "('wl, 'k) wallet_lib \<Rightarrow> ('n, 'c, 'k) eth_lib \<Rightarrow> ('n, 'c, 'k) oracle_lib \<Rightarrow> 'c \<Rightarrow> 'c \<Rightarrow> 'n caller \<Rightarrow> address \<Rightarrow> int \<Rightarrow> 'k \<Rightarrow> 'n prop_config res" where
  "prop_NewDriver W X OL l1Client l2Client rollupClient l2ooAddr chainID privKey =
     bind_res (of_sum (l2oo_New OL l2ooAddr)) (\<lambda>_.
     Ok \<lparr>pc_Name = ''L2Output Submitter'', pc_walletAddr = key_PubkeyToAddress W privKey, pc_L2OOAddr = l2ooAddr,
         pc_LatestBlockTimestamp = l2oo_LatestBlockTimestamp OL l2ooAddr l1Client, pc_ComputeL2BlockNumber = l2oo_ComputeL2BlockNumber OL l2ooAddr l1Client,
         pc_NextTimestamp = l2oo_NextTimestamp OL l2ooAddr l1Client, pc_AppendL2Output = l2oo_AppendL2Output OL l2ooAddr l1Client privKey chainID,
         pc_RawTransact = l2oo_RawTransact OL l2ooAddr l1Client privKey chainID, pc_L1Header = eth_LatestHeader X l1Client,
         pc_L2HeaderByNumber = eth_HeaderByNumber X l2Client, pc_OutputAtBlock = RollupClient_OutputAtBlock (hexutil_EncodeBig OL) rollupClient,
         pc_Transactor = bind_NewKeyedTransactor OL privKey chainID, pc_SendTransaction = eth_SendTransaction X l1Client\<rparr>)"

definition NewL2OutputSubmitter ::
  "header_lib \<Rightarrow> ('wl, 'k) wallet_lib \<Rightarrow> ('n, 'c, 'k) eth_lib \<Rightarrow> ('n, 'c, 'k) oracle_lib \<Rightarrow> proposer_Config \<Rightarrow> ('n, 'n submitter) rpc" where
  "NewL2OutputSubmitter H W X OL cfg =
     rbind (lift_res (of_sum (hdwallet_NewFromMnemonic W (oc_Mnemonic cfg)))) (\<lambda>wallet.
     rbind (lift_res (of_sum (wallet_PrivateKey W wallet (oc_L2OutputHDPath cfg)))) (\<lambda>l2OutputPrivKey.
     rbind (lift_res (parseAddress W (oc_L2OOAddress cfg))) (\<lambda>l2ooAddress.
     rbind (dialEthClientWithTimeout X (oc_L1EthRpc cfg)) (\<lambda>l1Client.
     rbind (dialEthClientWithTimeout X (oc_L2EthRpc cfg)) (\<lambda>l2Client.
     rbind (dialRollupClientWithTimeout X (oc_RollupRpc cfg)) (\<lambda>rollupClient.
     rbind (eth_ChainID X l1Client) (\<lambda>chainID.
     rbind (lift_res (prop_NewDriver W X OL l1Client l2Client rollupClient l2ooAddress chainID l2OutputPrivKey)) (\<lambda>l2OutputDriver.
     let service = \<lparr>svc_Driver = prop_driver H l2OutputDriver, svc_L1Client = eth_Backend X l1Client,
                    svc_NumConfirmations = oc_NumConfirmations cfg, svc_SafeAbortNonceTooLowCount = oc_SafeAbortNonceTooLowCount cfg\<rparr> in
     rbind (lift_res (NewService service)) (\<lambda>_.
     ret \<lparr>sub_service = service, sub_PollInterval = oc_PollInterval cfg, sub_ResubmissionTimeout = oc_ResubmissionTimeout cfg,
          sub_ReceiptQueryInterval = 1000 * Millisecond\<rparr>)))))))))"

definition proposer_setup ::
  "(string \<Rightarrow> error + 'l) \<Rightarrow> header_lib \<Rightarrow> ('wl, 'k) wallet_lib \<Rightarrow> ('n, 'c, 'k) eth_lib \<Rightarrow> ('n, 'c, 'k) oracle_lib \<Rightarrow> cli_ctx \<Rightarrow> ('n, 'l log_handler \<times> 'n submitter) rpc" where
  "proposer_setup LV H W X OL ctx =
     (let cfg = proposer_NewConfig ctx in
      rbind (lift_res (submitter_log LV (oc_LogTerminal cfg) (oc_LogLevel cfg))) (\<lambda>l.
      rbind (NewL2OutputSubmitter H W X OL cfg) (\<lambda>l2OutputSubmitter. ret (l, l2OutputSubmitter))))"

inductive proposer_Main ::
  "(string \<Rightarrow> error + 'l) \<Rightarrow> header_lib \<Rightarrow> ('wl, 'k) wallet_lib \<Rightarrow> ('n, 'c, 'k) eth_lib \<Rightarrow> ('n, 'c, 'k) oracle_lib \<Rightarrow> cli_ctx \<Rightarrow>
    'n \<Rightarrow> 'n tick_result list \<Rightarrow> unit res \<Rightarrow> 'n \<Rightarrow> bool" for LV H W X OL ctx w where
  failed: "proposer_setup LV H W X OL ctx w = (Err e, w') \<Longrightarrow> proposer_Main LV H W X OL ctx w [] (Err e) w'"
| panicked: "proposer_setup LV H W X OL ctx w = (Panic m, w') \<Longrightarrow> proposer_Main LV H W X OL ctx w [] (Panic m) w'"
| signalled: "proposer_setup LV H W X OL ctx w = (Ok (l, l2OutputSubmitter), w1) \<Longrightarrow> eventLoop (sub_service l2OutputSubmitter) w1 results w' \<Longrightarrow>
    proposer_Main LV H W X OL ctx w results (Ok ()) w'"

lemma proposer_Main_tick:
  assumes "proposer_Main LV H W X OL ctx w results r w'" and "x \<in> set results"
  obtains b w1 u u' where "NewL2OutputSubmitter H W X OL (proposer_NewConfig ctx) w = (Ok b, w1)" "tick (sub_service b) u x u'"
  using assms
proof (cases rule: proposer_Main.cases)
  case (signalled l b w1)
  then have "NewL2OutputSubmitter H W X OL (proposer_NewConfig ctx) w = (Ok b, w1)" by (auto simp: proposer_setup_def Let_def rbind_Ok_iff)
  moreover obtain u u' where "tick (sub_service b) u x u'" using eventLoop_tick [OF signalled(3) assms(2)] by blast
  ultimately show thesis by (rule that)
qed simp_all

section \<open>What a running submitter publishes\<close>

text \<open>Signing keeps the fields of a transaction.\<close>

definition signing_ok :: "('n, 'c, 'k) eth_lib \<Rightarrow> bool" where
  "signing_ok X \<longleftrightarrow> (\<forall>k chainID rawTx tx. types_SignNewTx X k chainID rawTx = Inr tx \<longrightarrow>
     tx_Nonce tx = raw_Nonce rawTx \<and> tx_To tx = raw_To rawTx \<and> tx_Data tx = raw_Data rawTx \<and> tx_Gas tx = raw_Gas rawTx)"

text \<open>Every rollup client that can be dialed is connected to the given server.\<close>

definition dials :: "('n, 'c, 'k) eth_lib \<Rightarrow> 'n caller \<Rightarrow> bool" where
  "dials X server \<longleftrightarrow> (\<forall>url n call n'. rpc_Dial X url n = (Ok call, n') \<longrightarrow> delivers call server)"

lemma NewBatchSubmitter_Ok:
  assumes "NewBatchSubmitter W X J cfg w0 = (Ok b, w1)"
  obtains wallet key l1 call chainID n n' where
    "hdwallet_NewFromMnemonic W (bc_Mnemonic cfg) = Inr wallet" "wallet_PrivateKey W wallet (bc_SequencerHDPath cfg) = Inr key"
    "common_IsHexAddress W (bc_SequencerBatchInboxAddress cfg)" "rpc_Dial X (bc_RollupRpc cfg) n = (Ok call, n')" "bc_NumConfirmations cfg \<noteq> 0"
    "sub_service b = seq_service (seq_NewDriver W X cfg l1 call (common_HexToAddress W (bc_SequencerBatchInboxAddress cfg))
       \<lparr>db_filename = bc_SequencerHistoryDBFilename cfg, db_maxEntries = 600, db_genesisHash = common_HexToHash W (bc_SequencerGenesisHash cfg), db_json = J\<rparr>
       chainID key) (eth_Backend X l1) (bc_NumConfirmations cfg) (bc_SafeAbortNonceTooLowCount cfg)"
proof -
  from assms obtain wallet key inbox l1 call db chainID n n' f f' where st: "of_sum (hdwallet_NewFromMnemonic W (bc_Mnemonic cfg)) = Ok wallet"
    "of_sum (wallet_PrivateKey W wallet (bc_SequencerHDPath cfg)) = Ok key" "parseAddress W (bc_SequencerBatchInboxAddress cfg) = Ok inbox"
    "rpc_Dial X (bc_RollupRpc cfg) n = (Ok call, n')"
    "batch_submitter_db J (bc_SequencerHistoryDBFilename cfg) (common_HexToHash W (bc_SequencerGenesisHash cfg)) f = (Ok db, f')"
    "NewService (seq_service (seq_NewDriver W X cfg l1 call inbox db chainID key) (eth_Backend X l1) (bc_NumConfirmations cfg) (bc_SafeAbortNonceTooLowCount cfg)) = Ok ()"
    "sub_service b = seq_service (seq_NewDriver W X cfg l1 call inbox db chainID key) (eth_Backend X l1) (bc_NumConfirmations cfg) (bc_SafeAbortNonceTooLowCount cfg)"
    unfolding NewBatchSubmitter_def Let_def dialRollupClientWithTimeout_def by (clarsimp simp: res_simps)
  show thesis
  proof (rule that)
    show "hdwallet_NewFromMnemonic W (bc_Mnemonic cfg) = Inr wallet" "wallet_PrivateKey W wallet (bc_SequencerHDPath cfg) = Inr key"
      using st(1,2) by (simp_all add: of_sum_def split: sum.splits)
    show "common_IsHexAddress W (bc_SequencerBatchInboxAddress cfg)" using st(3) by (simp add: parseAddress_def split: if_splits)
    show "rpc_Dial X (bc_RollupRpc cfg) n = (Ok call, n')" by (rule st(4))
    show "bc_NumConfirmations cfg \<noteq> 0" using st(6) by (simp add: NewService_def NewSimpleTxManager_def seq_service_def split: if_splits)
    have "inbox = common_HexToAddress W (bc_SequencerBatchInboxAddress cfg)" using st(3) by (simp add: parseAddress_def split: if_splits)
    moreover have "db = \<lparr>db_filename = bc_SequencerHistoryDBFilename cfg, db_maxEntries = 600, db_genesisHash = common_HexToHash W (bc_SequencerGenesisHash cfg), db_json = J\<rparr>"
      using st(5) by (simp add: batch_submitter_db_def OpenJSONFileDatabase_def rbind_Ok_iff)
    ultimately show "sub_service b = seq_service (seq_NewDriver W X cfg l1 call (common_HexToAddress W (bc_SequencerBatchInboxAddress cfg))
       \<lparr>db_filename = bc_SequencerHistoryDBFilename cfg, db_maxEntries = 600, db_genesisHash = common_HexToHash W (bc_SequencerGenesisHash cfg), db_json = J\<rparr>
       chainID key) (eth_Backend X l1) (bc_NumConfirmations cfg) (bc_SafeAbortNonceTooLowCount cfg)" using st(7) by simp
  qed
qed

text \<open>From the command line of the batch submitter to L1. If the submitter could be built from its configuration and is connected to a rollup node, then whatever an
  iteration of its service publishes goes to the configured batch inbox, with the nonce that L1 reported for the wallet of the configured
  mnemonic and path; its data, decoded as the derivation pipeline decodes it, is exactly the list of batches of the canonical L2 blocks that
  follow a block of the history file, in order and without a gap, and is not larger than configured.\<close>

theorem batch_submitter_publishes:
  assumes "NewBatchSubmitter W X J cfg w0 = (Ok b, w1)" and "signing_ok X" and "rlp_batch_ok R" and "rpc_naming NL"
    and "dials X (serve_node NL parseNum G H R T (readonly_client H c genesis))"
    and "l2_view H c (sw_net w) chain" and "tick (sub_service b) w (Sent tx s r) w'" and "tx' \<in> set (t_published s)"
  shows "tx_To tx' = Some (common_HexToAddress W (bc_SequencerBatchInboxAddress cfg)) \<and>
    (\<exists>wallet key l1 w2 w3. hdwallet_NewFromMnemonic W (bc_Mnemonic cfg) = Inr wallet \<and> wallet_PrivateKey W wallet (bc_SequencerHDPath cfg) = Inr key \<and>
       be_NonceAt (eth_Backend X l1) (key_PubkeyToAddress W key) w2 = (Ok (tx_Nonce tx'), w3)) \<and>
    (\<exists>db h e prev blocks batches. db_filename db = bc_SequencerHistoryDBFilename cfg \<and> LoadHistory db (sw_fs w) = (Ok h, sw_fs w) \<and> e \<in> set (BlockIDs h) \<and>
       common_point H chain (History_Ancestors h) prev \<and> id_Hash prev = id_Hash e \<and>
       map (\<lambda>i. chain (id_Number prev + of_nat i)) [1..<Suc (length blocks)] = map Some blocks \<and>
       map (BlockToBatch G) blocks = map Inr batches \<and> DecodeBatches R (tx_Data tx') = Inr (List.map_filter id batches)) \<and>
    (of_nat (length (tx_Data tx')) :: u64) \<le> bc_MaxL1TxSize cfg"
proof -
  obtain wallet key l1 call chainID n n' where
    wk: "hdwallet_NewFromMnemonic W (bc_Mnemonic cfg) = Inr wallet" "wallet_PrivateKey W wallet (bc_SequencerHDPath cfg) = Inr key"
    and dial: "rpc_Dial X (bc_RollupRpc cfg) n = (Ok call, n')"
    and svc: "sub_service b = seq_service (seq_NewDriver W X cfg l1 call (common_HexToAddress W (bc_SequencerBatchInboxAddress cfg))
       \<lparr>db_filename = bc_SequencerHistoryDBFilename cfg, db_maxEntries = 600, db_genesisHash = common_HexToHash W (bc_SequencerGenesisHash cfg), db_json = J\<rparr>
       chainID key) (eth_Backend X l1) (bc_NumConfirmations cfg) (bc_SafeAbortNonceTooLowCount cfg)" by (rule NewBatchSubmitter_Ok [OF assms(1)])
  define db where "db = \<lparr>db_filename = bc_SequencerHistoryDBFilename cfg, db_maxEntries = 600, db_genesisHash = common_HexToHash W (bc_SequencerGenesisHash cfg), db_json = J\<rparr>"
  define d where "d = seq_NewDriver W X cfg l1 call (common_HexToAddress W (bc_SequencerBatchInboxAddress cfg)) db chainID key"
  have d: "sc_BatchInboxAddress d = common_HexToAddress W (bc_SequencerBatchInboxAddress cfg)" "sc_walletAddr d = key_PubkeyToAddress W key" "sc_HistoryDB d = db"
    "sc_MaxL1TxSize d = bc_MaxL1TxSize cfg" "sc_GetBatchBundle d = RollupClient_GetBatchBundle call" "sc_SignNewTx d = types_SignNewTx X key chainID"
    by (simp_all add: d_def seq_NewDriver_def)
  have sign: "signer_ok d" using assms(2) by (simp add: signer_ok_def signing_ok_def d)
  have "delivers call (serve_node NL parseNum G H R T (readonly_client H c genesis))" using assms(5) dial unfolding dials_def by blast
  then have bundles: "\<And>req n b n'. sc_GetBatchBundle d req n = (Ok b, n') \<Longrightarrow> GetBatchBundle G H R (readonly_client H c genesis) req n = (Ok b, n')"
    using client_gets_bundle [OF assms(4)] by (simp add: d)
  from submitted_batches [OF sign assms(3) bundles assms(6) assms(7) [unfolded svc, folded db_def, folded d_def] assms(8)]
  have pub: "tx_To tx' = Some (sc_BatchInboxAddress d)" "\<exists>w1 w2. be_NonceAt (eth_Backend X l1) (sc_walletAddr d) w1 = (Ok (tx_Nonce tx'), w2)"
    "\<exists>h e prev blocks batches. LoadHistory (sc_HistoryDB d) (sw_fs w) = (Ok h, sw_fs w) \<and> e \<in> set (BlockIDs h) \<and>
       common_point H chain (History_Ancestors h) prev \<and> id_Hash prev = id_Hash e \<and>
       map (\<lambda>i. chain (id_Number prev + of_nat i)) [1..<Suc (length blocks)] = map Some blocks \<and>
       map (BlockToBatch G) blocks = map Inr batches \<and> DecodeBatches R (tx_Data tx') = Inr (List.map_filter id batches)"
    "(of_nat (length (tx_Data tx')) :: u64) \<le> sc_MaxL1TxSize d" by blast+
  moreover have "db_filename db = bc_SequencerHistoryDBFilename cfg" by (simp add: db_def)
  ultimately show ?thesis using wk unfolding d by blast
qed

text \<open>What the contract layer promises: the transaction of a call has the nonce of the options and goes to the contract; a raw one has the given data.\<close>

definition oracle_ok :: "('n, 'c, 'k) oracle_lib \<Rightarrow> bool" where
  "oracle_ok OL \<longleftrightarrow>
     (\<forall>a c k ch n r t bh bn w tx w'. l2oo_AppendL2Output OL a c k ch n r t bh bn w = (Ok tx, w') \<longrightarrow> tx_Nonce tx = of_int n \<and> tx_To tx = Some a) \<and>
     (\<forall>a c k ch n d w tx w'. l2oo_RawTransact OL a c k ch n d w = (Ok tx, w') \<longrightarrow> tx_Nonce tx = of_int n \<and> tx_To tx = Some a \<and> tx_Data tx = d)"

lemma NewL2OutputSubmitter_Ok:
  assumes "NewL2OutputSubmitter H W X OL cfg w0 = (Ok b, w1)"
  obtains wallet key l1 l2 call chainID d n n' where
    "hdwallet_NewFromMnemonic W (oc_Mnemonic cfg) = Inr wallet" "wallet_PrivateKey W wallet (oc_L2OutputHDPath cfg) = Inr key"
    "rpc_Dial X (oc_RollupRpc cfg) n = (Ok call, n')"
    "prop_NewDriver W X OL l1 l2 call (common_HexToAddress W (oc_L2OOAddress cfg)) chainID key = Ok d"
    "svc_Driver (sub_service b) = prop_driver H d" "svc_L1Client (sub_service b) = eth_Backend X l1"
  using assms that
  by (auto simp: NewL2OutputSubmitter_def res_simps Let_def of_sum_def parseAddress_def dialRollupClientWithTimeout_def
      NewService_def split: sum.splits if_splits)


section \<open>Two concrete submitters\<close>

definition demo_rpc :: rpc_lib where
  "demo_rpc = \<lparr>formatName = demo_formatName, splitMethod = demo_splitMethod\<rparr>"

definition demo_EncodeBig :: "int \<Rightarrow> string" where
  "demo_EncodeBig n = (if n < 0 then CHR ''-'' else CHR ''+'') # replicate (nat \<bar>n\<bar>) CHR ''1''"

fun demo_parseNum :: "string \<Rightarrow> error + BlockNumber" where
  "demo_parseNum [] = Inl (ErrMsg ''empty'')"
| "demo_parseNum (c # cs) = Inr (if c = CHR ''-'' then - of_nat (length cs) else of_nat (length cs))"

definition demo_server :: "unit caller" where
  "demo_server = serve_node demo_rpc demo_parseNum demo_geth node_hlib demo_rlp node_trie (readonly_client node_hlib node_client (cfg_Genesis demo_config))"

definition demo_wallet :: "(unit, unit) wallet_lib" where
  "demo_wallet = \<lparr>hdwallet_NewFromMnemonic = (\<lambda>m. if m = ''test junk'' then Inr () else Inl (ErrMsg ''invalid mnemonic'')), wallet_PrivateKey = (\<lambda>_ p. Inr ()),
     key_PubkeyToAddress = (\<lambda>_. 7), common_IsHexAddress = (\<lambda>a. a \<noteq> []), common_HexToAddress = (\<lambda>a. of_nat (length a)), common_HexToHash = (\<lambda>h. of_nat (length h))\<rparr>"

text \<open>The client of L1 carries the time of its latest header.\<close>

definition demo_eth :: "Header \<Rightarrow> (unit, unit, unit) eth_lib" where
  "demo_eth latest = \<lparr>ethclient_Dial = (\<lambda>_. ret ()), rpc_Dial = (\<lambda>_. ret demo_server), eth_ChainID = (\<lambda>_. ret 900), eth_SuggestGasTipCap = (\<lambda>_. ret 1),
     eth_LatestHeader = (\<lambda>_. ret latest), eth_HeaderByNumber = (\<lambda>_ n. ret (blk_Header (node_block n []))), eth_SendTransaction = (\<lambda>_ tx. ret ()),
     eth_Backend = (\<lambda>_. demo_l1_backend), core_IntrinsicGas = (\<lambda>d. Inr 21000),
     types_SignNewTx = (\<lambda>_ _ r. Inr \<lparr>tx_Type = 2, tx_To = raw_To r, tx_Data = raw_Data r, tx_Nonce = raw_Nonce r, tx_Gas = raw_Gas r, tx_Hash = 33\<rparr>)\<rparr>"

definition demo_oracle :: "(unit, unit, unit) oracle_lib" where
  "demo_oracle = \<lparr>l2oo_New = (\<lambda>_. Inr ()), l2oo_LatestBlockTimestamp = (\<lambda>_ _. ret 10), l2oo_ComputeL2BlockNumber = (\<lambda>_ _ t. ret ((t - 10) div 2)),
     l2oo_NextTimestamp = (\<lambda>_ _. ret 14),
     l2oo_AppendL2Output = (\<lambda>a _ _ _ n r t bh bn. ret \<lparr>tx_Type = 2, tx_To = Some a, tx_Data = word_be 32 r, tx_Nonce = of_int n, tx_Gas = 0, tx_Hash = 33\<rparr>),
     l2oo_RawTransact = (\<lambda>a _ _ _ n d. ret \<lparr>tx_Type = 2, tx_To = Some a, tx_Data = d, tx_Nonce = of_int n, tx_Gas = 0, tx_Hash = 33\<rparr>),
     bind_NewKeyedTransactor = (\<lambda>_ _. Inr ()), hexutil_EncodeBig = demo_EncodeBig\<rparr>"

definition demo_batcher_Config :: batcher_Config where
  "demo_batcher_Config = \<lparr>bc_L1EthRpc = ''l1'', bc_L2EthRpc = ''l2'', bc_RollupRpc = ''rollup'', bc_MinL1TxSize = 10, bc_MaxL1TxSize = 1000, bc_PollInterval = 1000,
     bc_NumConfirmations = 2, bc_SafeAbortNonceTooLowCount = 3, bc_ResubmissionTimeout = 1000, bc_Mnemonic = ''test junk'', bc_SequencerHDPath = ''m/1'',
     bc_SequencerHistoryDBFilename = ''history.json'', bc_SequencerGenesisHash = ''0x'', bc_SequencerBatchInboxAddress = ''0xff0000'', bc_LogLevel = ''info'', bc_LogTerminal = True\<rparr>"

definition demo_proposer_Config :: proposer_Config where
  "demo_proposer_Config = \<lparr>oc_L1EthRpc = ''l1'', oc_L2EthRpc = ''l2'', oc_RollupRpc = ''rollup'', oc_L2OOAddress = ''0x0000000000000000042'', oc_PollInterval = 1000,
     oc_NumConfirmations = 2, oc_SafeAbortNonceTooLowCount = 3, oc_ResubmissionTimeout = 1000, oc_Mnemonic = ''test junk'', oc_L2OutputHDPath = ''m/2'',
     oc_LogLevel = ''info'', oc_LogTerminal = True\<rparr>"

text \<open>Both programs use the same names for the options they share.\<close>

definition demo_submit_ctx :: cli_ctx where
  "demo_submit_ctx =
     \<lparr>GlobalString = (\<lambda>n. case map_of [(''l1-eth-rpc'', ''l1''), (''l2-eth-rpc'', ''l2''), (''rollup-rpc'', ''rollup''), (''mnemonic'', ''test junk''), (''sequencer-hd-path'', ''m/1''),
        (''l2-output-hd-path'', ''m/2''), (''sequencer-history-db-filename'', ''history.json''), (''sequencer-genesis-hash'', ''0x''), (''sequencer-batch-inbox-address'', ''0xff0000''),
        (''l2oo-address'', ''0x0000000000000000042''), (''log-level'', ''info'')] n of None \<Rightarrow> [] | Some s \<Rightarrow> s),
      GlobalStringSlice = (\<lambda>_. []), GlobalInt = (\<lambda>_. 0), GlobalUint = (\<lambda>_. 0),
      GlobalUint64 = (\<lambda>n. case map_of [(''min-l1-tx-size-bytes'', 10), (''max-l1-tx-size-bytes'', 1000), (''num-confirmations'', 2), (''safe-abort-nonce-too-low-count'', 3)] n of
        None \<Rightarrow> 0 | Some u \<Rightarrow> u),
      GlobalBool = (\<lambda>_. True), GlobalDuration = (\<lambda>_. 1000), IsSet = (\<lambda>_. True)\<rparr>"

lemma demo_configs: "batcher_NewConfig demo_submit_ctx = demo_batcher_Config" "proposer_NewConfig demo_submit_ctx = demo_proposer_Config"
  by (simp_all add: batcher_NewConfig_def proposer_NewConfig_def demo_submit_ctx_def demo_batcher_Config_def demo_proposer_Config_def batcher_flag_defs proposer_flag_defs)

lemma demo_rpc_naming: "rpc_naming demo_rpc"
  by (simp add: rpc_naming_def demo_splitMethod_append demo_rpc_def)

lemma demo_parseEncode: "demo_parseNum (demo_EncodeBig n) = Inr (of_int n)"
proof (cases "n < 0")
  case True
  then have "- (of_int (- n) :: BlockNumber) = of_int n" by simp
  with True show ?thesis by (simp add: demo_EncodeBig_def)
qed (simp add: demo_EncodeBig_def)

lemma demo_numbers_ok: "numbers_ok (hexutil_EncodeBig demo_oracle) demo_parseNum"
  by (simp add: numbers_ok_def demo_oracle_def demo_parseEncode)

lemma demo_dials: "dials (demo_eth latest) (serve_node demo_rpc demo_parseNum demo_geth node_hlib demo_rlp node_trie (readonly_client node_hlib node_client (cfg_Genesis demo_config)))"
  by (simp add: dials_def demo_eth_def delivers_def demo_server_def)

lemma demo_libs_ok: "signing_ok (demo_eth latest)" "oracle_ok demo_oracle"
  by (auto simp: signing_ok_def oracle_ok_def demo_eth_def demo_oracle_def)

lemma rbind_conv:
  assumes "\<And>x. g (f x) = ret x"
  shows "rbind (rbind m (\<lambda>x. ret (f x))) g = m"
  using assms by (intro ext) (auto simp: rbind_def split: prod.splits res.splits)

lemma demo_client:
  "RollupClient_GetBatchBundle demo_server = GetBatchBundle demo_geth node_hlib demo_rlp (readonly_client node_hlib node_client (cfg_Genesis demo_config))"
  "RollupClient_OutputAtBlock demo_EncodeBig demo_server = (\<lambda>n. OutputAtBlock demo_geth node_hlib node_trie (readonly_client node_hlib node_client (cfg_Genesis demo_config)) (of_int n))"
  by (intro ext, simp add: RollupClient_GetBatchBundle_def RollupClient_OutputAtBlock_def demo_server_def serve_node_methods [OF demo_rpc_naming]
      demo_parseEncode rbind_conv)+

lemma demo_batcher:
  "\<exists>b. NewBatchSubmitter demo_wallet (demo_eth (blk_Header (node_block 2 []))) demo_json demo_batcher_Config demo_seq_world = (Ok b, demo_seq_world) \<and>
     sub_service b = seq_service demo_seq demo_l1_backend 2 3"
  by (simp add: NewBatchSubmitter_def seq_NewDriver_def demo_client rbind_def of_sum_def parseAddress_def dialEthClientWithTimeout_def dialRollupClientWithTimeout_def
      batch_submitter_db_def OpenJSONFileDatabase_def NewService_def NewSimpleTxManager_def seq_service_def on_net_def on_fs_def Let_def
      demo_wallet_def demo_eth_def demo_batcher_Config_def demo_seq_def demo_db_def demo_seq_world_def demo_fs_def)

lemma demo_proposer:
  "\<exists>b. NewL2OutputSubmitter node_hlib demo_wallet (demo_eth ((blk_Header (node_block 9 []))\<lparr>h_Time := 100\<rparr>)) demo_oracle demo_proposer_Config () = (Ok b, ()) \<and>
     sub_service b = demo_prop_service"
  by (simp add: NewL2OutputSubmitter_def prop_NewDriver_def demo_client rbind_def of_sum_def parseAddress_def dialEthClientWithTimeout_def dialRollupClientWithTimeout_def
      NewService_def NewSimpleTxManager_def Let_def
      demo_wallet_def demo_eth_def demo_oracle_def demo_proposer_Config_def demo_prop_service_def demo_prop_def demo_l1_backend_def)

text \<open>A run of each program with one iteration that publishes.\<close>

lemma demo_batcher_run:
  "\<exists>tx s r w' tx'. batcher_Main (\<lambda>_. Inr ()) demo_wallet (demo_eth (blk_Header (node_block 2 []))) demo_json demo_submit_ctx demo_seq_world [Sent tx s r] (Ok ()) w' \<and>
     tx' \<in> set (t_published s)"
proof -
  let ?X = "demo_eth (blk_Header (node_block 2 []))"
  obtain b where b: "NewBatchSubmitter demo_wallet ?X demo_json demo_batcher_Config demo_seq_world = (Ok b, demo_seq_world)"
    "sub_service b = seq_service demo_seq demo_l1_backend 2 3" using demo_batcher by blast
  obtain tx s r w' tx' where tick: "tick (sub_service b) demo_seq_world (Sent tx s r) w'" and tx': "tx' \<in> set (t_published s)"
    using demo_tick unfolding b(2) neq_Nil_conv by (metis list.set_intros(1))
  obtain l where "batcher_setup (\<lambda>_. Inr ()) demo_wallet ?X demo_json demo_submit_ctx demo_seq_world = (Ok (l :: unit log_handler, b), demo_seq_world)"
    using b(1) by (simp add: batcher_setup_def demo_configs submitter_log_def of_sum_def rbind_def Let_def)
  from batcher_Main.signalled [OF this eventLoop.iterate [OF tick eventLoop.cancelled]] tx' show ?thesis by blast
qed

lemma demo_proposer_run:
  "\<exists>tx s r w' tx'. proposer_Main (\<lambda>_. Inr ()) node_hlib demo_wallet (demo_eth ((blk_Header (node_block 9 []))\<lparr>h_Time := 100\<rparr>)) demo_oracle demo_submit_ctx () [Sent tx s r] (Ok ()) w' \<and>
     tx' \<in> set (t_published s)"
proof -
  let ?X = "demo_eth ((blk_Header (node_block 9 []))\<lparr>h_Time := 100\<rparr>)"
  obtain b where b: "NewL2OutputSubmitter node_hlib demo_wallet ?X demo_oracle demo_proposer_Config () = (Ok b, ())"
    "sub_service b = demo_prop_service" using demo_proposer by blast
  obtain tx s r w' tx' where tick: "tick (sub_service b) () (Sent tx s r) w'" and tx': "tx' \<in> set (t_published s)"
    using demo_prop_tick unfolding b(2) neq_Nil_conv by (metis list.set_intros(1))
  obtain l where "proposer_setup (\<lambda>_. Inr ()) node_hlib demo_wallet ?X demo_oracle demo_submit_ctx () = (Ok (l :: unit log_handler, b), ())"
    using b(1) by (simp add: proposer_setup_def demo_configs submitter_log_def of_sum_def rbind_def Let_def)
  from proposer_Main.signalled [OF this eventLoop.iterate [OF tick eventLoop.cancelled]] tx' show ?thesis by blast
qed


text \<open>An address or a wallet that does not parse is refused before anything is dialed or written.\<close>

theorem bad_settings_touch_nothing:
  assumes "hdwallet_NewFromMnemonic W (bc_Mnemonic cfg) = Inl e \<or> \<not> common_IsHexAddress W (bc_SequencerBatchInboxAddress cfg)"
  shows "\<exists>err. NewBatchSubmitter W X J cfg w = (Err err, w)"
proof (cases "hdwallet_NewFromMnemonic W (bc_Mnemonic cfg)")
  case (Inr wallet)
  with assms show ?thesis
    by (cases "wallet_PrivateKey W wallet (bc_SequencerHDPath cfg)") (simp_all add: NewBatchSubmitter_def rbind_def of_sum_def parseAddress_def)
qed (simp add: NewBatchSubmitter_def rbind_def of_sum_def)

end
