(* ===== verification/Stateviz.thy ===== *)
theory Stateviz
  imports Geth "HOL-Library.List_Lexorder" "HOL-Library.Char_ord"
begin

text \<open>
  The server of the state visualisation (\<open>op-node/cmd/stateviz/main.go\<close>): it loads the snapshot log of the drivers, groups the entries by
  engine, and serves them merged by time. The file and the JSON decoders are parameters. A Go map is a function from keys to slices, where a
  missing key is the empty slice; the order of each \<open>range\<close> over it is chosen anew by the run time and is a parameter of each pass.
\<close>

section \<open>Entries\<close>

record SnapshotState =
  ss_Timestamp :: string
  ss_EngineAddr :: string
  ss_Event :: string
  ss_L1Head :: L1BlockRef
  ss_L2Head :: L2BlockRef
  ss_L2SafeHead :: L2BlockRef
  ss_L2FinalizedHead :: BlockID
  ss_L1WindowBuf :: "BlockID list"

text \<open>The outer object, with the raw JSON of its fields.\<close>

record raw_snapshot =
  raw_t :: string
  raw_engine_addr :: string
  raw_event :: string
  raw_l1Head :: string
  raw_l2Head :: string
  raw_l2SafeHead :: string
  raw_l2FinalizedHead :: string
  raw_l1WindowBuf :: string

record viz_json =
  vj_object :: "string \<Rightarrow> error + raw_snapshot"
  vj_Unquote :: "string \<Rightarrow> string option"
  vj_L1BlockRef :: "string \<Rightarrow> error + L1BlockRef"
  vj_L2BlockRef :: "string \<Rightarrow> error + L2BlockRef"
  vj_BlockID :: "string \<Rightarrow> error + BlockID"
  vj_BlockIDs :: "string \<Rightarrow> error + BlockID list option"    \<comment> \<open>\<open>null\<close> gives the nil slice\<close>

definition unquote :: "viz_json \<Rightarrow> string \<Rightarrow> string" where
  "unquote J d = (case vj_Unquote J d of None \<Rightarrow> [] | Some s \<Rightarrow> s)"

definition SnapshotState_UnmarshalJSON :: "viz_json \<Rightarrow> string \<Rightarrow> SnapshotState res" where
  "SnapshotState_UnmarshalJSON J data =
     bind_res (of_sum (vj_object J data)) (\<lambda>t.
     bind_res (of_sum (vj_L1BlockRef J (unquote J (raw_l1Head t)))) (\<lambda>l1Head.
     bind_res (of_sum (vj_L2BlockRef J (unquote J (raw_l2Head t)))) (\<lambda>l2Head.
     bind_res (of_sum (vj_L2BlockRef J (unquote J (raw_l2SafeHead t)))) (\<lambda>l2SafeHead.
     bind_res (of_sum (vj_BlockID J (unquote J (raw_l2FinalizedHead t)))) (\<lambda>finalized.
     bind_res (of_sum (vj_BlockIDs J (unquote J (raw_l1WindowBuf t)))) (\<lambda>buf.
     Ok \<lparr>ss_Timestamp = raw_t t, ss_EngineAddr = raw_engine_addr t, ss_Event = raw_event t, ss_L1Head = l1Head, ss_L2Head = l2Head,
         ss_L2SafeHead = l2SafeHead, ss_L2FinalizedHead = finalized,
         ss_L1WindowBuf = (case buf of None \<Rightarrow> [] | Some b \<Rightarrow> b)\<rparr>))))))"

section \<open>Loading\<close>

type_synonym entries = "string \<Rightarrow> SnapshotState list"

fun scan_loop :: "viz_json \<Rightarrow> string list \<Rightarrow> entries \<Rightarrow> entries res" where
  "scan_loop J [] tempEntries = Ok tempEntries"
| "scan_loop J (line # lines) tempEntries =
     bind_res (map_err (Wrap ''failed to decode snapshot log'') (SnapshotState_UnmarshalJSON J line)) (\<lambda>entry.
     scan_loop J lines (tempEntries(ss_EngineAddr entry := tempEntries (ss_EngineAddr entry) @ [entry])))"

text \<open>The file gives an error, or the lines that the scanner delivers and the error it ends with. A failed load keeps the old entries.\<close>

definition loadSnapshot :: "viz_json \<Rightarrow> error + string list \<times> error option \<Rightarrow> (entries, unit) rpc" where
  "loadSnapshot J file old =
     (case file of
        Inl e \<Rightarrow> (Err (Wrap ''failed to open snapshot file'' e), old)
      | Inr (lines, scanErr) \<Rightarrow>
          (case bind_res (scan_loop J lines (\<lambda>k. [])) (\<lambda>tempEntries.
                case scanErr of Some e \<Rightarrow> Err (Wrap ''failed to scan snapshot file'' e) | None \<Rightarrow> Ok tempEntries) of
             Ok tempEntries \<Rightarrow> (Ok (), tempEntries)
           | Err e \<Rightarrow> (Err e, old)
           | Panic p \<Rightarrow> (Panic p, old)
           | Diverge \<Rightarrow> (Diverge, old)))"

section \<open>Serving\<close>

text \<open>The search for the entry with the least timestamp among the heads of the slices.\<close>

fun find_min :: "entries \<Rightarrow> string list \<Rightarrow> (SnapshotState \<times> string) option \<Rightarrow> (SnapshotState \<times> string) option" where
  "find_min m [] acc = acc"
| "find_min m (k # ks) acc =
     (case m k of
        [] \<Rightarrow> find_min m ks acc
      | v # vs \<Rightarrow>
          (case acc of
             None \<Rightarrow> find_min m ks (Some (v, k))
           | Some (mn, mk) \<Rightarrow> if ss_Timestamp v < ss_Timestamp mn then find_min m ks (Some (v, k)) else find_min m ks acc))"

text \<open>The other engines of the row: their next entry, at the time of the row.\<close>

definition row_rest :: "entries \<Rightarrow> string \<Rightarrow> string list \<Rightarrow> string \<Rightarrow> SnapshotState list" where
  "row_rest m minKey ks t = map (\<lambda>k. (hd (m k))\<lparr>ss_Timestamp := t\<rparr>) (filter (\<lambda>k. k \<noteq> minKey \<and> m k \<noteq> []) ks)"

partial_function (option) logs_loop ::
  "(nat \<Rightarrow> string list) \<Rightarrow> (nat \<Rightarrow> string list) \<Rightarrow> nat \<Rightarrow> entries \<Rightarrow> SnapshotState list list \<Rightarrow> SnapshotState list list option" where
  "logs_loop ord1 ord2 i m rows0 =
     (case find_min m (ord1 i) None of
        None \<Rightarrow> Some rows0
      | Some (mn, minKey) \<Rightarrow>
          (let m' = m(minKey := tl (m minKey)) in
           logs_loop ord1 ord2 (Suc i) m' (rows0 @ [mn # row_rest m' minKey (ord2 i) (ss_Timestamp mn)])))"

declare logs_loop.simps [code]

definition logsHandler :: "(nat \<Rightarrow> string list) \<Rightarrow> (nat \<Rightarrow> string list) \<Rightarrow> entries \<Rightarrow> SnapshotState list list option" where
  "logsHandler ord1 ord2 entries = logs_loop ord1 ord2 0 entries []"

text \<open>Compression of the response, for clients that accept it.\<close>

record http_response =
  hr_Header :: "(string \<times> string) list"
  hr_Body :: bytes

fun Contains :: "string \<Rightarrow> string \<Rightarrow> bool" where
  "Contains [] sub \<longleftrightarrow> sub = []"
| "Contains (c # s) sub \<longleftrightarrow> take (length sub) (c # s) = sub \<or> Contains s sub"

definition makeGzipHandler :: "(bytes \<Rightarrow> bytes) \<Rightarrow> ('r \<Rightarrow> string) \<Rightarrow> ('r \<Rightarrow> http_response) \<Rightarrow> 'r \<Rightarrow> http_response" where
  "makeGzipHandler gzip acceptEncoding fn r =
     (if \<not> Contains (acceptEncoding r) ''gzip'' then fn r
      else (fn r)\<lparr>hr_Header := (''Content-Encoding'', ''gzip'') # hr_Header (fn r), hr_Body := gzip (hr_Body (fn r))\<rparr>)"

section \<open>Correctness\<close>

lemma find_min_None: "find_min m ks acc = None \<longleftrightarrow> acc = None \<and> (\<forall>k\<in>set ks. m k = [])"
  by (induction m ks acc rule: find_min.induct) (auto split: list.splits option.splits)

lemma find_min_origin: "find_min m ks acc = Some (v, k) \<Longrightarrow> acc = Some (v, k) \<or> k \<in> set ks \<and> (\<exists>vs. m k = v # vs)"
proof (induction ks arbitrary: acc)
  case (Cons j ks)
  show ?case
  proof (cases "m j")
    case (Cons u us)
    with Cons.prems Cons.IH [of "Some (u, j)"] Cons.IH [of acc] show ?thesis by (auto split: option.splits if_splits)
  qed (use Cons in auto)
qed simp

lemma find_min_le:
  "find_min m ks acc = Some (v, k) \<Longrightarrow> (\<forall>a j. acc = Some (a, j) \<longrightarrow> ss_Timestamp v \<le> ss_Timestamp a) \<and>
    (\<forall>j\<in>set ks. m j \<noteq> [] \<longrightarrow> ss_Timestamp v \<le> ss_Timestamp (hd (m j)))"
proof (induction ks arbitrary: acc)
  case (Cons j ks)
  show ?case
  proof (cases "m j")
    case (Cons u us)
    with Cons.prems Cons.IH [of "Some (u, j)"] Cons.IH [of acc] show ?thesis
      by (auto split: option.splits if_splits)
  qed (use Cons in auto)
qed auto

text \<open>Both passes see every engine with entries exactly once; the entries of an engine carry its address and are in time order.\<close>

definition orders_ok :: "string set \<Rightarrow> (nat \<Rightarrow> string list) \<Rightarrow> bool" where
  "orders_ok K ord \<longleftrightarrow> (\<forall>i. distinct (ord i) \<and> set (ord i) = K)"

definition entries_ok :: "string set \<Rightarrow> entries \<Rightarrow> bool" where
  "entries_ok K m \<longleftrightarrow> (\<forall>k. k \<notin> K \<longrightarrow> m k = []) \<and> (\<forall>k. \<forall>e\<in>set (m k). ss_EngineAddr e = k) \<and> (\<forall>k. sorted (map ss_Timestamp (m k)))"

definition row_ok :: "SnapshotState list \<Rightarrow> bool" where
  "row_ok row \<longleftrightarrow> row \<noteq> [] \<and> distinct (map ss_EngineAddr row) \<and> (\<forall>e\<in>set row. ss_Timestamp e = ss_Timestamp (hd row))"

lemma row_rest_ok:
  assumes "distinct ks" and "\<And>k. \<forall>e\<in>set (m k). ss_EngineAddr e = k" and "ss_EngineAddr mn = minKey" and "t = ss_Timestamp mn"
  shows "row_ok (mn # row_rest m minKey ks t)"
proof -
  have hd: "ss_EngineAddr (hd (m k)) = k" if "m k \<noteq> []" for k using assms(2) that by (cases "m k") auto
  then have "map ss_EngineAddr (row_rest m minKey ks t) = filter (\<lambda>k. k \<noteq> minKey \<and> m k \<noteq> []) ks"
    by (induction ks) (auto simp: row_rest_def)
  with assms(1,3,4) show ?thesis by (auto simp: row_ok_def row_rest_def)
qed

lemma entries_ok_tl: "entries_ok K m \<Longrightarrow> entries_ok K (m(k := tl (m k)))"
proof -
  have "set (tl xs) \<subseteq> set xs" for xs :: "SnapshotState list" by (cases xs) auto
  then show "entries_ok K m \<Longrightarrow> entries_ok K (m(k := tl (m k)))"
    unfolding entries_ok_def by (auto simp: map_tl sorted_tl) blast
qed

lemma logs_loop_merges:
  assumes "orders_ok K ord1" and "orders_ok K ord2" and "finite K" and "entries_ok K m"
  shows "\<exists>rows. logs_loop ord1 ord2 i m rows0 = Some (rows0 @ rows) \<and> (\<forall>k. filter (\<lambda>e. ss_EngineAddr e = k) (map hd rows) = m k) \<and>
    sorted (map (\<lambda>row. ss_Timestamp (hd row)) rows) \<and> list_all row_ok rows"
  using assms(4)
proof (induction "\<Sum>k\<in>K. length (m k)" arbitrary: i m rows0 rule: less_induct)
  case less
  show ?case
  proof (cases "find_min m (ord1 i) None")
    case None
    then have "m k = []" for k using assms(1) less.prems by (cases "k \<in> K") (auto simp: find_min_None orders_ok_def entries_ok_def)
    with None show ?thesis by (intro exI [of _ "[]"]) (subst logs_loop.simps, simp)
  next
    case (Some p)
    then obtain mn mk where p: "find_min m (ord1 i) None = Some (mn, mk)" by (cases p) auto
    from find_min_origin [OF p] assms(1) obtain vs where mk: "mk \<in> K" "m mk = mn # vs" by (auto simp: orders_ok_def)
    have least: "ss_Timestamp mn \<le> ss_Timestamp (hd (m j))" if "m j \<noteq> []" for j
      using find_min_le [OF p] that assms(1) less.prems by (auto simp: orders_ok_def entries_ok_def)
    define m' where "m' = m(mk := tl (m mk))"
    have ok': "entries_ok K m'" using less.prems by (simp add: m'_def entries_ok_tl)
    have addr: "ss_EngineAddr mn = mk" using less.prems mk(2) by (auto simp: entries_ok_def)
    let ?row = "mn # row_rest m' mk (ord2 i) (ss_Timestamp mn)"
    have "(\<Sum>k\<in>K. length (m' k)) < (\<Sum>k\<in>K. length (m k))"
      by (rule sum_strict_mono_ex1 [OF assms(3)]) (use mk in \<open>auto simp: m'_def\<close>)
    from less.hyps [OF this ok', of "Suc i" "rows0 @ [?row]"] obtain rows where
      rows: "logs_loop ord1 ord2 (Suc i) m' (rows0 @ [?row]) = Some ((rows0 @ [?row]) @ rows)"
      "\<forall>k. filter (\<lambda>e. ss_EngineAddr e = k) (map hd rows) = m' k" "sorted (map (\<lambda>row. ss_Timestamp (hd row)) rows)" "list_all row_ok rows"
      by blast
    have later: "ss_Timestamp mn \<le> ss_Timestamp e" if "e \<in> set (map hd rows)" for e
    proof -
      have "e \<in> set (filter (\<lambda>x. ss_EngineAddr x = ss_EngineAddr e) (map hd rows))" using that by simp
      then have e: "e \<in> set (m' (ss_EngineAddr e))" by (simp only: rows(2) [rule_format])
      then have "e \<in> set (m (ss_EngineAddr e))" "m (ss_EngineAddr e) \<noteq> []" by (auto simp: m'_def mk split: if_splits)
      moreover have "sorted (map ss_Timestamp (m (ss_EngineAddr e)))" using less.prems by (simp add: entries_ok_def)
      ultimately have "ss_Timestamp (hd (m (ss_EngineAddr e))) \<le> ss_Timestamp e" by (cases "m (ss_EngineAddr e)") auto
      with least [OF \<open>m (ss_EngineAddr e) \<noteq> []\<close>] show ?thesis by simp
    qed
    have "row_ok ?row" using row_rest_ok [of "ord2 i" m' mn mk] assms(2) ok' addr by (simp add: orders_ok_def entries_ok_def)
    moreover have "filter (\<lambda>e. ss_EngineAddr e = k) (mn # map hd rows) = m k" for k using rows(2) addr mk by (auto simp: m'_def)
    ultimately show ?thesis
      using rows p later by (intro exI [of _ "?row # rows"]) (subst logs_loop.simps, simp add: m'_def Let_def)
  qed
qed

lemma scan_loop_groups:
  "scan_loop J lines m = Ok m' \<Longrightarrow> \<exists>es. map (SnapshotState_UnmarshalJSON J) lines = map Ok es \<and> (\<forall>k. m' k = m k @ filter (\<lambda>e. ss_EngineAddr e = k) es)"
proof (induction lines arbitrary: m)
  case (Cons line lines)
  then obtain e where e: "SnapshotState_UnmarshalJSON J line = Ok e"
    "scan_loop J lines (m(ss_EngineAddr e := m (ss_EngineAddr e) @ [e])) = Ok m'" by (auto simp: bind_res_Ok_iff)
  from Cons.IH [OF e(2)] obtain es where "map (SnapshotState_UnmarshalJSON J) lines = map Ok es"
    "\<forall>k. m' k = (m(ss_EngineAddr e := m (ss_EngineAddr e) @ [e])) k @ filter (\<lambda>e. ss_EngineAddr e = k) es" by blast
  with e(1) show ?case by (intro exI [of _ "e # es"]) auto
qed simp

lemma loadSnapshot_Ok:
  assumes "loadSnapshot J file old = (Ok (), m)"
  shows "\<exists>lines es. file = Inr (lines, None) \<and> map (SnapshotState_UnmarshalJSON J) lines = map Ok es \<and> m = (\<lambda>k. filter (\<lambda>e. ss_EngineAddr e = k) es)"
proof -
  from assms obtain lines where f: "file = Inr (lines, None)" and "scan_loop J lines (\<lambda>k. []) = Ok m"
    by (auto simp: loadSnapshot_def bind_res_Ok_iff split: sum.splits res.splits option.splits)
  from scan_loop_groups [OF this(2)] f show ?thesis by (auto simp: fun_eq_iff)
qed

text \<open>C40: The log that is served after a successful load. For any iteration order of the maps the handler terminates; the first entries of the rows are
  exactly the entries of the file, those of each engine in file order, and sorted by time if the file is sorted for each engine. All
  entries of a row carry the time of the row and belong to different engines.\<close>

theorem snapshot_logs_merged:
  assumes "loadSnapshot J file old = (Ok (), m)" and "file = Inr (lines, None)" and "map (SnapshotState_UnmarshalJSON J) lines = map Ok es"
    and "\<forall>k. sorted (map ss_Timestamp (filter (\<lambda>e. ss_EngineAddr e = k) es))"
    and "orders_ok (ss_EngineAddr ` set es) ord1" and "orders_ok (ss_EngineAddr ` set es) ord2"
  shows "\<exists>rows. logsHandler ord1 ord2 m = Some rows \<and>
    (\<forall>k. filter (\<lambda>e. ss_EngineAddr e = k) (map hd rows) = filter (\<lambda>e. ss_EngineAddr e = k) es) \<and>
    sorted (map (\<lambda>row. ss_Timestamp (hd row)) rows) \<and> list_all row_ok rows"
proof -
  from loadSnapshot_Ok [OF assms(1)] assms(2,3) have m: "m = (\<lambda>k. filter (\<lambda>e. ss_EngineAddr e = k) es)"
    by (auto dest: map_injective [OF _ injI])
  have "entries_ok (ss_EngineAddr ` set es) m" using assms(4) by (auto simp: entries_ok_def m filter_empty_conv)
  from logs_loop_merges [OF assms(5,6) _ this, of 0 "[]"] show ?thesis by (simp add: logsHandler_def m)
qed

text \<open>The comment of the handler says that each row has the states of every driver. An engine whose entries are all served is left out of the
  later rows, and the states of the other engines are their next ones, which at the time of the row are still to come.\<close>

definition demo_entry :: "string \<Rightarrow> string \<Rightarrow> SnapshotState" where
  "demo_entry t a = \<lparr>ss_Timestamp = t, ss_EngineAddr = a, ss_Event = [], ss_L1Head = \<lparr>l1_Hash = 0, l1_Number = 0, l1_ParentHash = 0, l1_Time = 0\<rparr>,
     ss_L2Head = \<lparr>l2_Hash = 0, l2_Number = 0, l2_ParentHash = 0, l2_Time = 0, l2_L1Origin = \<lparr>id_Hash = 0, id_Number = 0\<rparr>, l2_SequenceNumber = 0\<rparr>,
     ss_L2SafeHead = \<lparr>l2_Hash = 0, l2_Number = 0, l2_ParentHash = 0, l2_Time = 0, l2_L1Origin = \<lparr>id_Hash = 0, id_Number = 0\<rparr>, l2_SequenceNumber = 0\<rparr>,
     ss_L2FinalizedHead = \<lparr>id_Hash = 0, id_Number = 0\<rparr>, ss_L1WindowBuf = []\<rparr>"

definition demo_entries :: entries where
  "demo_entries k = (if k = ''a'' then [demo_entry ''1'' ''a''] else if k = ''b'' then [demo_entry ''2'' ''b'', demo_entry ''3'' ''b''] else [])"

theorem rows_miss_drivers:
  "logsHandler (\<lambda>i. [''a'', ''b'']) (\<lambda>i. [''a'', ''b'']) demo_entries =
     Some [[demo_entry ''1'' ''a'', demo_entry ''1'' ''b''], [demo_entry ''2'' ''b''], [demo_entry ''3'' ''b'']]"
  by code_simp

section \<open>A concrete log\<close>

text \<open>A line is a digit for the time and a letter for the engine.\<close>

definition demo_viz :: viz_json where
  "demo_viz = \<lparr>vj_object = (\<lambda>s. Inr \<lparr>raw_t = take 1 s, raw_engine_addr = drop 1 s, raw_event = [], raw_l1Head = [], raw_l2Head = [], raw_l2SafeHead = [],
       raw_l2FinalizedHead = [], raw_l1WindowBuf = []\<rparr>),
     vj_Unquote = Some, vj_L1BlockRef = (\<lambda>s. Inr (ss_L1Head (demo_entry [] []))), vj_L2BlockRef = (\<lambda>s. Inr (ss_L2Head (demo_entry [] []))),
     vj_BlockID = (\<lambda>s. Inr \<lparr>id_Hash = 0, id_Number = 0\<rparr>), vj_BlockIDs = (\<lambda>s. Inr None)\<rparr>"

theorem snapshot_logs_merged_witness:
  "\<exists>m rows. loadSnapshot demo_viz (Inr ([''2b'', ''1a'', ''3b''], None)) (\<lambda>k. []) = (Ok (), m) \<and>
     logsHandler (\<lambda>i. [''b'', ''a'']) (\<lambda>i. [''a'', ''b'']) m = Some rows \<and> sorted (map (\<lambda>row. ss_Timestamp (hd row)) rows) \<and>
     filter (\<lambda>e. ss_EngineAddr e = ''b'') (map hd rows) = [demo_entry ''2'' ''b'', demo_entry ''3'' ''b'']"
proof -
  let ?es = "[demo_entry ''2'' ''b'', demo_entry ''1'' ''a'', demo_entry ''3'' ''b'']"
  have es: "map (SnapshotState_UnmarshalJSON demo_viz) [''2b'', ''1a'', ''3b''] = map Ok ?es" by code_simp
  then obtain m where m: "loadSnapshot demo_viz (Inr ([''2b'', ''1a'', ''3b''], None)) (\<lambda>k. []) = (Ok (), m)"
    by (simp add: loadSnapshot_def)
  have addr: "ss_EngineAddr (demo_entry t a) = a" "ss_Timestamp (demo_entry t a) = t" for t a by (simp_all add: demo_entry_def)
  have "\<forall>k. sorted (map ss_Timestamp (filter (\<lambda>e. ss_EngineAddr e = k) ?es))"
    by (simp add: addr less_eq_list_code less_char_def)
  moreover have "ss_EngineAddr ` set ?es = {''a'', ''b''}" by (auto simp: addr)
  ultimately show ?thesis
    using snapshot_logs_merged [OF m refl es, of "\<lambda>i. [''b'', ''a'']" "\<lambda>i. [''a'', ''b'']"] m
    by (fastforce simp: orders_ok_def addr)
qed

end
