(* ===== verification/Spec2Isabelle.thy ===== *)
theory Spec2Isabelle
  imports L1Source Batching GossipNet Withdrawals Submitters Stateviz "HOL-Library.Sublist"
begin

text \<open>
  \<^bold>\<open>Verification of the Optimism rollup node, batch submitter and output proposer\<close>

  The program has three processes. The \<^emph>\<open>rollup node\<close> (\<open>op-node\<close>) follows an L1 chain and derives
  an L2 chain from it: deposits and batches of L2 transactions that were published on L1 become
  blocks of an execution engine; as a sequencer it also produces unsafe blocks and gossips them. The
  \<^emph>\<open>batch submitter\<close> (\<open>op-batcher\<close>) asks the node for bundles of batches and publishes them on L1.
  The \<^emph>\<open>output proposer\<close> (\<open>op-proposer\<close>) asks the node for output roots and publishes these. The last
  two share a service loop and a transaction manager.

  \<^bold>\<open>Theories and the code they model\<close> (paths under \<open>src/\<close>)

  \<^item> \<open>Prelude\<close>: machine types, the outcome type \<open>res\<close> of a Go call (value, error, panic, no return),
    calls to outside services as state transformers \<open>rpc\<close>, byte codecs, slices, and the locale
    \<open>step_invariant\<close> of a state machine with an invariant.
  \<^item> \<open>Types\<close>: \<open>op-node/eth/id.go\<close> and \<open>op-node/rollup/types.go\<close>. \<open>Geth\<close>: the data of go-ethereum that the
    code reads, and its functions (hashing, transaction coding) as fields of parameter records.
  \<^item> \<open>L1Info\<close>: \<open>derive/l1_block_info.go\<close>, the calldata of the L1 attributes deposit. \<open>Deposits\<close>: the deposit
    part of \<open>derive/payload_attributes.go\<close>, from receipts of the deposit contract to deposit transactions.
  \<^item> \<open>Batches\<close>: \<open>derive/batch.go\<close> and the batch part of \<open>derive/payload_attributes.go\<close>: bundles,
    filtering and the filling of empty slots of an epoch.
  \<^item> \<open>Payload\<close>: \<open>op-node/l2/api.go\<close>, \<open>l2/util.go\<close> and the block references of \<open>l2/source.go\<close>; \<open>SSZ\<close>:
    \<open>op-node/l2/ssz.go\<close>; \<open>L2Source\<close>: the engine client and the read-only client of \<open>op-node/l2/source.go\<close>.
  \<^item> \<open>Sync\<close>: \<open>op-node/rollup/sync/start.go\<close>, the search for the heads after a restart or an L1 reorganisation.
  \<^item> \<open>Output\<close>: \<open>op-node/rollup/driver/step.go\<close>, block production and the insertion of an epoch;
    \<open>DriverState\<close>: \<open>rollup/driver/state.go\<close> and \<open>driver.go\<close>, the state of the driver, its handlers and its event loop.
  \<^item> \<open>L1Source\<close>: \<open>op-node/l1/source.go\<close>, \<open>types.go\<close> and \<open>receipts.go\<close>, the caching client of an untrusted
    L1 node; \<open>Batching\<close>: \<open>op-node/l1/batching.go\<close>, parallel batches of requests with retries.
  \<^item> \<open>Gossip\<close>: \<open>op-node/p2p/gossip.go\<close> and \<open>signer.go\<close>, signed unsafe blocks between nodes; \<open>GossipNet\<close>: the joining of the topic and the
    validator with the concurrency of the same file.
  \<^item> \<open>NodeAPI\<close>: \<open>op-node/node/api.go\<close>, \<open>bundle_builder.go\<close> and the account proofs of \<open>l2/util.go\<close>, the API
    that the two other processes call.
  \<^item> \<open>History\<close>: \<open>op-batcher/db/history_db.go\<close>; \<open>TxManager\<close>: \<open>op-proposer/txmgr\<close>; \<open>Service\<close>:
    \<open>op-proposer/service.go\<close> with the interface \<open>Driver\<close>; \<open>Sequencer\<close>: \<open>op-batcher/sequencer/driver.go\<close>
    with the service it gets; \<open>Proposer\<close>: \<open>op-proposer/drivers/l2output/driver.go\<close>.
  \<^item> \<open>Withdrawals\<close>: \<open>op-node/withdrawals\<close>.
  \<^item> \<open>Plumbing\<close>: \<open>op-node/backoff\<close>, \<open>l1/request_sema.go\<close> and \<open>eth/heads.go\<close>, retries, the limit of concurrent requests and the
    head subscription. \<open>P2PConfig\<close>: \<open>op-node/p2p/config.go\<close>; \<open>Discovery\<close>: \<open>p2p/discovery.go\<close> with \<open>p2p/prepared.go\<close>; \<open>OpNode\<close>:
    \<open>op-node/node/node.go\<close>, \<open>server.go\<close>, \<open>config.go\<close> and \<open>p2p/node.go\<close>, the node that is made of the parts; \<open>P2PAdmin\<close>:
    \<open>p2p/host.go\<close> and the administration API of \<open>p2p/rpc_server.go\<close>, \<open>rpc_api.go\<close> and \<open>rpc_client.go\<close>.
  \<^item> \<open>Flags\<close>: the \<open>flags\<close> packages of the three programs with \<open>op-batcher/config.go\<close> and \<open>op-proposer/config.go\<close>; \<open>StartUp\<close>:
    \<open>op-node/service.go\<close>, \<open>node/log.go\<close> and \<open>RollupNodeMain\<close> of \<open>op-node/cmd/main.go\<close>; \<open>Submitters\<close>: \<open>op-batcher/batch_submitter.go\<close>,
    \<open>op-proposer/l2_output_submitter.go\<close> and \<open>rollupclient/rollupclient.go\<close>, the two programs as runs from their command line on; \<open>Stateviz\<close>:
    \<open>op-node/cmd/stateviz/main.go\<close>, the tool that shows the logged states of drivers.

  \<^bold>\<open>How state and effects are modelled\<close>

  A Go struct is a record, an enumeration a datatype, a fixed-width integer a word that wraps; \<open>big.Int\<close> is
  \<open>int\<close>. A function that may fail returns \<open>res\<close>; a function that calls a service outside the
  repository takes that service as a record of calls and threads its world \<open>'w\<close> through them in source
  order, so the environment may answer anything and change between calls. Code outside the
  repository is never defined: hashing, RLP, tries, signatures, compression, caches, the engine and the
  contracts are fields of parameter records, and what the code relies on is a named predicate
  (\<open>rlp_batch_ok\<close>, \<open>deposit_codec_ok\<close>, \<open>engine_executes\<close>, \<open>snappy_ok\<close>, \<open>json_ok\<close>, \<open>signer_ok\<close>, \<open>bindings_ok\<close>, \<open>l2_view\<close>,
  \<open>cli_documented\<close> for the command line package, \<open>rpc_naming\<close>, \<open>delivers\<close> and \<open>numbers_ok\<close> for JSON-RPC, \<open>signing_ok\<close>, \<open>oracle_ok\<close>) that a property names as a
  hypothesis and a witness satisfies with concrete functions. Goroutines that share state are labelled step functions: \<open>Batching.fetch_do\<close>
  (workers, channels of their capacity, retry timer), \<open>TxManager.txm_do\<close> (senders, the main
  loop, the L1 node), \<open>DriverState.loop_step\<close> (the event loop); or inductive relations: \<open>Plumbing.limit_step\<close> (callers and \<open>Close\<close>),
  \<open>Discovery.disc_step\<close> (main loop, DHT walk, table kick-off, dialing workers), \<open>GossipNet.net_step\<close> (validators that share their memory, subscriber). Timers may fire at any time.

  The event loop of the submitters (\<open>Service.eventLoop\<close>) and their \<open>Main\<close> functions are relations over the iterations of a run.

  Loops without a bound of their own are \<open>partial_function (option)\<close> (\<open>fill_loop\<close>, \<open>find_loop2\<close>, \<open>bundle_loop\<close>, \<open>logs_loop\<close>); the
  properties prove that they return. The other loops recurse over data or have a \<open>termination\<close> proof
  (\<open>collect_loop\<close>, \<open>Do_loop\<close>, whose counter wraps around). The two polling loops of \<open>Withdrawals\<close> take the outcomes of their
  \<open>select\<close> as a list; \<open>Diverge\<close> is a loop that is still waiting.

  \<^bold>\<open>Interfaces\<close> are locales, interpreted on the models: \<open>step_invariant\<close> (driver loop, request batching, gossip
  validator, concurrent gossip, request limit, discovery), \<open>engine_contract\<close> (the L2 source), \<open>output_contract\<close> (\<open>outputImpl\<close> for the driver),
  \<open>history_database\<close> (the JSON file), \<open>driver_contract\<close> (both drivers of the service).

  \<^bold>\<open>What is shown\<close>

  \<^item> Derivation: an inserted epoch is a function of L1 data and the old safe head, two nodes agree on it, on a
    working engine it goes through, and it has one block for each slot; filtering keeps the
    first valid batch of a timestamp; deposits are exactly the events of the deposit contract.
  \<^item> Codecs: bundles, payloads (SSZ), L1 attributes, deposit events and the history file are round trips; the inputs on
    which the SSZ decoder and the gossip validator panic are characterised.
  \<^item> Driver: the window of L1 blocks always extends the origin of the safe head; failed handlers keep the
    heads; the sequencer picks allowed origins; the start of sync finds the right heads or the right error.
  \<^item> L1 source: what it returns and caches is authenticated by the requested hash, receipts belong to their
    block, ranges are chains; batched requests lose nothing in any interleaving and stay within their bound.
  \<^item> Gossip: only fresh payloads signed by the sequencer are accepted and reach the node, honest ones are, and memory is bounded in every interleaving
    of the validators, of which one that runs alone is the sequential validator.
  \<^item> Submission: bundles hold exactly the batches of consecutive canonical blocks, consecutive bundles join,
    every published version of a transaction has the same nonce, recipient and data, and receipts are only
    returned when confirmed; the transaction manager gives up only with evidence.
  \<^item> Outputs and withdrawals: proposed output roots and finalization parameters are proven under the
    state root of their block, and the wait for finality ends only when it is reached.

  \<^item> Node: construction is all or nothing on open resources; a loaded p2p configuration is sound and its network key
    persists; discovery keeps to nodes of its own chain in every interleaving; requests in flight are limited; retries
    happen exactly as often as allowed; every client stub of the administration API reaches its method.
  \<^item> Programs: configurations are functions of the command line and the environment; a node that ran until a signal leaves nothing open but a client of
    its own RPC server; in every run of a submitter, what it publishes is what the node served for its configuration, and below \<open>published_blocks_derived\<close> follows it
    from the blocks of the sequencer to the inputs of a verifier. The log of the visualisation tool is the merge of its entries.

  Behaviours that contradict a comment, the specification or the evident intention are theorems too:
  \<open>l2_time_can_lag_l1_origin\<close>, \<open>fee_recipient_not_compared\<close>, \<open>step_request_rearms_below_origin\<close>, \<open>retried_element_keeps_error\<close>,
  \<open>fetchBatched_can_deadlock\<close>, \<open>signing_hash_ignores_chain_id\<close>, \<open>refused_send_is_recorded\<close>, \<open>Ancestors_not_sorted\<close>, \<open>OutputAtBlock_accepts_other_account\<close>,
  \<open>disable_flag_crashes\<close>, \<open>listen_failure_panics\<close>, \<open>Close_leaks_rpc_client\<close>, \<open>discovery_shutdown_can_panic\<close>, \<open>dumpPeer_reports_nothing\<close>,
  \<open>env_vars_shared\<close>, \<open>bootnodes_variable_breaks_config\<close>, \<open>log_level_ignored\<close>, \<open>rows_miss_drivers\<close>.

  \<^bold>\<open>Not modelled\<close>: the transports below (HTTP, JSON-RPC, libp2p, discv5, databases), the wallets and the
  command line parser, which are third-party packages; the \<open>main\<close> functions that only hand the flags to that parser; the content of
  logs and metrics; generated contract bindings (their calls are parameters); test harnesses and mocks; the Solidity contracts.
\<close>

section \<open>From the command line to the configurations\<close>


text \<open>A context that answers another value for a name that no program registers gives the same configurations.\<close>

definition odd_ctx :: "cli_flag list \<Rightarrow> cli_ctx" where
  "odd_ctx flags = (demo_ctx flags)\<lparr>GlobalString := (\<lambda>n. if n = ''unregistered'' then ''odd'' else GlobalString (demo_ctx flags) n)\<rparr>"

lemma odd_documented:
  assumes "distinct (map fl_Name flags)" and "''unregistered'' \<notin> fl_Name ` set flags"
  shows "cli_documented demo_parse flags (\<lambda>_. None) (\<lambda>_. None) (odd_ctx flags)"
proof -
  have "looks_up (odd_ctx flags) (fl_Name f) v = looks_up (demo_ctx flags) (fl_Name f) v" if "f \<in> set flags" for f v
  proof -
    have "fl_Name f \<noteq> ''unregistered''" using assms(2) that by (metis imageI)
    then show ?thesis by (cases v) (simp_all add: odd_ctx_def)
  qed
  moreover have "IsSet (odd_ctx flags) = IsSet (demo_ctx flags)" by (simp add: odd_ctx_def)
  ultimately show ?thesis using demo_documented [OF assms(1)] by (simp add: cli_documented_def)
qed

lemma not_registered: "''unregistered'' \<notin> fl_Name ` set Flags" "''unregistered'' \<notin> fl_Name ` set batcher_Flags" "''unregistered'' \<notin> fl_Name ` set proposer_Flags"
  by code_simp+


section \<open>From the sequencer's blocks to the verifier's inputs\<close>

lemma BatchesFromTxs_posted:
  assumes "tx \<in> set txs" and "tx_To tx = Some (cfg_BatchInboxAddress config)"
    and "Signer_Sender G (cfg_L1ChainID config) tx = Inr (cfg_BatchSenderAddress config)" and "DecodeBatches R (tx_Data tx) = Inr posted"
  shows "sublist posted (BatchesFromTxs G R config txs)"
  using assms(1)
proof (induction txs)
  case (Cons t txs)
  show ?case
  proof (cases "t = tx")
    case True
    then show ?thesis using assms(2-4) by (simp add: Let_def sublist_append_rightI)
  next
    case False
    with Cons have "sublist posted (BatchesFromTxs G R config txs)" by simp
    moreover have "\<exists>p. BatchesFromTxs G R config (t # txs) = p @ BatchesFromTxs G R config txs"
      by (auto simp: Let_def split: sum.split)
    ultimately show ?thesis by (metis sublist_appendI sublist_append_leftI sublist_order.order_trans)
  qed
qed simp

lemma BatchesFromEVMTransactions_posted:
  assumes "txs \<in> set window" and "sublist posted (BatchesFromTxs G R config txs)"
  shows "sublist posted (BatchesFromEVMTransactions G R config window)"
proof -
  from assms(1) obtain p q where "window = p @ txs # q" by (meson split_list)
  then show ?thesis using assms(2) by (auto simp: BatchesFromEVMTransactions_def sublist_def) (metis append.assoc)
qed

text \<open>A valid batch that no other valid batch of its time competes with survives the filter.\<close>

lemma FilterBatches_keeps:
  assumes "cfg_BlockTime config \<noteq> 0" and "b \<in> set batches" and "is_valid_batch config epoch mn mx b"
    and "\<forall>c\<in>set batches. is_valid_batch config epoch mn mx c \<and> b_Timestamp c = b_Timestamp b \<longrightarrow> c = b"
  shows "\<exists>out. FilterBatches config epoch mn mx batches = Ok out \<and> b \<in> set out"
proof -
  let ?V = "filter (is_valid_batch config epoch mn mx) batches"
  have "b_Timestamp b \<in> b_Timestamp ` set (first_by b_Timestamp ?V)" using assms(2,3) by (simp add: first_by_covers)
  then obtain c where c: "c \<in> set (first_by b_Timestamp ?V)" "b_Timestamp c = b_Timestamp b" by auto
  moreover have "c \<in> set ?V" using set_first_by c(1) by fast
  ultimately show ?thesis using assms(4) by (auto simp: FilterBatches_eq [OF assms(1)])
qed

lemma posted_in: "sublist (List.map_filter id batches) all \<Longrightarrow> Some b \<in> set batches \<Longrightarrow> b \<in> set all"
  using set_mono_sublist by (force simp: List.map_filter_def)



end
